theory Spec2Isabelle
  imports Main
begin

section \<open>Peer certificate extraction of libusual (usual/tls/tls\_cert.c)\<close>

text \<open>
  The C functions of \<^verbatim>\<open>tls_cert.c\<close> are embedded as HOL functions that pass the
  state explicitly. The state (\<open>world\<close>) holds the C heap (the live blocks with their
  bytes), a plan saying which of the coming allocation requests fail, and the error
  message of the \<^verbatim>\<open>struct tls\<close> context. Pointers are \<open>addr option\<close>, with
  \<open>None\<close> for \<^verbatim>\<open>NULL\<close>. Return codes are the C integers.
\<close>

subsection \<open>Bytes and C strings\<close>

type_synonym bytes = string

definition NUL :: char where
  "NUL = CHR 0x00"

text \<open>The C string that starts at the first byte of a buffer: the bytes before the first NUL.\<close>

definition cstr :: "bytes \<Rightarrow> string" where
  "cstr b = takeWhile (\<lambda>c. c \<noteq> NUL) b"

subsection \<open>The heap\<close>

type_synonym addr = nat

record world =
  blocks :: "(addr \<times> bytes) list"
  alloc_plan :: "bool list"
  errmsg :: "string option"

text \<open>An address that no live block has.\<close>

definition fresh_addr :: "(addr \<times> bytes) list \<Rightarrow> addr" where
  "fresh_addr bs = Suc (fold max (map fst bs) 0)"

text \<open>
  One allocation request (\<^verbatim>\<open>malloc\<close>, \<^verbatim>\<open>calloc\<close>, \<^verbatim>\<open>strdup\<close>,
  \<^verbatim>\<open>asprintf\<close>, and the allocating constructors of OpenSSL). It consumes the head of
  the plan; \<open>False\<close> there makes the request fail, an exhausted plan lets it succeed. A
  successful request creates a block holding \<open>content\<close>, the bytes that the caller
  writes into it before anything else can read it.
\<close>

definition next_alloc_ok :: "world \<Rightarrow> bool" where
  "next_alloc_ok w = (case alloc_plan w of [] \<Rightarrow> True | b # _ \<Rightarrow> b)"

definition alloc :: "world \<Rightarrow> bytes \<Rightarrow> addr option \<times> world" where
  "alloc w content =
     (let w1 = w\<lparr>alloc_plan := tl (alloc_plan w)\<rparr>
      in if next_alloc_ok w
         then (let p = fresh_addr (blocks w1)
               in (Some p, w1\<lparr>blocks := (p, content) # blocks w1\<rparr>))
         else (None, w1))"

text \<open>
  \<^verbatim>\<open>free(p)\<close>: the block at \<open>p\<close> leaves the heap; \<^verbatim>\<open>free(NULL)\<close> does
  nothing. In C the pointer must be live; the model leaves the heap as it is for an
  address without a block.
\<close>

definition free :: "world \<Rightarrow> addr option \<Rightarrow> world" where
  "free w p =
     (case p of
        None \<Rightarrow> w
      | Some a \<Rightarrow> w\<lparr>blocks := filter (\<lambda>b. fst b \<noteq> a) (blocks w)\<rparr>)"

text \<open>\<^verbatim>\<open>strdup(s)\<close> copies the C string at \<open>s\<close> with its terminator.\<close>

definition strdup :: "world \<Rightarrow> bytes \<Rightarrow> addr option \<times> world" where
  "strdup w s = alloc w (cstr s @ [NUL])"

text \<open>The bytes of the block at a pointer, and the C string there.\<close>

definition bytes_at :: "world \<Rightarrow> addr option \<Rightarrow> bytes option" where
  "bytes_at w p = (case p of None \<Rightarrow> None | Some a \<Rightarrow> map_of (blocks w) a)"

definition string_at :: "world \<Rightarrow> addr option \<Rightarrow> string option" where
  "string_at w p = map_option cstr (bytes_at w p)"

text \<open>
  Modelled from the spec: \<^verbatim>\<open>tls_set_error\<close> is declared in tls\_internal.h and defined
  outside src/. The spec has every failure site set a human-readable message on the
  context; the model records the message (already formatted) in the state.
\<close>

definition tls_set_error :: "world \<Rightarrow> string \<Rightarrow> world" where
  "tls_set_error w msg = w\<lparr>errmsg := Some msg\<rparr>"

subsection \<open>The OpenSSL objects read by the code\<close>

text \<open>
  OpenSSL is not part of the repository. Its objects are modelled by what its accessors
  return, following the library's manual pages.
\<close>

datatype nid =
    NID_commonName
  | NID_countryName
  | NID_stateOrProvinceName
  | NID_localityName
  | NID_streetAddress
  | NID_organizationName
  | NID_organizationalUnitName
  | NID_other nat

text \<open>A distinguished name, as the text that a lookup by NID finds (or nothing).\<close>

type_synonym X509_NAME = "nid \<Rightarrow> bytes option"

text \<open>
  \<^verbatim>\<open>X509_NAME_get_text_by_NID(name, nid, NULL, 0)\<close>: the length of the text, or -1
  when the name has no such attribute.
\<close>

definition X509_NAME_get_text_len :: "X509_NAME \<Rightarrow> nid \<Rightarrow> int" where
  "X509_NAME_get_text_len name n =
     (case name n of None \<Rightarrow> -1 | Some v \<Rightarrow> int (length v))"

text \<open>
  \<^verbatim>\<open>X509_NAME_get_text_by_NID(name, nid, buf, len)\<close>: the bytes written to \<open>buf\<close>,
  at most \<open>len - 1\<close> bytes of the text and a terminating NUL.
\<close>

definition X509_NAME_get_text :: "X509_NAME \<Rightarrow> nid \<Rightarrow> nat \<Rightarrow> bytes" where
  "X509_NAME_get_text name n len =
     (case name n of None \<Rightarrow> [] | Some v \<Rightarrow> take (len - 1) v @ [NUL])"

record ASN1_STRING =
  asn1_type :: int
  asn1_data :: bytes

definition V_ASN1_IA5STRING :: int where
  "V_ASN1_IA5STRING = 22"

definition V_ASN1_OCTET_STRING :: int where
  "V_ASN1_OCTET_STRING = 4"

definition ASN1_STRING_type :: "ASN1_STRING \<Rightarrow> int" where
  "ASN1_STRING_type s = asn1_type s"

definition ASN1_STRING_length :: "ASN1_STRING \<Rightarrow> int" where
  "ASN1_STRING_length s = int (length (asn1_data s))"

text \<open>The buffer of an \<^verbatim>\<open>ASN1_STRING\<close>: OpenSSL keeps a NUL after the last byte.\<close>

definition ASN1_STRING_data :: "ASN1_STRING \<Rightarrow> bytes" where
  "ASN1_STRING_data s = asn1_data s @ [NUL]"

text \<open>
  A \<^verbatim>\<open>GENERAL_NAME\<close> with its type tag; the payload is kept for the four types whose
  payload the code reads.
\<close>

datatype GENERAL_NAME =
    GEN_OTHERNAME
  | GEN_EMAIL ASN1_STRING
  | GEN_DNS ASN1_STRING
  | GEN_X400
  | GEN_DIRNAME
  | GEN_EDIPARTY
  | GEN_URI ASN1_STRING
  | GEN_IPADD ASN1_STRING
  | GEN_RID

subsection \<open>The certificate structures of tls.h\<close>

text \<open>
  The values of the \<^verbatim>\<open>TLS_CERT_NAME_*\<close> constants are in tls.h, outside src/; they are
  kept symbolic. \<open>TLS_CERT_NAME_unset\<close> is the zero that \<^verbatim>\<open>calloc\<close> leaves in a slot.
\<close>

datatype name_type =
    TLS_CERT_NAME_unset
  | TLS_CERT_NAME_DNS
  | TLS_CERT_NAME_IPv4
  | TLS_CERT_NAME_IPv6
  | TLS_CERT_NAME_EMAIL
  | TLS_CERT_NAME_URI

record tls_cert_alt_name =
  alt_name :: "addr option"
  alt_name_type :: name_type

record tls_cert_entity =
  common_name :: "addr option"
  country_name :: "addr option"
  state_or_province_name :: "addr option"
  locality_name :: "addr option"
  street_address :: "addr option"
  organization_name :: "addr option"
  organizational_unit_name :: "addr option"

text \<open>
  \<^verbatim>\<open>struct tls_cert_info\<close>. The fields of the structure are carried as a record value;
  the array \<^verbatim>\<open>subject_alt_names\<close> is the pointer to its block together with the slots
  that the block holds (\<open>alt_slots\<close>).
\<close>

record tls_cert_info =
  version :: int
  subject :: tls_cert_entity
  issuer :: tls_cert_entity
  subject_alt_names :: "addr option"
  alt_slots :: "tls_cert_alt_name list"
  subject_alt_name_count :: nat
  serial :: "addr option"
  not_before :: "addr option"
  not_after :: "addr option"

definition zero_slot :: tls_cert_alt_name where
  "zero_slot = \<lparr>alt_name = None, alt_name_type = TLS_CERT_NAME_unset\<rparr>"

definition zero_entity :: tls_cert_entity where
  "zero_entity =
     \<lparr>common_name = None, country_name = None, state_or_province_name = None,
      locality_name = None, street_address = None, organization_name = None,
      organizational_unit_name = None\<rparr>"

text \<open>The structure as \<^verbatim>\<open>calloc\<close> returns it.\<close>

definition zero_cert :: tls_cert_info where
  "zero_cert =
     \<lparr>version = 0, subject = zero_entity, issuer = zero_entity,
      subject_alt_names = None, alt_slots = [], subject_alt_name_count = 0,
      serial = None, not_before = None, not_after = None\<rparr>"

subsection \<open>Subject alternative names\<close>

text \<open>
  A write to \<^verbatim>\<open>cert_info->subject_alt_names[i]\<close>. The callers in this file keep
  \<open>i\<close> below the number of slots; beyond it the C code would write out of bounds, and
  the model leaves the slots unchanged.
\<close>

definition set_slot_name :: "tls_cert_info \<Rightarrow> nat \<Rightarrow> addr option \<Rightarrow> tls_cert_info" where
  "set_slot_name c i p =
     (if i < length (alt_slots c)
      then c\<lparr>alt_slots := (alt_slots c)[i := (alt_slots c ! i)\<lparr>alt_name := p\<rparr>]\<rparr>
      else c)"

definition set_slot_type :: "tls_cert_info \<Rightarrow> nat \<Rightarrow> name_type \<Rightarrow> tls_cert_info" where
  "set_slot_type c i t =
     (if i < length (alt_slots c)
      then c\<lparr>alt_slots := (alt_slots c)[i := (alt_slots c ! i)\<lparr>alt_name_type := t\<rparr>]\<rparr>
      else c)"

definition tls_load_alt_ia5string ::
  "world \<Rightarrow> ASN1_STRING \<Rightarrow> tls_cert_info \<Rightarrow> name_type \<Rightarrow> int \<times> tls_cert_info \<times> world" where
  "tls_load_alt_ia5string w ia5str cert_info slot_type =
     (let slot = subject_alt_name_count cert_info;
          format = ASN1_STRING_type ia5str
      in if format \<noteq> V_ASN1_IA5STRING then (0, cert_info, w)
         else
           let data = ASN1_STRING_data ia5str;
               len = ASN1_STRING_length ia5str
           in if len \<le> 0 \<or> NUL \<in> set (take (nat len) data)
              then (-1, cert_info, tls_set_error w ''invalid string value'')
              else if len = 1 \<and> data ! 0 = CHR '' ''
              then (-1, cert_info, tls_set_error w ''single space as name'')
              else
                case strdup w data of
                  (None, w1) \<Rightarrow>
                    (-1, set_slot_name cert_info slot None, tls_set_error w1 ''no mem'')
                | (Some p, w1) \<Rightarrow>
                    (0,
                     (set_slot_type (set_slot_name cert_info slot (Some p)) slot slot_type)
                       \<lparr>subject_alt_name_count := subject_alt_name_count cert_info + 1\<rparr>,
                     w1))"

definition tls_load_alt_ipaddr ::
  "world \<Rightarrow> ASN1_STRING \<Rightarrow> tls_cert_info \<Rightarrow> int \<times> tls_cert_info \<times> world" where
  "tls_load_alt_ipaddr w bin cert_info =
     (let slot = subject_alt_name_count cert_info;
          len = ASN1_STRING_length bin;
          data = ASN1_STRING_data bin
      in if len < 0
         then (-1, cert_info, tls_set_error w ''negative length for ipaddress'')
         else if len \<noteq> 4 \<and> len \<noteq> 16
         then (-1, cert_info, tls_set_error w ''invalid length for ipaddress'')
         else
           let c1 = set_slot_type cert_info slot
                      (if len = 4 then TLS_CERT_NAME_IPv4 else TLS_CERT_NAME_IPv6)
           in case alloc w (take (nat len) data) of
                (None, w1) \<Rightarrow> (-1, set_slot_name c1 slot None, tls_set_error w1 ''no mem'')
              | (Some p, w1) \<Rightarrow>
                  (0,
                   (set_slot_name c1 slot (Some p))
                     \<lparr>subject_alt_name_count := subject_alt_name_count cert_info + 1\<rparr>,
                   w1))"

text \<open>
  The body of the loop of \<^verbatim>\<open>tls_cert_get_altnames\<close> for one entry: \<open>rv\<close> is the
  variable of that name, which the last branch leaves as it is.
\<close>

definition altname_step ::
  "world \<Rightarrow> tls_cert_info \<Rightarrow> int \<Rightarrow> GENERAL_NAME \<Rightarrow> int \<times> tls_cert_info \<times> world" where
  "altname_step w cert_info rv altname =
     (case altname of
        GEN_DNS s \<Rightarrow> tls_load_alt_ia5string w s cert_info TLS_CERT_NAME_DNS
      | GEN_EMAIL s \<Rightarrow> tls_load_alt_ia5string w s cert_info TLS_CERT_NAME_EMAIL
      | GEN_URI s \<Rightarrow> tls_load_alt_ia5string w s cert_info TLS_CERT_NAME_URI
      | GEN_IPADD b \<Rightarrow> tls_load_alt_ipaddr w b cert_info
      | _ \<Rightarrow> (rv, cert_info, w))"

text \<open>The loop over the entries from index \<open>i\<close> on, and the statements after it.\<close>

fun altnames_loop ::
  "world \<Rightarrow> tls_cert_info \<Rightarrow> int \<Rightarrow> GENERAL_NAME list \<Rightarrow> int \<times> tls_cert_info \<times> world" where
  "altnames_loop w cert_info rv [] = (0, cert_info, w)"
| "altnames_loop w cert_info rv (altname # rest) =
     (case altname_step w cert_info rv altname of
        (rv1, c1, w1) \<Rightarrow>
          if rv1 < 0 then (rv1, c1, w1) else altnames_loop w1 c1 rv1 rest)"


subsection \<open>The certificate and the session\<close>

text \<open>
  \<^verbatim>\<open>ASN1_TIME_print\<close> writes the time as text (``Aug 18 20:51:52 2015 GMT'') and
  returns 0 for a value it cannot print; a time is modelled by that outcome.
\<close>

datatype ASN1_TIME = Time_prints string | Time_unprintable

definition ASN1_TIME_print :: "ASN1_TIME \<Rightarrow> string option" where
  "ASN1_TIME_print t = (case t of Time_prints s \<Rightarrow> Some s | Time_unprintable \<Rightarrow> None)"

text \<open>
  An \<^verbatim>\<open>ASN1_INTEGER\<close> is stored by OpenSSL as a sign (the type
  \<^verbatim>\<open>V_ASN1_NEG_INTEGER\<close>) and the big-endian bytes of the magnitude.
\<close>

record ASN1_INTEGER =
  int_negative :: bool
  int_data :: bytes

definition be_value :: "bytes \<Rightarrow> nat" where
  "be_value bs = foldl (\<lambda>acc c. acc * 256 + of_char c) 0 bs"

definition ASN1_INTEGER_value :: "ASN1_INTEGER \<Rightarrow> int" where
  "ASN1_INTEGER_value a =
     (if int_negative a then - int (be_value (int_data a)) else int (be_value (int_data a)))"

text \<open>
  \<^verbatim>\<open>ASN1_INTEGER_get\<close>: the value as a \<^verbatim>\<open>long\<close>, and -1 when it does not fit
  one. \<open>long_max\<close> is \<^verbatim>\<open>LONG_MAX\<close> of the platform.
\<close>

definition ASN1_INTEGER_get :: "int \<Rightarrow> ASN1_INTEGER \<Rightarrow> int" where
  "ASN1_INTEGER_get long_max a =
     (let v = ASN1_INTEGER_value a
      in if - long_max - 1 \<le> v \<and> v \<le> long_max then v else -1)"

datatype EVP_MD = EVP_sha1 | EVP_sha256

definition EVP_MD_size :: "EVP_MD \<Rightarrow> nat" where
  "EVP_MD_size md = (case md of EVP_sha1 \<Rightarrow> 20 | EVP_sha256 \<Rightarrow> 32)"

definition EVP_MAX_MD_SIZE :: nat where
  "EVP_MAX_MD_SIZE = 64"

text \<open>
  A parsed certificate, by what the accessors used in this file return. \<open>x_digest\<close> is
  the digest of the encoded certificate under a hash, \<open>None\<close> when the library fails to
  compute it.
\<close>

record X509 =
  x_version :: int
  x_subject_name :: "X509_NAME option"
  x_issuer_name :: "X509_NAME option"
  x_subject_alt_name :: "GENERAL_NAME list option"
  x_notBefore :: ASN1_TIME
  x_notAfter :: ASN1_TIME
  x_serialNumber :: ASN1_INTEGER
  x_digest :: "EVP_MD \<Rightarrow> bytes option"

record SSL =
  peer_certificate :: "X509 option"

record tls =
  ssl_conn :: "SSL option"

subsection \<open>Decimal output\<close>

definition digit_char :: "nat \<Rightarrow> char" where
  "digit_char d = ''0123456789'' ! d"

fun dec :: "nat \<Rightarrow> string" where
  "dec n = (if n < 10 then [digit_char n] else dec (n div 10) @ [digit_char (n mod 10)])"

declare dec.simps [simp del]

text \<open>The conversion \<^verbatim>\<open>%02d\<close> of \<^verbatim>\<open>printf\<close> for a number that is not negative.\<close>

definition fmt_02d :: "nat \<Rightarrow> string" where
  "fmt_02d n = replicate (2 - length (dec n)) (CHR ''0'') @ dec n"

definition all_digits :: "string \<Rightarrow> bool" where
  "all_digits s = list_all (\<lambda>c. c \<in> set ''0123456789'') s"

subsection \<open>The serial number\<close>

text \<open>
  A \<^verbatim>\<open>BIGNUM\<close> is the pointer to its block and the integer it holds.
  \<^verbatim>\<open>ASN1_INTEGER_to_BN\<close> and \<^verbatim>\<open>BN_bn2dec\<close> allocate their results;
  \<^verbatim>\<open>BN_bn2dec\<close> writes a leading minus sign for a negative number.
\<close>

definition ASN1_INTEGER_to_BN :: "world \<Rightarrow> ASN1_INTEGER \<Rightarrow> (addr \<times> int) option \<times> world" where
  "ASN1_INTEGER_to_BN w a =
     (case alloc w [] of
        (None, w1) \<Rightarrow> (None, w1)
      | (Some p, w1) \<Rightarrow> (Some (p, ASN1_INTEGER_value a), w1))"

definition bn_dec :: "int \<Rightarrow> string" where
  "bn_dec v = (if v < 0 then ''-'' @ dec (nat (- v)) else dec (nat v))"

definition BN_bn2dec :: "world \<Rightarrow> addr \<times> int \<Rightarrow> (addr \<times> bytes) option \<times> world" where
  "BN_bn2dec w big =
     (case alloc w (bn_dec (snd big) @ [NUL]) of
        (None, w1) \<Rightarrow> (None, w1)
      | (Some p, w1) \<Rightarrow> (Some (p, bn_dec (snd big) @ [NUL]), w1))"

text \<open>\<^verbatim>\<open>snprintf(buf, sizeof buf, "%lu", small)\<close> into a buffer of 64 bytes.\<close>

definition snprintf_lu :: "int \<Rightarrow> bytes" where
  "snprintf_lu small = take 63 (dec (nat small)) @ [NUL]"

definition tls_parse_bigint :: "int \<Rightarrow> world \<Rightarrow> ASN1_INTEGER \<Rightarrow> int \<times> addr option \<times> world" where
  "tls_parse_bigint long_max w asn1int =
     (let small = ASN1_INTEGER_get long_max asn1int
      in case
           (if small < 0
            then (case ASN1_INTEGER_to_BN w asn1int of
                    (None, w1) \<Rightarrow> (None, w1)
                  | (Some big, w1) \<Rightarrow>
                      (case BN_bn2dec w1 big of
                         (None, w2) \<Rightarrow> (None, free w2 (Some (fst big)))
                       | (Some tmp, w2) \<Rightarrow>
                           (case strdup w2 (snd tmp) of
                              (dst, w3) \<Rightarrow>
                                (dst, free (free w3 (Some (fst tmp))) (Some (fst big))))))
            else strdup w (snprintf_lu small))
         of
           (Some dst, w4) \<Rightarrow> (0, Some dst, w4)
         | (None, w4) \<Rightarrow> (-1, None, tls_set_error w4 ''cannot parse serial''))"

subsection \<open>Times\<close>

definition months :: "string list" where
  "months = [''Jan'', ''Feb'', ''Mar'', ''Apr'', ''May'', ''Jun'',
             ''Jul'', ''Aug'', ''Sep'', ''Oct'', ''Nov'', ''Dec'']"

text \<open>
  \<^verbatim>\<open>strsep(&tmp, delim)\<close> for a single delimiter: the token and the new value of
  \<^verbatim>\<open>tmp\<close>. The strings are the C strings at the pointers.
\<close>

definition strsep :: "string option \<Rightarrow> char \<Rightarrow> string option \<times> string option" where
  "strsep stringp delim =
     (case stringp of
        None \<Rightarrow> (None, None)
      | Some s \<Rightarrow>
          if delim \<in> set s
          then (Some (takeWhile (\<lambda>c. c \<noteq> delim) s), Some (tl (dropWhile (\<lambda>c. c \<noteq> delim) s)))
          else (Some s, None))"

text \<open>
  \<^verbatim>\<open>memcmp(months[i], mon, 4) == 0\<close>. The four bytes at \<open>mon\<close> are the token, its
  terminating NUL and what follows in the buffer. A month name has three bytes other
  than NUL and then a NUL, so the bytes after the token's NUL never decide the
  comparison; the model takes NUL for them.
\<close>

definition memcmp4_eq :: "string \<Rightarrow> string \<Rightarrow> bool" where
  "memcmp4_eq m mon \<longleftrightarrow> take 4 (m @ [NUL]) = take 4 (mon @ replicate 4 NUL)"

text \<open>The loop that looks for the month: the value of \<open>i\<close> after it.\<close>

fun month_search :: "string list \<Rightarrow> string \<Rightarrow> nat \<Rightarrow> nat" where
  "month_search [] mon i = i"
| "month_search (m # ms) mon i = (if memcmp4_eq m mon then i else month_search ms mon (Suc i))"

text \<open>
  \<open>buf\<close> after \<^verbatim>\<open>memset(buf, 0, sizeof buf)\<close> and
  \<^verbatim>\<open>BIO_read(bio, buf, sizeof(buf) - 1)\<close>: 128 bytes.
\<close>

definition read_buf :: "string \<Rightarrow> bytes" where
  "read_buf text = take 127 text @ replicate (128 - length (take 127 text)) NUL"

text \<open>The statement under the comment ``Jan  1'': a space-padded day gets a zero.\<close>

definition pad_day :: "bytes \<Rightarrow> bytes" where
  "pad_day buf =
     (if buf ! 3 = CHR '' '' \<and> buf ! 4 = CHR '' '' then buf[4 := CHR ''0''] else buf)"

text \<open>
  The five calls of \<^verbatim>\<open>strsep\<close> on \<open>buf\<close>: \<open>mon\<close>, \<open>day\<close>, \<open>time\<close>,
  \<open>year\<close>, \<open>tz\<close> and the value of \<open>tmp\<close> after them.
\<close>

definition time_fields ::
  "bytes \<Rightarrow> string option \<times> string option \<times> string option \<times> string option
            \<times> string option \<times> string option" where
  "time_fields buf =
     (let (mon, tmp1) = strsep (Some (cstr buf)) (CHR '' '');
          (day, tmp2) = strsep tmp1 (CHR '' '');
          (time, tmp3) = strsep tmp2 (CHR '' '');
          (year, tmp4) = strsep tmp3 (CHR '' '');
          (tz, tmp5) = strsep tmp4 (CHR '' '')
      in (mon, day, time, year, tz, tmp5))"

definition tls_parse_time :: "world \<Rightarrow> ASN1_TIME \<Rightarrow> int \<times> addr option \<times> world" where
  "tls_parse_time w asn1time =
     (case alloc w [] of
        (None, w1) \<Rightarrow> (-1, None, tls_set_error w1 ''no mem to parse time'')
      | (Some bio, w1) \<Rightarrow>
          (case ASN1_TIME_print asn1time of
             None \<Rightarrow> (-1, None, tls_set_error (free w1 (Some bio)) ''no mem to parse time'')
           | Some text \<Rightarrow>
               let buf = read_buf text;
                   w2 = free w1 (Some bio);
                   buf2 = buf
               in case time_fields (pad_day buf) of
                    (mon, day, time, year, tz, tmp) \<Rightarrow>
                      if year = None \<or> tmp \<noteq> None
                      then (-1, None,
                            tls_set_error w2 (''invalid time format: no year: '' @ cstr buf2))
                      else if tz \<noteq> None \<and> the tz \<noteq> ''GMT''
                      then (-1, None, tls_set_error w2 ''invalid time format'')
                      else
                        let i = month_search months (the mon) 0
                        in if i > 11
                           then (-1, None, tls_set_error w2 ''invalid time format'')
                           else
                             (case alloc w2 (the year @ ''-'' @ fmt_02d (i + 1) @ ''-''
                                             @ the day @ ''T'' @ the time @ ''Z'' @ [NUL]) of
                                (None, w3) \<Rightarrow>
                                  (-1, None, tls_set_error w3 ''no mem to parse time'')
                              | (Some p, w3) \<Rightarrow> (0, Some p, w3))))"

subsection \<open>Distinguished names\<close>

definition tls_cert_get_name_string ::
  "world \<Rightarrow> X509_NAME \<Rightarrow> nid \<Rightarrow> int \<times> addr option \<times> world" where
  "tls_cert_get_name_string w name n =
     (let res_len = X509_NAME_get_text_len name n
      in if res_len < 0 then (0, None, w)
         else
           let text = X509_NAME_get_text name n (nat (res_len + 1))
           in case alloc w text of
                (None, w1) \<Rightarrow> (-1, None, tls_set_error w1 ''no mem'')
              | (Some res, w1) \<Rightarrow>
                  if NUL \<in> set (take (nat res_len) text)
                  then (-2, None,
                        free (tls_set_error w1 ''corrupt cert - NUL bytes is value'') (Some res))
                  else (0, Some res, w1))"

text \<open>
  One line of \<^verbatim>\<open>tls_get_entity\<close>: when \<open>ret\<close> is 0, look the attribute up and
  store the result in the field that \<open>upd\<close> writes.
\<close>

definition get_field ::
  "X509_NAME \<Rightarrow> nid \<Rightarrow> (addr option \<Rightarrow> tls_cert_entity \<Rightarrow> tls_cert_entity) \<Rightarrow>
   int \<times> tls_cert_entity \<times> world \<Rightarrow> int \<times> tls_cert_entity \<times> world" where
  "get_field name n upd st =
     (case st of
        (ret, ent, w) \<Rightarrow>
          if ret = 0
          then (case tls_cert_get_name_string w name n of
                  (ret1, p, w1) \<Rightarrow> (ret1, upd p ent, w1))
          else (ret, ent, w))"

definition tls_get_entity ::
  "world \<Rightarrow> X509_NAME \<Rightarrow> tls_cert_entity \<Rightarrow> int \<times> tls_cert_entity \<times> world" where
  "tls_get_entity w name ent =
     (get_field name NID_organizationalUnitName (\<lambda>p e. e\<lparr>organizational_unit_name := p\<rparr>)
     (get_field name NID_organizationName (\<lambda>p e. e\<lparr>organization_name := p\<rparr>)
     (get_field name NID_streetAddress (\<lambda>p e. e\<lparr>street_address := p\<rparr>)
     (get_field name NID_localityName (\<lambda>p e. e\<lparr>locality_name := p\<rparr>)
     (get_field name NID_stateOrProvinceName (\<lambda>p e. e\<lparr>state_or_province_name := p\<rparr>)
     (get_field name NID_countryName (\<lambda>p e. e\<lparr>country_name := p\<rparr>)
     (get_field name NID_commonName (\<lambda>p e. e\<lparr>common_name := p\<rparr>)
        (0, ent, w))))))))"

subsection \<open>The list of alternative names\<close>

text \<open>
  \<^verbatim>\<open>X509_get_ext_d2i(x509_cert, NID_subject_alt_name, NULL, NULL)\<close>: the entries of
  the extension, \<^verbatim>\<open>NULL\<close> without one. The stack belongs to OpenSSL and is released
  by \<^verbatim>\<open>sk_GENERAL_NAME_pop_free\<close> on every path that obtained it; it is not a block
  of the heap modelled here. The block of the array holds the slots, which the record
  carries in \<open>alt_slots\<close>.
\<close>

definition tls_cert_get_altnames ::
  "world \<Rightarrow> tls_cert_info \<Rightarrow> X509 \<Rightarrow> int \<times> tls_cert_info \<times> world" where
  "tls_cert_get_altnames w cert_info x509_cert =
     (case x_subject_alt_name x509_cert of
        None \<Rightarrow> (0, cert_info, w)
      | Some altname_stack \<Rightarrow>
          let count = length altname_stack
          in if count = 0 then (0, cert_info, w)
             else
               (case alloc w [] of
                  (None, w1) \<Rightarrow>
                    (-1, cert_info\<lparr>subject_alt_names := None\<rparr>, tls_set_error w1 ''no mem'')
                | (Some arr, w1) \<Rightarrow>
                    altnames_loop w1
                      (cert_info\<lparr>subject_alt_names := Some arr,
                                 alt_slots := replicate count zero_slot\<rparr>)
                      (-1) altname_stack))"

subsection \<open>Releasing and extracting\<close>

definition tls_cert_free_entity :: "world \<Rightarrow> tls_cert_entity \<Rightarrow> world" where
  "tls_cert_free_entity w ent =
     free (free (free (free (free (free (free w
       (common_name ent)) (country_name ent)) (state_or_province_name ent))
       (locality_name ent)) (street_address ent)) (organization_name ent))
       (organizational_unit_name ent)"

text \<open>
  \<^verbatim>\<open>tls_cert_free\<close>; the argument is the pointer to the structure with the value
  it points to.
\<close>

definition tls_cert_free :: "world \<Rightarrow> (addr \<times> tls_cert_info) option \<Rightarrow> world" where
  "tls_cert_free w cert =
     (case cert of
        None \<Rightarrow> w
      | Some (p, c) \<Rightarrow>
          let w1 = tls_cert_free_entity w (issuer c);
              w2 = tls_cert_free_entity w1 (subject c);
              w3 = foldl (\<lambda>v s. free v (alt_name s)) w2
                     (take (subject_alt_name_count c) (alt_slots c));
              w4 = free w3 (subject_alt_names c);
              w5 = free w4 (serial c);
              w6 = free w5 (not_before c);
              w7 = free w6 (not_after c)
          in free w7 (Some p))"

text \<open>One of the chained steps of \<^verbatim>\<open>tls_get_peer_cert\<close>: run when \<open>ret\<close> is 0.\<close>

definition chain ::
  "(world \<Rightarrow> tls_cert_info \<Rightarrow> int \<times> tls_cert_info \<times> world) \<Rightarrow>
   int \<times> tls_cert_info \<times> world \<Rightarrow> int \<times> tls_cert_info \<times> world" where
  "chain step st = (case st of (ret, c, w) \<Rightarrow> if ret = 0 then step w c else (ret, c, w))"

text \<open>
  The six chained calls of \<^verbatim>\<open>tls_get_peer_cert\<close>, from the entity of the subject
  to the serial number, on the structure \<open>c\<close>; the result carries the final
  \<^verbatim>\<open>ret\<close>.
\<close>

definition decode_fields ::
  "int \<Rightarrow> X509 \<Rightarrow> X509_NAME \<Rightarrow> X509_NAME \<Rightarrow> world \<Rightarrow> tls_cert_info \<Rightarrow>
   int \<times> tls_cert_info \<times> world" where
  "decode_fields long_max peer subj iss w c =
     chain (\<lambda>v c. case tls_parse_bigint long_max v (x_serialNumber peer) of
                    (r, p, v1) \<Rightarrow> (r, c\<lparr>serial := p\<rparr>, v1))
    (chain (\<lambda>v c. case tls_parse_time v (x_notAfter peer) of
                    (r, p, v1) \<Rightarrow> (r, c\<lparr>not_after := p\<rparr>, v1))
    (chain (\<lambda>v c. case tls_parse_time v (x_notBefore peer) of
                    (r, p, v1) \<Rightarrow> (r, c\<lparr>not_before := p\<rparr>, v1))
    (chain (\<lambda>v c. tls_cert_get_altnames v c peer)
    (chain (\<lambda>v c. case tls_get_entity v iss (issuer c) of
                    (r, e, v1) \<Rightarrow> (r, c\<lparr>issuer := e\<rparr>, v1))
    (chain (\<lambda>v c. case tls_get_entity v subj (subject c) of
                    (r, e, v1) \<Rightarrow> (r, c\<lparr>subject := e\<rparr>, v1))
       (0, c, w))))))"

text \<open>
  The result is the return code, the value of \<^verbatim>\<open>*cert_p\<close> (the pointer to the
  structure with the structure) and the state.
\<close>

definition tls_get_peer_cert ::
  "int \<Rightarrow> world \<Rightarrow> tls \<Rightarrow> int \<times> (addr \<times> tls_cert_info) option \<times> world" where
  "tls_get_peer_cert long_max w ctx =
     (case ssl_conn ctx of
        None \<Rightarrow> (-1, None, tls_set_error w ''not connected'')
      | Some conn \<Rightarrow>
      (case peer_certificate conn of
        None \<Rightarrow> (-1, None, tls_set_error w ''peer does not have cert'')
      | Some peer \<Rightarrow>
      if x_version peer < 0 then (-1, None, tls_set_error w ''invalid version'')
      else
      (case x_subject_name peer of
        None \<Rightarrow> (-1, None, tls_set_error w ''cert does not have subject'')
      | Some subj \<Rightarrow>
      (case x_issuer_name peer of
        None \<Rightarrow> (-1, None, tls_set_error w ''cert does not have issuer'')
      | Some iss \<Rightarrow>
      (case alloc w [] of
        (None, w1) \<Rightarrow> (-1, None, tls_cert_free (tls_set_error w1 ''calloc failed'') None)
      | (Some cert, w1) \<Rightarrow>
          (case decode_fields long_max peer subj iss w1 (zero_cert\<lparr>version := x_version peer\<rparr>)
           of (ret, c, w2) \<Rightarrow>
             if ret = 0 then (0, Some (cert, c), w2)
             else (ret, None, tls_cert_free w2 (Some (cert, c)))))))))"

subsection \<open>The fingerprint\<close>

definition tolower :: "char \<Rightarrow> char" where
  "tolower c =
     (let n = (of_char c :: nat) in if 65 \<le> n \<and> n \<le> 90 then char_of (n + 32) else c)"

text \<open>\<^verbatim>\<open>strcasecmp(a, b) == 0\<close> in the C locale.\<close>

definition strcasecmp_eq :: "bytes \<Rightarrow> bytes \<Rightarrow> bool" where
  "strcasecmp_eq a b \<longleftrightarrow> map tolower (cstr a) = map tolower (cstr b)"

text \<open>
  \<^verbatim>\<open>X509_digest(peer, md, tmpbuf, &tmplen)\<close>: on success the digest, of the size of
  the hash, is in \<open>tmpbuf\<close> and its size in \<open>tmplen\<close>.
\<close>

definition X509_digest :: "X509 \<Rightarrow> EVP_MD \<Rightarrow> (bytes \<times> nat) option" where
  "X509_digest peer md =
     (case x_digest peer md of
        None \<Rightarrow> None
      | Some d \<Rightarrow>
          Some (take (EVP_MD_size md) (d @ replicate (EVP_MD_size md) NUL)
                  @ replicate (EVP_MAX_MD_SIZE - EVP_MD_size md) NUL,
                EVP_MD_size md))"

text \<open>
  \<open>algo\<close> is the buffer with the name, \<open>buf\<close> the bytes of the caller's buffer,
  \<open>outlen\<close> the value at the pointer of that name (\<open>None\<close> when the pointer is
  \<^verbatim>\<open>NULL\<close>). The result is the return code, the buffer and the value at \<open>outlen\<close>.
\<close>

definition tls_get_peer_cert_fingerprint ::
  "world \<Rightarrow> tls \<Rightarrow> bytes \<Rightarrow> bytes \<Rightarrow> nat \<Rightarrow> nat option \<Rightarrow>
   int \<times> bytes \<times> nat option \<times> world" where
  "tls_get_peer_cert_fingerprint w ctx algo buf buflen outlen =
     (let outlen0 = map_option (\<lambda>_. 0) outlen
      in case ssl_conn ctx of
        None \<Rightarrow> (-1, buf, outlen0, tls_set_error w ''not connected'')
      | Some conn \<Rightarrow>
      (case peer_certificate conn of
        None \<Rightarrow> (-1, buf, outlen0, tls_set_error w ''peer does not have cert'')
      | Some peer \<Rightarrow>
      (case (if strcasecmp_eq algo ''sha1'' then Some EVP_sha1
             else if strcasecmp_eq algo ''sha256'' then Some EVP_sha256
             else None) of
        None \<Rightarrow> (-1, buf, outlen0, tls_set_error w ''invalid fingerprint algorithm'')
      | Some md \<Rightarrow>
      (case X509_digest peer md of
        None \<Rightarrow> (-1, buf, outlen0, tls_set_error w ''X509_digest failed'')
      | Some (tmpbuf, tmplen0) \<Rightarrow>
          let tmplen = (if tmplen0 > buflen then buflen else tmplen0)
          in (0, take tmplen tmpbuf @ drop tmplen buf,
              map_option (\<lambda>_. tmplen) outlen, w)))))"


subsection \<open>Notions used in the statements\<close>

text \<open>An entry of a type other than DNS, e-mail, URI and IP address.\<close>

definition unknown_type :: "GENERAL_NAME \<Rightarrow> bool" where
  "unknown_type g =
     (case g of GEN_DNS _ \<Rightarrow> False | GEN_EMAIL _ \<Rightarrow> False | GEN_URI _ \<Rightarrow> False
      | GEN_IPADD _ \<Rightarrow> False | _ \<Rightarrow> True)"

text \<open>The values of an IA5String entry that the specification has rejected.\<close>

definition bad_ia5_value :: "bytes \<Rightarrow> bool" where
  "bad_ia5_value v \<longleftrightarrow> v = [] \<or> NUL \<in> set v \<or> v = '' ''"

text \<open>
  The error \<open>InvalidAltName\<close> of the specification: the return code -1 with one of the
  messages of the two decoders of alternative names.
\<close>

definition invalid_alt_name :: "int \<Rightarrow> world \<Rightarrow> bool" where
  "invalid_alt_name ret w \<longleftrightarrow>
     ret = -1 \<and>
     errmsg w \<in> {Some ''invalid string value'', Some ''single space as name'',
                 Some ''invalid length for ipaddress'', Some ''negative length for ipaddress''}"

text \<open>A state with an empty heap, in which no allocation fails.\<close>

definition empty_world :: world where
  "empty_world = \<lparr>blocks = [], alloc_plan = [], errmsg = None\<rparr>"

text \<open>No allocation request fails from this state on.\<close>

definition no_alloc_failure :: "world \<Rightarrow> bool" where
  "no_alloc_failure w \<longleftrightarrow> False \<notin> set (alloc_plan w)"

text \<open>A token of the printed time: it has no space and no NUL.\<close>

definition token :: "string \<Rightarrow> bool" where
  "token s \<longleftrightarrow> CHR '' '' \<notin> set s \<and> NUL \<notin> set s"

text \<open>The return code of \<^verbatim>\<open>tls_parse_time\<close> with the string it stores in \<^verbatim>\<open>*dst_p\<close>.\<close>

definition parsed_time :: "world \<Rightarrow> ASN1_TIME \<Rightarrow> int \<times> string option" where
  "parsed_time w t = (case tls_parse_time w t of (ret, p, w') \<Rightarrow> (ret, string_at w' p))"

text \<open>
  The return code of \<^verbatim>\<open>tls_parse_bigint\<close> with the string it stores in
  \<^verbatim>\<open>*dst_p\<close>.
\<close>

definition parsed_serial :: "int \<Rightarrow> world \<Rightarrow> ASN1_INTEGER \<Rightarrow> int \<times> string option" where
  "parsed_serial long_max w a =
     (case tls_parse_bigint long_max w a of (ret, p, w') \<Rightarrow> (ret, string_at w' p))"

text \<open>What a slot holds: its type and the bytes of the block of its name.\<close>

definition slot_view :: "world \<Rightarrow> tls_cert_alt_name \<Rightarrow> (name_type \<times> bytes) option" where
  "slot_view w s = map_option (\<lambda>b. (alt_name_type s, b)) (bytes_at w (alt_name s))"

text \<open>
  The sequence of alternative names of a structure: the slots below
  \<^verbatim>\<open>subject_alt_name_count\<close>.
\<close>

definition alt_names_of :: "world \<Rightarrow> tls_cert_info \<Rightarrow> (name_type \<times> bytes) option list" where
  "alt_names_of w c = map (slot_view w) (take (subject_alt_name_count c) (alt_slots c))"

text \<open>
  The specification's reading of one entry of the extension: the alternative name it
  contributes (the type and the bytes stored, a C string for the three text types), or
  nothing for an entry that is skipped.
\<close>

definition recorded :: "GENERAL_NAME \<Rightarrow> (name_type \<times> bytes) option" where
  "recorded g =
     (case g of
        GEN_DNS s \<Rightarrow>
          if asn1_type s = V_ASN1_IA5STRING then Some (TLS_CERT_NAME_DNS, asn1_data s @ [NUL])
          else None
      | GEN_EMAIL s \<Rightarrow>
          if asn1_type s = V_ASN1_IA5STRING then Some (TLS_CERT_NAME_EMAIL, asn1_data s @ [NUL])
          else None
      | GEN_URI s \<Rightarrow>
          if asn1_type s = V_ASN1_IA5STRING then Some (TLS_CERT_NAME_URI, asn1_data s @ [NUL])
          else None
      | GEN_IPADD b \<Rightarrow>
          Some (if length (asn1_data b) = 4 then TLS_CERT_NAME_IPv4 else TLS_CERT_NAME_IPv6,
                asn1_data b)
      | _ \<Rightarrow> None)"

text \<open>
  An entry of one of the four decoded types with a value that the decoders accept.
\<close>

definition valid_entry :: "GENERAL_NAME \<Rightarrow> bool" where
  "valid_entry g =
     (case g of
        GEN_DNS s \<Rightarrow> asn1_type s = V_ASN1_IA5STRING \<and> \<not> bad_ia5_value (asn1_data s)
      | GEN_EMAIL s \<Rightarrow> asn1_type s = V_ASN1_IA5STRING \<and> \<not> bad_ia5_value (asn1_data s)
      | GEN_URI s \<Rightarrow> asn1_type s = V_ASN1_IA5STRING \<and> \<not> bad_ia5_value (asn1_data s)
      | GEN_IPADD b \<Rightarrow> length (asn1_data b) = 4 \<or> length (asn1_data b) = 16
      | _ \<Rightarrow> False)"

text \<open>The entries of the extension of a certificate, none without the extension.\<close>

definition san_entries :: "X509 \<Rightarrow> GENERAL_NAME list" where
  "san_entries x = (case x_subject_alt_name x of None \<Rightarrow> [] | Some gs \<Rightarrow> gs)"






text \<open>
  The heap of \<open>w'\<close> is the heap of \<open>w\<close> with new blocks in front, and \<open>P\<close> is the set
  of the addresses of the new blocks.
\<close>

definition extends :: "world \<Rightarrow> addr set \<Rightarrow> world \<Rightarrow> bool" where
  "extends w P w' \<longleftrightarrow>
     (\<exists>news. blocks w' = news @ blocks w \<and> fst ` set news = P) \<and>
     P \<inter> fst ` set (blocks w) = {}"

text \<open>The blocks that a structure points to.\<close>

definition entity_ptrs :: "tls_cert_entity \<Rightarrow> addr set" where
  "entity_ptrs e =
     set_option (common_name e) \<union> set_option (country_name e) \<union>
     set_option (state_or_province_name e) \<union> set_option (locality_name e) \<union>
     set_option (street_address e) \<union> set_option (organization_name e) \<union>
     set_option (organizational_unit_name e)"

definition alt_ptrs :: "tls_cert_info \<Rightarrow> addr set" where
  "alt_ptrs c =
     (\<Union>s\<in>set (take (subject_alt_name_count c) (alt_slots c)). set_option (alt_name s))"

definition cert_owned :: "tls_cert_info \<Rightarrow> addr set" where
  "cert_owned c =
     entity_ptrs (subject c) \<union> entity_ptrs (issuer c) \<union> alt_ptrs c \<union>
     set_option (subject_alt_names c) \<union> set_option (serial c) \<union>
     set_option (not_before c) \<union> set_option (not_after c)"

subsection \<open>Invariants used in the proofs\<close>

text \<open>
  The state of \<^verbatim>\<open>tls_get_entity\<close> after \<open>k\<close> of its seven lines: the fields of the
  later lines are still \<^verbatim>\<open>NULL\<close>, and the blocks allocated since \<open>w0\<close> are the ones
  that the entity points to.
\<close>

definition ent_fields_from :: "nat \<Rightarrow> tls_cert_entity \<Rightarrow> bool" where
  "ent_fields_from k e \<longleftrightarrow>
     (k < 1 \<longrightarrow> common_name e = None) \<and> (k < 2 \<longrightarrow> country_name e = None) \<and>
     (k < 3 \<longrightarrow> state_or_province_name e = None) \<and> (k < 4 \<longrightarrow> locality_name e = None) \<and>
     (k < 5 \<longrightarrow> street_address e = None) \<and> (k < 6 \<longrightarrow> organization_name e = None) \<and>
     (k < 7 \<longrightarrow> organizational_unit_name e = None)"

definition ent_inv :: "nat \<Rightarrow> world \<Rightarrow> int \<times> tls_cert_entity \<times> world \<Rightarrow> bool" where
  "ent_inv k w0 st =
     (case st of (r, e, w) \<Rightarrow> extends w0 (entity_ptrs e) w \<and> ent_fields_from k e)"

text \<open>
  The same for the six chained steps of \<^verbatim>\<open>tls_get_peer_cert\<close>, from the state \<open>w1\<close>
  in which the structure has been allocated.
\<close>

definition cert_fields_from :: "nat \<Rightarrow> tls_cert_info \<Rightarrow> bool" where
  "cert_fields_from k c \<longleftrightarrow>
     (k < 1 \<longrightarrow> subject c = zero_entity) \<and> (k < 2 \<longrightarrow> issuer c = zero_entity) \<and>
     (k < 3 \<longrightarrow> subject_alt_name_count c = 0 \<and> subject_alt_names c = None) \<and>
     (k < 4 \<longrightarrow> not_before c = None) \<and> (k < 5 \<longrightarrow> not_after c = None) \<and>
     (k < 6 \<longrightarrow> serial c = None)"

definition cert_inv :: "nat \<Rightarrow> world \<Rightarrow> int \<times> tls_cert_info \<times> world \<Rightarrow> bool" where
  "cert_inv k w1 st =
     (case st of (r, c, w) \<Rightarrow> extends w1 (cert_owned c) w \<and> cert_fields_from k c)"


section \<open>Properties\<close>

subsection \<open>The heap\<close>

lemma fold_max_ge: "m \<le> fold max xs (m::nat)"
  by (induction xs arbitrary: m) (auto intro: order_trans [OF max.cobounded2])

lemma fold_max_mem: "x \<in> set xs \<Longrightarrow> x \<le> fold max xs (m::nat)"
proof (induction xs arbitrary: m)
  case Nil
  then show ?case by simp
next
  case (Cons y ys)
  show ?case
  proof (cases "x = y")
    case True
    have "y \<le> max y m" by simp
    also have "\<dots> \<le> fold max ys (max y m)" by (rule fold_max_ge)
    finally show ?thesis using True by simp
  next
    case False
    with Cons show ?thesis by simp
  qed
qed

lemma fresh_addr_new: "fresh_addr bs \<notin> fst ` set bs"
proof
  assume "fresh_addr bs \<in> fst ` set bs"
  then have "fresh_addr bs \<in> set (map fst bs)" by simp
  then have "fresh_addr bs \<le> fold max (map fst bs) 0" by (rule fold_max_mem)
  then show False by (simp add: fresh_addr_def)
qed


lemma alloc_fail:
  "\<not> next_alloc_ok w \<Longrightarrow> alloc w s = (None, w\<lparr>alloc_plan := tl (alloc_plan w)\<rparr>)"
  by (simp add: alloc_def next_alloc_ok_def)

lemma alloc_ok:
  "next_alloc_ok w \<Longrightarrow>
   alloc w s = (Some (fresh_addr (blocks w)),
                w\<lparr>alloc_plan := tl (alloc_plan w), blocks := (fresh_addr (blocks w), s) # blocks w\<rparr>)"
  by (simp add: alloc_def next_alloc_ok_def Let_def)

lemma alloc_None:
  "alloc w s = (None, w') \<Longrightarrow> blocks w' = blocks w \<and> errmsg w' = errmsg w \<and> alloc_plan w' = tl (alloc_plan w) \<and> \<not> next_alloc_ok w"
  by (auto simp: alloc_def Let_def  next_alloc_ok_def split: if_splits)

lemma alloc_Some:
  "alloc w s = (Some a, w') \<Longrightarrow>
     a \<notin> fst ` set (blocks w) \<and> blocks w' = (a, s) # blocks w \<and> errmsg w' = errmsg w \<and> alloc_plan w' = tl (alloc_plan w) \<and> next_alloc_ok w"
  using fresh_addr_new [of "blocks w"]
  by (auto simp: alloc_def Let_def next_alloc_ok_def split: if_splits)

lemma map_of_filter_fst:
  "map_of (filter (\<lambda>b. fst b \<noteq> a) bs) d = (if d = a then None else map_of bs d)"
  by (induction bs) auto

lemma bytes_at_free:
  "a \<noteq> d \<Longrightarrow> bytes_at (free w (Some a)) (Some d) = bytes_at w (Some d)"
  by (simp add: bytes_at_def free_def map_of_filter_fst)

lemma bytes_at_alloc_new:
  "alloc w s = (Some a, w') \<Longrightarrow> bytes_at w' (Some a) = Some s"
  by (drule alloc_Some) (simp add: bytes_at_def)

lemma bytes_at_alloc_old:
  assumes "alloc w s = (p, w')" and "bytes_at w q = Some b"
  shows "bytes_at w' q = Some b"
proof (cases p)
  case None
  with assms show ?thesis by (auto dest!: alloc_None simp: bytes_at_def split: option.splits)
next
  case (Some a)
  with assms(1) have a: "a \<notin> fst ` set (blocks w)" and b: "blocks w' = (a, s) # blocks w"
    by (auto dest!: alloc_Some)
  from assms(2) obtain d where q: "q = Some d" and m: "map_of (blocks w) d = Some b"
    by (auto simp: bytes_at_def split: option.splits)
  from m have "d \<in> fst ` set (blocks w)" by (force dest: map_of_SomeD)
  with a have "d \<noteq> a" by auto
  with q m b show ?thesis by (simp add: bytes_at_def)
qed

subsection \<open>Alternative names\<close>

lemma altname_step_unknown: "unknown_type g \<Longrightarrow> altname_step w c rv g = (rv, c, w)"
  by (cases g) (simp_all add: unknown_type_def altname_step_def)

text \<open>
  Claim C1. The claim: an entry of a type other than DNS, e-mail, URI and IP address is
  skipped without an error wherever it stands in the list, also as the first entry. The
  code leaves \<^verbatim>\<open>rv\<close> untouched in the branch commented ``ignore unknown types'';
  before the first entry \<^verbatim>\<open>rv\<close> still holds its initial -1. So the body of the loop
  passes such an entry with the state, the structure and \<^verbatim>\<open>rv\<close> unchanged, which
  skips it after an entry that was decoded; but whenever the first entry of the
  extension has such a type, \<^verbatim>\<open>tls_cert_get_altnames\<close> returns -1, for every
  state, structure and rest of the list.
\<close>

theorem altnames_first_unknown_fails:
  assumes "unknown_type g" and "x_subject_alt_name x = Some (g # rest)"
  shows "altname_step w c rv g = (rv, c, w) \<and> fst (tls_cert_get_altnames w c x) = -1"
  using assms
  by (simp add: tls_cert_get_altnames_def altname_step_unknown split: prod.splits option.splits)

theorem altnames_first_unknown_fails_witness:
  "unknown_type GEN_DIRNAME \<and>
   fst (tls_cert_get_altnames empty_world zero_cert
     \<lparr>x_version = 2, x_subject_name = None, x_issuer_name = None,
      x_subject_alt_name = Some [GEN_DIRNAME],
      x_notBefore = Time_unprintable, x_notAfter = Time_unprintable,
      x_serialNumber = \<lparr>int_negative = False, int_data = []\<rparr>,
      x_digest = (\<lambda>_. None)\<rparr>) = -1"
proof -
  have u: "unknown_type GEN_DIRNAME" by (simp add: unknown_type_def)
  show ?thesis
    using u altnames_first_unknown_fails [OF u, where rest = "[]" and w = empty_world
        and c = zero_cert, THEN conjunct2]
    by simp
qed

lemma cstr_no_NUL: "NUL \<notin> set v \<Longrightarrow> cstr (v @ NUL # rest) = v"
  by (auto simp: cstr_def takeWhile_tail takeWhile_eq_all_conv)

lemma set_slot_simps:
  "i < length (alt_slots c) \<Longrightarrow> alt_slots (set_slot_name c i p) = (alt_slots c)[i := (alt_slots c ! i)\<lparr>alt_name := p\<rparr>]"
  "i < length (alt_slots c) \<Longrightarrow> alt_slots (set_slot_type c i t) = (alt_slots c)[i := (alt_slots c ! i)\<lparr>alt_name_type := t\<rparr>]"
  "subject_alt_name_count (set_slot_name c i p) = subject_alt_name_count c"
  "subject_alt_name_count (set_slot_type c i t) = subject_alt_name_count c"
  "length (alt_slots (set_slot_name c i p)) = length (alt_slots c)"
  "length (alt_slots (set_slot_type c i t)) = length (alt_slots c)"
  by (simp_all add: set_slot_name_def set_slot_type_def)

lemma ia5_bad:
  assumes "asn1_type s = V_ASN1_IA5STRING" "bad_ia5_value (asn1_data s)"
  shows "\<exists>m. tls_load_alt_ia5string w s c t = (-1, c, tls_set_error w m) \<and>
             m \<in> {''invalid string value'', ''single space as name''}"
  using assms
  by (auto simp: tls_load_alt_ia5string_def bad_ia5_value_def ASN1_STRING_type_def
      ASN1_STRING_length_def ASN1_STRING_data_def Let_def)

lemma single_space_iff: "(length v = Suc 0 \<and> (v @ [NUL]) ! 0 = CHR '' '') \<longleftrightarrow> v = '' ''"
  by (cases v) auto

lemma ia5_good_nomem:
  assumes "asn1_type s = V_ASN1_IA5STRING" "\<not> bad_ia5_value (asn1_data s)" "\<not> next_alloc_ok w"
  shows "tls_load_alt_ia5string w s c t =
    (-1, set_slot_name c (subject_alt_name_count c) None,
     tls_set_error (w\<lparr>alloc_plan := tl (alloc_plan w)\<rparr>) ''no mem'')"
  using assms
  by (simp add: tls_load_alt_ia5string_def ASN1_STRING_type_def strdup_def alloc_fail
      ASN1_STRING_length_def ASN1_STRING_data_def Let_def bad_ia5_value_def single_space_iff)

lemma ia5_good_ok:
  assumes "asn1_type s = V_ASN1_IA5STRING" "\<not> bad_ia5_value (asn1_data s)" "next_alloc_ok w"
  shows "tls_load_alt_ia5string w s c t =
    (0, (set_slot_type (set_slot_name c (subject_alt_name_count c) (Some (fresh_addr (blocks w))))
            (subject_alt_name_count c) t)\<lparr>subject_alt_name_count := subject_alt_name_count c + 1\<rparr>,
     w\<lparr>alloc_plan := tl (alloc_plan w),
       blocks := (fresh_addr (blocks w), asn1_data s @ [NUL]) # blocks w\<rparr>)"
  using assms
  by (simp add: tls_load_alt_ia5string_def ASN1_STRING_type_def strdup_def alloc_ok
      ASN1_STRING_length_def ASN1_STRING_data_def Let_def bad_ia5_value_def single_space_iff
      cstr_no_NUL)

text \<open>
  Claim C5. For an entry with the IA5String encoding, \<^verbatim>\<open>tls_load_alt_ia5string\<close>
  fails with \<open>InvalidAltName\<close> exactly when the value is empty, contains a NUL byte or
  is the single space. For every other value the text is copied verbatim: when the
  allocation succeeds, the call returns 0, the slot at the old count holds the given
  type and a pointer to the text, the count grows by one and the earlier slots are
  unchanged; when the allocation fails, the error is ``no mem''. A DNS entry that is a
  single space is rejected in every state.
\<close>

theorem ia5string_rejects_exactly_bad_values:
  assumes "asn1_type s = V_ASN1_IA5STRING"
    and "subject_alt_name_count c < length (alt_slots c)"
  shows "(case tls_load_alt_ia5string w s c t of
            (ret, c', w') \<Rightarrow>
              (invalid_alt_name ret w' \<longleftrightarrow> bad_ia5_value (asn1_data s)) \<and>
              (\<not> bad_ia5_value (asn1_data s) \<and> next_alloc_ok w \<longrightarrow>
                 ret = 0 \<and>
                 subject_alt_name_count c' = subject_alt_name_count c + 1 \<and>
                 length (alt_slots c') = length (alt_slots c) \<and>
                 alt_name_type (alt_slots c' ! subject_alt_name_count c) = t \<and>
                 string_at w' (alt_name (alt_slots c' ! subject_alt_name_count c))
                   = Some (asn1_data s) \<and>
                 take (subject_alt_name_count c) (alt_slots c')
                   = take (subject_alt_name_count c) (alt_slots c)) \<and>
              (\<not> bad_ia5_value (asn1_data s) \<and> \<not> next_alloc_ok w \<longrightarrow>
                 ret = -1 \<and> errmsg w' = Some ''no mem'' \<and>
                 subject_alt_name_count c' = subject_alt_name_count c)) \<and>
         tls_load_alt_ia5string w \<lparr>asn1_type = V_ASN1_IA5STRING, asn1_data = '' ''\<rparr> c
             TLS_CERT_NAME_DNS
           = (-1, c, tls_set_error w ''single space as name'')"
proof (intro conjI)
  show "tls_load_alt_ia5string w \<lparr>asn1_type = V_ASN1_IA5STRING, asn1_data = '' ''\<rparr> c
             TLS_CERT_NAME_DNS = (-1, c, tls_set_error w ''single space as name'')"
    by (simp add: tls_load_alt_ia5string_def ASN1_STRING_type_def ASN1_STRING_length_def
        ASN1_STRING_data_def NUL_def)
next
  show "case tls_load_alt_ia5string w s c t of
            (ret, c', w') \<Rightarrow>
              (invalid_alt_name ret w' \<longleftrightarrow> bad_ia5_value (asn1_data s)) \<and>
              (\<not> bad_ia5_value (asn1_data s) \<and> next_alloc_ok w \<longrightarrow>
                 ret = 0 \<and>
                 subject_alt_name_count c' = subject_alt_name_count c + 1 \<and>
                 length (alt_slots c') = length (alt_slots c) \<and>
                 alt_name_type (alt_slots c' ! subject_alt_name_count c) = t \<and>
                 string_at w' (alt_name (alt_slots c' ! subject_alt_name_count c))
                   = Some (asn1_data s) \<and>
                 take (subject_alt_name_count c) (alt_slots c')
                   = take (subject_alt_name_count c) (alt_slots c)) \<and>
              (\<not> bad_ia5_value (asn1_data s) \<and> \<not> next_alloc_ok w \<longrightarrow>
                 ret = -1 \<and> errmsg w' = Some ''no mem'' \<and>
                 subject_alt_name_count c' = subject_alt_name_count c)"
  proof (cases "bad_ia5_value (asn1_data s)")
    case True
    from ia5_bad [OF assms(1) True, of w c t] show ?thesis
      using True by (auto simp: invalid_alt_name_def tls_set_error_def)
  next
    case False
    show ?thesis
    proof (cases "next_alloc_ok w")
      case True
      have nn: "NUL \<notin> set (asn1_data s)" using False by (simp add: bad_ia5_value_def)
      show ?thesis
        using False True assms(2) nn
        by (simp add: ia5_good_ok [OF assms(1) False True] invalid_alt_name_def
            set_slot_simps string_at_def bytes_at_def cstr_no_NUL)
    next
      case nok: False
      show ?thesis
        using False nok
        by (simp add: ia5_good_nomem [OF assms(1) False nok] invalid_alt_name_def
            set_slot_simps tls_set_error_def)
    qed
  qed
qed


theorem ia5string_rejects_exactly_bad_values_witness:
  "asn1_type \<lparr>asn1_type = V_ASN1_IA5STRING, asn1_data = ''a.b''\<rparr> = V_ASN1_IA5STRING \<and>
   subject_alt_name_count (zero_cert\<lparr>alt_slots := [zero_slot]\<rparr>)
     < length (alt_slots (zero_cert\<lparr>alt_slots := [zero_slot]\<rparr>)) \<and>
   \<not> bad_ia5_value ''a.b'' \<and> next_alloc_ok empty_world \<and>
   fst (tls_load_alt_ia5string empty_world
          \<lparr>asn1_type = V_ASN1_IA5STRING, asn1_data = ''a.b''\<rparr>
          (zero_cert\<lparr>alt_slots := [zero_slot]\<rparr>) TLS_CERT_NAME_DNS) = 0"
proof -
  have h1: "asn1_type \<lparr>asn1_type = V_ASN1_IA5STRING, asn1_data = ''a.b''\<rparr> = V_ASN1_IA5STRING"
    by simp
  have h2: "subject_alt_name_count (zero_cert\<lparr>alt_slots := [zero_slot]\<rparr>)
              < length (alt_slots (zero_cert\<lparr>alt_slots := [zero_slot]\<rparr>))"
    by (simp add: zero_cert_def)
  have nb: "\<not> bad_ia5_value ''a.b''"
    by (simp add: bad_ia5_value_def NUL_def)
  have ok: "next_alloc_ok empty_world"
    by (simp add: next_alloc_ok_def empty_world_def)
  from ia5string_rejects_exactly_bad_values [OF h1 h2, of empty_world TLS_CERT_NAME_DNS] nb ok
  have "fst (tls_load_alt_ia5string empty_world
          \<lparr>asn1_type = V_ASN1_IA5STRING, asn1_data = ''a.b''\<rparr>
          (zero_cert\<lparr>alt_slots := [zero_slot]\<rparr>) TLS_CERT_NAME_DNS) = 0"
    by (auto split: prod.splits)
  with h1 h2 nb ok show ?thesis by blast
qed

lemma ipaddr_bad_length:
  assumes "length (asn1_data b) \<noteq> 4" "length (asn1_data b) \<noteq> 16"
  shows "tls_load_alt_ipaddr w b c = (-1, c, tls_set_error w ''invalid length for ipaddress'')"
  using assms
  by (simp add: tls_load_alt_ipaddr_def ASN1_STRING_length_def ASN1_STRING_data_def Let_def)

lemma ipaddr_good_nomem:
  assumes "length (asn1_data b) = 4 \<or> length (asn1_data b) = 16" "\<not> next_alloc_ok w"
  shows "tls_load_alt_ipaddr w b c =
    (-1,
     set_slot_name
       (set_slot_type c (subject_alt_name_count c)
          (if length (asn1_data b) = 4 then TLS_CERT_NAME_IPv4 else TLS_CERT_NAME_IPv6))
       (subject_alt_name_count c) None,
     tls_set_error (w\<lparr>alloc_plan := tl (alloc_plan w)\<rparr>) ''no mem'')"
  using assms
  by (auto simp: tls_load_alt_ipaddr_def ASN1_STRING_length_def ASN1_STRING_data_def Let_def
      alloc_fail)

lemma ipaddr_good_ok:
  assumes "length (asn1_data b) = 4 \<or> length (asn1_data b) = 16" "next_alloc_ok w"
  shows "tls_load_alt_ipaddr w b c =
    (0,
     (set_slot_name
        (set_slot_type c (subject_alt_name_count c)
           (if length (asn1_data b) = 4 then TLS_CERT_NAME_IPv4 else TLS_CERT_NAME_IPv6))
        (subject_alt_name_count c) (Some (fresh_addr (blocks w))))
       \<lparr>subject_alt_name_count := subject_alt_name_count c + 1\<rparr>,
     w\<lparr>alloc_plan := tl (alloc_plan w),
       blocks := (fresh_addr (blocks w), asn1_data b) # blocks w\<rparr>)"
  using assms
  by (auto simp: tls_load_alt_ipaddr_def ASN1_STRING_length_def ASN1_STRING_data_def Let_def
      alloc_ok)

text \<open>
  Claim C6. For an IP-address entry, \<^verbatim>\<open>tls_load_alt_ipaddr\<close> fails with
  \<open>InvalidAltName\<close> exactly when the octet string has a length other than 4 and 16, and
  it never succeeds on such a length. On 4 or 16 bytes it succeeds whenever the
  allocation does: the slot at the old count is tagged IPv4 for 4 bytes and IPv6 for
  16, its block holds exactly the bytes of the input, and the count grows by one; when
  the allocation fails the error is ``no mem''.
\<close>

theorem ipaddr_accepts_exactly_4_or_16_bytes:
  assumes "subject_alt_name_count c < length (alt_slots c)"
  shows "case tls_load_alt_ipaddr w b c of
           (ret, c', w') \<Rightarrow>
             (invalid_alt_name ret w' \<longleftrightarrow>
                length (asn1_data b) \<noteq> 4 \<and> length (asn1_data b) \<noteq> 16) \<and>
             (ret = 0 \<longrightarrow> length (asn1_data b) = 4 \<or> length (asn1_data b) = 16) \<and>
             (next_alloc_ok w \<longrightarrow>
                (ret = 0 \<longleftrightarrow> length (asn1_data b) = 4 \<or> length (asn1_data b) = 16)) \<and>
             (ret = 0 \<longrightarrow>
                subject_alt_name_count c' = subject_alt_name_count c + 1 \<and>
                length (alt_slots c') = length (alt_slots c) \<and>
                alt_name_type (alt_slots c' ! subject_alt_name_count c)
                  = (if length (asn1_data b) = 4 then TLS_CERT_NAME_IPv4
                     else TLS_CERT_NAME_IPv6) \<and>
                bytes_at w' (alt_name (alt_slots c' ! subject_alt_name_count c))
                  = Some (asn1_data b) \<and>
                take (subject_alt_name_count c) (alt_slots c')
                  = take (subject_alt_name_count c) (alt_slots c)) \<and>
             ((length (asn1_data b) = 4 \<or> length (asn1_data b) = 16) \<and> \<not> next_alloc_ok w \<longrightarrow>
                ret = -1 \<and> errmsg w' = Some ''no mem'' \<and>
                subject_alt_name_count c' = subject_alt_name_count c)"
proof (cases "length (asn1_data b) = 4 \<or> length (asn1_data b) = 16")
  case False
  then have l: "length (asn1_data b) \<noteq> 4" "length (asn1_data b) \<noteq> 16" by auto
  show ?thesis
    using l by (simp add: ipaddr_bad_length [OF l] invalid_alt_name_def tls_set_error_def)
next
  case good: True
  show ?thesis
  proof (cases "next_alloc_ok w")
    case True
    show ?thesis
      using good True assms
      by (auto simp: ipaddr_good_ok [OF good True] invalid_alt_name_def set_slot_simps
          bytes_at_def)
  next
    case False
    show ?thesis
      using good False
      by (auto simp: ipaddr_good_nomem [OF good False] invalid_alt_name_def set_slot_simps
          tls_set_error_def)
  qed
qed

theorem ipaddr_accepts_exactly_4_or_16_bytes_witness:
  "subject_alt_name_count (zero_cert\<lparr>alt_slots := [zero_slot]\<rparr>)
     < length (alt_slots (zero_cert\<lparr>alt_slots := [zero_slot]\<rparr>)) \<and>
   next_alloc_ok empty_world \<and>
   fst (tls_load_alt_ipaddr empty_world
          \<lparr>asn1_type = V_ASN1_OCTET_STRING, asn1_data = [CHR 0x7F, CHR 0x00, CHR 0x00, CHR 0x01]\<rparr>
          (zero_cert\<lparr>alt_slots := [zero_slot]\<rparr>)) = 0 \<and>
   fst (tls_load_alt_ipaddr empty_world
          \<lparr>asn1_type = V_ASN1_OCTET_STRING, asn1_data = [CHR 0x7F, CHR 0x00, CHR 0x01]\<rparr>
          (zero_cert\<lparr>alt_slots := [zero_slot]\<rparr>)) \<noteq> 0"
proof -
  have h: "subject_alt_name_count (zero_cert\<lparr>alt_slots := [zero_slot]\<rparr>)
             < length (alt_slots (zero_cert\<lparr>alt_slots := [zero_slot]\<rparr>))"
    by (simp add: zero_cert_def)
  have ok: "next_alloc_ok empty_world"
    by (simp add: next_alloc_ok_def empty_world_def)
  from ipaddr_accepts_exactly_4_or_16_bytes [OF h, where w = empty_world
      and b = "\<lparr>asn1_type = V_ASN1_OCTET_STRING, asn1_data = [CHR 0x7F, CHR 0x00, CHR 0x00, CHR 0x01]\<rparr>"] ok
  have a: "fst (tls_load_alt_ipaddr empty_world
          \<lparr>asn1_type = V_ASN1_OCTET_STRING, asn1_data = [CHR 0x7F, CHR 0x00, CHR 0x00, CHR 0x01]\<rparr>
          (zero_cert\<lparr>alt_slots := [zero_slot]\<rparr>)) = 0"
    by (auto split: prod.splits)
  from ipaddr_accepts_exactly_4_or_16_bytes [OF h, where w = empty_world
      and b = "\<lparr>asn1_type = V_ASN1_OCTET_STRING, asn1_data = [CHR 0x7F, CHR 0x00, CHR 0x01]\<rparr>"]
  have b: "fst (tls_load_alt_ipaddr empty_world
          \<lparr>asn1_type = V_ASN1_OCTET_STRING, asn1_data = [CHR 0x7F, CHR 0x00, CHR 0x01]\<rparr>
          (zero_cert\<lparr>alt_slots := [zero_slot]\<rparr>)) \<noteq> 0"
    by (auto split: prod.splits)
  from h ok a b show ?thesis by blast
qed

subsection \<open>Allocation without failure\<close>

lemma filter_fresh: "filter (\<lambda>b. fst b \<noteq> fresh_addr bs) bs = bs"
  using fresh_addr_new [of bs] by (force simp: filter_id_conv)

lemma no_alloc_failure_next: "no_alloc_failure w \<Longrightarrow> next_alloc_ok w"
  by (auto simp: no_alloc_failure_def next_alloc_ok_def split: list.splits)

lemma no_alloc_failure_tl:
  "no_alloc_failure w \<Longrightarrow> no_alloc_failure (w\<lparr>alloc_plan := tl (alloc_plan w)\<rparr>)"
  by (cases "alloc_plan w") (auto simp: no_alloc_failure_def)

lemma no_alloc_failure_upd [simp]:
  "no_alloc_failure (w\<lparr>blocks := b\<rparr>) = no_alloc_failure w"
  "no_alloc_failure (w\<lparr>errmsg := e\<rparr>) = no_alloc_failure w"
  by (simp_all add: no_alloc_failure_def)

lemma no_alloc_failure_free [simp]: "no_alloc_failure (free w p) = no_alloc_failure w"
  by (simp add: free_def split: option.splits)

lemma alloc_free_fresh:
  "free (w\<lparr>alloc_plan := pl, blocks := (fresh_addr (blocks w), s) # blocks w\<rparr>)
     (Some (fresh_addr (blocks w))) = w\<lparr>alloc_plan := pl\<rparr>"
  by (simp add: free_def filter_fresh)

subsection \<open>Decimal output\<close>

lemma digit_char_digit: "d < 10 \<Longrightarrow> digit_char d \<in> set ''0123456789''"
  unfolding digit_char_def by (rule nth_mem) simp

lemma all_digits_Cons: "all_digits (c # s) \<longleftrightarrow> c \<in> set ''0123456789'' \<and> all_digits s"
  unfolding all_digits_def by simp

lemma all_digits_Nil: "all_digits []"
  unfolding all_digits_def by simp

lemma all_digits_append: "all_digits (a @ b) \<longleftrightarrow> all_digits a \<and> all_digits b"
  unfolding all_digits_def by (rule list_all_append)

lemma all_digits_dec: "all_digits (dec n)"
proof (induction n rule: dec.induct)
  case (1 n)
  show ?case
  proof (cases "n < 10")
    case True
    then have "dec n = [digit_char n]" by (subst dec.simps) simp
    then show ?thesis
      using digit_char_digit [OF True] by (simp only: all_digits_Cons all_digits_Nil)
  next
    case False
    with 1 have a: "all_digits (dec (n div 10))" by simp
    have "n mod 10 < 10" by simp
    then have b: "digit_char (n mod 10) \<in> set ''0123456789''"
      by (rule digit_char_digit)
    from False have "dec n = dec (n div 10) @ [digit_char (n mod 10)]"
      by (subst dec.simps) simp
    then show ?thesis
      using a b by (simp only: all_digits_append all_digits_Cons all_digits_Nil)
  qed
qed

lemma digit_char_value: "d < 10 \<Longrightarrow> of_char (digit_char d) = 48 + d"
proof -
  assume "d < 10"
  then have "d \<in> {0, 1, 2, 3, 4, 5, 6, 7, 8, 9}" by simp arith
  then show ?thesis
    by (elim insertE emptyE; hypsubst; simp add: digit_char_def)
qed

text \<open>Read as a decimal number, \<open>dec n\<close> is \<open>n\<close>.\<close>

lemma dec_value: "foldl (\<lambda>a c. 10 * a + (of_char c - 48)) 0 (dec n) = n"
proof (induction n rule: dec.induct)
  case (1 n)
  show ?case
  proof (cases "n < 10")
    case True
    then have "dec n = [digit_char n]" by (subst dec.simps) simp
    with digit_char_value [OF True] show ?thesis by simp
  next
    case False
    then have d: "dec n = dec (n div 10) @ [digit_char (n mod 10)]" by (subst dec.simps) simp
    have "n mod 10 < 10" by simp
    from digit_char_value [OF this] 1 [OF False] show ?thesis by (simp add: d)
  qed
qed

lemma all_digits_replicate: "all_digits (replicate k (CHR ''0''))"
  unfolding all_digits_def by (simp add: list_all_iff)

lemma all_digits_fmt_02d: "all_digits (fmt_02d n)"
  unfolding fmt_02d_def
  by (simp only: all_digits_append all_digits_replicate all_digits_dec simp_thms)

lemma all_digits_mem: "all_digits s \<Longrightarrow> c \<in> set s \<Longrightarrow> c \<in> set ''0123456789''"
proof (induction s)
  case Nil
  then show ?case by simp
next
  case (Cons a s)
  from Cons.prems(1) have a: "a \<in> set ''0123456789''" and s: "all_digits s"
    by (simp_all only: all_digits_Cons)
  from Cons.prems(2) have "c = a \<or> c \<in> set s" by simp
  then show ?case
  proof
    assume "c = a"
    with a show ?thesis by simp
  next
    assume "c \<in> set s"
    with s show ?thesis by (rule Cons.IH)
  qed
qed

lemma all_digits_no_NUL: "all_digits s \<Longrightarrow> NUL \<notin> set s"
proof
  assume "all_digits s" and "NUL \<in> set s"
  then have "NUL \<in> set ''0123456789''" by (rule all_digits_mem)
  then show False by (simp add: NUL_def)
qed

subsection \<open>Times\<close>

lemma strsep_token:
  "CHR '' '' \<notin> set t \<Longrightarrow>
   strsep (Some (t @ CHR '' '' # rest)) (CHR '' '') = (Some t, Some rest)"
proof -
  assume t: "CHR '' '' \<notin> set t"
  then have a: "\<forall>x\<in>set t. x \<noteq> CHR '' ''" by auto
  from a have tw: "takeWhile (\<lambda>c. c \<noteq> CHR '' '') t = t" by simp
  from a have dw: "dropWhile (\<lambda>c. c \<noteq> CHR '' '') t = []" by simp
  show ?thesis
    by (simp add: strsep_def takeWhile_tail dropWhile_append3 tw dw)
qed

lemma strsep_last:
  "CHR '' '' \<notin> set t \<Longrightarrow> strsep (Some t) (CHR '' '') = (Some t, None)"
  by (simp add: strsep_def)

lemma strsep_None: "strsep None d = (None, None)"
  by (simp add: strsep_def)

lemma cstr_padded: "NUL \<notin> set s \<Longrightarrow> cstr (s @ replicate n NUL) = s"
proof -
  assume "NUL \<notin> set s"
  then have "\<forall>x\<in>set s. x \<noteq> NUL" by auto
  then have "takeWhile (\<lambda>c. c \<noteq> NUL) (s @ replicate n NUL)
             = s @ takeWhile (\<lambda>c. c \<noteq> NUL) (replicate n NUL)"
    by (intro takeWhile_append2) simp
  then show ?thesis by (simp add: cstr_def)
qed

lemma read_buf_short:
  "length text \<le> 127 \<Longrightarrow> read_buf text = text @ replicate (128 - length text) NUL"
  by (simp add: read_buf_def)

lemma nth_after3:
  "length m = 3 \<Longrightarrow> (m @ x # xs) ! 3 = x"
  "length m = 3 \<Longrightarrow> (m @ x # y # ys) ! 4 = y"
  "length m = 3 \<Longrightarrow> (m @ x # y # ys)[4 := z] = m @ x # z # ys"
  by (simp_all add: nth_append list_update_append)

lemma months_nth:
  assumes "i < 12"
  shows "length (months ! i) = 3" and "token (months ! i)"
    and "month_search months (months ! i) 0 = i"
proof -
  from assms have "i \<in> {0, 1, 2, 3, 4, 5, 6, 7, 8, 9, 10, 11}" by simp arith
  then have "length (months ! i) = 3 \<and> token (months ! i) \<and>
             month_search months (months ! i) 0 = i"
    by (elim insertE emptyE; hypsubst; simp add: months_def token_def NUL_def memcmp4_eq_def)
  then show "length (months ! i) = 3" and "token (months ! i)"
    and "month_search months (months ! i) 0 = i" by simp_all
qed

lemma read_buf_text:
  assumes "length text \<le> 127" "NUL \<notin> set text"
  shows "cstr (read_buf text) = text"
  using assms by (simp add: read_buf_short cstr_padded)

lemma time_fields_4:
  assumes "cstr buf = mon @ CHR '' '' # day @ CHR '' '' # time @ CHR '' '' # year"
    and "token mon" "token day" "token time" "token year"
  shows "time_fields buf = (Some mon, Some day, Some time, Some year, None, None)"
  using assms
  by (simp add: time_fields_def token_def strsep_token strsep_last strsep_None)

lemma time_fields_5:
  assumes "cstr buf = mon @ CHR '' '' # day @ CHR '' '' # time @ CHR '' '' # year @ CHR '' '' # tz"
    and "token mon" "token day" "token time" "token year" "token tz"
  shows "time_fields buf = (Some mon, Some day, Some time, Some year, Some tz, None)"
  using assms
  by (simp add: time_fields_def token_def strsep_token strsep_last strsep_None)

lemma pad_day_none:
  assumes "length m = 3" "c \<noteq> CHR '' ''"
  shows "pad_day (m @ x # c # rest) = m @ x # c # rest"
  using assms by (simp add: pad_day_def nth_after3)

lemma pad_day_padded:
  assumes "length m = 3"
  shows "pad_day (m @ CHR '' '' # CHR '' '' # rest) = m @ CHR '' '' # CHR ''0'' # rest"
  using assms by (simp add: pad_day_def nth_after3)

text \<open>What \<^verbatim>\<open>tls_parse_time\<close> does once the fields of the buffer are known.\<close>

lemma tls_parse_time_fields:
  assumes na: "no_alloc_failure w"
    and f: "time_fields (pad_day (read_buf text))
              = (Some (months ! i), Some day, Some time, Some year, tz, None)"
    and i: "i < 12"
    and tz: "tz = None \<or> tz = Some ''GMT''"
    and nn: "NUL \<notin> set day" "NUL \<notin> set time" "NUL \<notin> set year"
  shows "parsed_time w (Time_prints text)
         = (0, Some (year @ ''-'' @ fmt_02d (i + 1) @ ''-'' @ day @ ''T'' @ time @ ''Z''))"
proof -
  let ?w2 = "w\<lparr>alloc_plan := tl (alloc_plan w)\<rparr>"
  let ?out = "year @ ''-'' @ fmt_02d (i + 1) @ ''-'' @ day @ ''T'' @ time @ ''Z''"
  have ok2: "next_alloc_ok ?w2"
    by (rule no_alloc_failure_next [OF no_alloc_failure_tl [OF na]])
  have r: "tls_parse_time w (Time_prints text)
           = (0, Some (fresh_addr (blocks w)),
              ?w2\<lparr>alloc_plan := tl (alloc_plan ?w2),
                    blocks := (fresh_addr (blocks w), ?out @ [NUL]) # blocks w\<rparr>)"
    using tz i
    by (auto simp: tls_parse_time_def alloc_ok [OF no_alloc_failure_next [OF na]]
        ASN1_TIME_print_def alloc_free_fresh f months_nth(3) alloc_ok [OF ok2])
  have d: "NUL \<notin> set (fmt_02d (i + 1))"
    by (rule all_digits_no_NUL [OF all_digits_fmt_02d])
  have "cstr (?out @ [NUL]) = ?out"
    using nn d by (intro cstr_no_NUL) (simp add: NUL_def)
  then show ?thesis
    by (simp add: parsed_time_def r string_at_def bytes_at_def)
qed

lemma tls_parse_time_bad_tz:
  assumes na: "no_alloc_failure w"
    and f: "time_fields (pad_day (read_buf text))
              = (Some mon, Some day, Some time, Some year, Some tz, None)"
    and tz: "tz \<noteq> ''GMT''"
  shows "tls_parse_time w (Time_prints text)
         = (-1, None, tls_set_error (w\<lparr>alloc_plan := tl (alloc_plan w)\<rparr>) ''invalid time format'')"
  using tz
  by (simp add: tls_parse_time_def alloc_ok [OF no_alloc_failure_next [OF na]]
      ASN1_TIME_print_def alloc_free_fresh f)

lemma cstr_pad_plain:
  assumes "length m = 3" "c \<noteq> CHR '' ''"
    and "length (m @ CHR '' '' # c # rest) \<le> 127" "NUL \<notin> set (m @ CHR '' '' # c # rest)"
  shows "cstr (pad_day (read_buf (m @ CHR '' '' # c # rest))) = m @ CHR '' '' # c # rest"
proof -
  let ?k = "128 - length (m @ CHR '' '' # c # rest)"
  have "pad_day (read_buf (m @ CHR '' '' # c # rest))
        = m @ CHR '' '' # c # (rest @ replicate ?k NUL)"
    unfolding read_buf_short [OF assms(3)]
    using pad_day_none [OF assms(1,2), of "CHR '' ''" "rest @ replicate ?k NUL"] by simp
  also have "\<dots> = (m @ CHR '' '' # c # rest) @ replicate ?k NUL" by simp
  finally show ?thesis using cstr_padded [OF assms(4)] by simp
qed

lemma cstr_pad_padded:
  assumes "length m = 3"
    and "length (m @ CHR '' '' # CHR '' '' # rest) \<le> 127"
    and "NUL \<notin> set (m @ CHR '' '' # CHR '' '' # rest)"
  shows "cstr (pad_day (read_buf (m @ CHR '' '' # CHR '' '' # rest)))
         = m @ CHR '' '' # CHR ''0'' # rest"
proof -
  let ?k = "128 - length (m @ CHR '' '' # CHR '' '' # rest)"
  have n: "NUL \<notin> set (m @ CHR '' '' # CHR ''0'' # rest)"
    using assms(3) by (simp add: NUL_def)
  have "pad_day (read_buf (m @ CHR '' '' # CHR '' '' # rest))
        = m @ CHR '' '' # CHR ''0'' # (rest @ replicate ?k NUL)"
    unfolding read_buf_short [OF assms(2)]
    using pad_day_padded [OF assms(1), of "rest @ replicate ?k NUL"] by simp
  also have "\<dots> = (m @ CHR '' '' # CHR ''0'' # rest) @ replicate ?k NUL" by simp
  finally show ?thesis using cstr_padded [OF n] by simp
qed

text \<open>
  The buffer after the padding step for the two shapes of the day: a day that is a
  token of its own, and a day of one character after a space.
\<close>

lemma cstr_plain_day:
  assumes i: "i < 12" and day: "token day" "day \<noteq> []" and r: "NUL \<notin> set rest"
    and len: "length day + length rest \<le> 100"
  shows "cstr (pad_day (read_buf (months ! i @ CHR '' '' # day @ rest)))
         = months ! i @ CHR '' '' # day @ rest"
proof -
  obtain c cs where dc: "day = c # cs" using day(2) by (cases day) auto
  have l3: "length (months ! i) = 3" and mt: "token (months ! i)"
    using months_nth [OF i] by auto
  have cns: "c \<noteq> CHR '' ''" using day(1) dc by (auto simp: token_def)
  have ll: "length (months ! i @ CHR '' '' # c # (cs @ rest)) \<le> 127"
    using len l3 by (simp add: dc)
  have nn: "NUL \<notin> set (months ! i @ CHR '' '' # c # (cs @ rest))"
    using mt day(1) r by (auto simp: token_def NUL_def dc)
  show ?thesis
    using cstr_pad_plain [OF l3 cns ll nn] by (simp add: dc)
qed

lemma cstr_padded_day:
  assumes i: "i < 12" and d: "d \<noteq> NUL" and r: "NUL \<notin> set rest"
    and len: "length rest \<le> 100"
  shows "cstr (pad_day (read_buf (months ! i @ CHR '' '' # CHR '' '' # d # rest)))
         = months ! i @ CHR '' '' # [CHR ''0'', d] @ rest"
proof -
  have l3: "length (months ! i) = 3" and mt: "token (months ! i)"
    using months_nth [OF i] by auto
  have ll: "length (months ! i @ CHR '' '' # CHR '' '' # (d # rest)) \<le> 127"
    using len l3 by simp
  have nn: "NUL \<notin> set (months ! i @ CHR '' '' # CHR '' '' # (d # rest))"
    using mt d r by (auto simp: token_def NUL_def)
  show ?thesis
    using cstr_pad_padded [OF l3 ll nn] by simp
qed

lemma token_parts: "token s \<Longrightarrow> NUL \<notin> set s" "token s \<Longrightarrow> CHR '' '' \<notin> set s"
  by (simp_all add: token_def)

lemma token_zero_day: "d \<noteq> CHR '' '' \<Longrightarrow> d \<noteq> NUL \<Longrightarrow> token [CHR ''0'', d]"
  by (auto simp: token_def NUL_def)

lemma token_GMT: "token ''GMT''"
  by (simp add: token_def NUL_def)

text \<open>
  Claim C8. A printed time ``Mon\ \ D HH:MM:SS YYYY GMT'' with a space-padded day of one
  character decodes to ``YYYY-MM-0DTHH:MM:SSZ'', where MM is the number of the month
  in two digits: the padding space becomes a zero. The fields may be any tokens (the
  code does not look inside them). In particular ``Jan\ \ 1 00:00:00 2024 GMT'' decodes
  to ``2024-01-01T00:00:00Z''. Both hold in every state in which no allocation fails.
\<close>

theorem padded_day_gets_zero:
  assumes na: "no_alloc_failure w" and i: "i < 12"
    and d: "d \<noteq> CHR '' ''" "d \<noteq> NUL"
    and tm: "token time" and yr: "token year"
    and len: "length time + length year \<le> 90"
  shows "parsed_time w
           (Time_prints (months ! i @ ''  '' @ [d] @ '' '' @ time @ '' '' @ year @ '' GMT''))
         = (0, Some (year @ ''-'' @ fmt_02d (i + 1) @ ''-0'' @ [d] @ ''T'' @ time @ ''Z''))
       \<and> parsed_time w (Time_prints ''Jan  1 00:00:00 2024 GMT'')
         = (0, Some ''2024-01-01T00:00:00Z'')"
proof -
  have gen: "parsed_time w
           (Time_prints (months ! j @ ''  '' @ [e] @ '' '' @ t @ '' '' @ y @ '' GMT''))
         = (0, Some (y @ ''-'' @ fmt_02d (j + 1) @ ''-0'' @ [e] @ ''T'' @ t @ ''Z''))"
    if j: "j < 12" and e: "e \<noteq> CHR '' ''" "e \<noteq> NUL" and t: "token t" and y: "token y"
      and l: "length t + length y \<le> 90" for j e t y
  proof -
    let ?rest = "CHR '' '' # t @ CHR '' '' # y @ '' GMT''"
    have r: "NUL \<notin> set ?rest" using t y by (simp add: token_def NUL_def)
    have c: "cstr (pad_day (read_buf (months ! j @ CHR '' '' # CHR '' '' # e # ?rest)))
             = months ! j @ CHR '' '' # [CHR ''0'', e] @ CHR '' '' # t @ CHR '' '' # y
                 @ CHR '' '' # ''GMT''"
      using cstr_padded_day [OF j e(2) r] l by simp
    have f: "time_fields (pad_day (read_buf (months ! j @ CHR '' '' # CHR '' '' # e # ?rest)))
             = (Some (months ! j), Some [CHR ''0'', e], Some t, Some y, Some ''GMT'', None)"
      by (rule time_fields_5 [OF c months_nth(2) [OF j] token_zero_day [OF e] t y token_GMT])
    have n: "NUL \<notin> set [CHR ''0'', e]" "NUL \<notin> set t" "NUL \<notin> set y"
      using e t y by (simp_all add: token_def NUL_def)
    have "parsed_time w (Time_prints (months ! j @ CHR '' '' # CHR '' '' # e # ?rest))
          = (0, Some (y @ ''-'' @ fmt_02d (j + 1) @ ''-'' @ [CHR ''0'', e] @ ''T'' @ t @ ''Z''))"
      by (rule tls_parse_time_fields [OF na f j _ n]) simp
    then show ?thesis by simp
  qed
  have jan: "months ! 0 = ''Jan''" by (simp add: months_def)
  have one: "fmt_02d (0 + 1) = ''01''"
    by (simp add: fmt_02d_def dec.simps digit_char_def)
  have "parsed_time w (Time_prints (months ! 0 @ ''  '' @ [CHR ''1''] @ '' '' @ ''00:00:00''
            @ '' '' @ ''2024'' @ '' GMT''))
        = (0, Some (''2024'' @ ''-'' @ fmt_02d (0 + 1) @ ''-0'' @ [CHR ''1''] @ ''T''
            @ ''00:00:00'' @ ''Z''))"
    by (rule gen) (simp_all add: token_def NUL_def)
  then have "parsed_time w (Time_prints ''Jan  1 00:00:00 2024 GMT'')
        = (0, Some ''2024-01-01T00:00:00Z'')"
    unfolding jan one by simp
  with gen [OF i d tm yr len] show ?thesis by simp
qed

theorem padded_day_gets_zero_witness:
  "no_alloc_failure empty_world \<and> (7::nat) < 12 \<and> CHR ''5'' \<noteq> CHR '' '' \<and> CHR ''5'' \<noteq> NUL \<and>
   token ''20:51:52'' \<and> token ''2015'' \<and> length ''20:51:52'' + length ''2015'' \<le> 90 \<and>
   parsed_time empty_world (Time_prints ''Aug  5 20:51:52 2015 GMT'')
     = (0, Some ''2015-08-05T20:51:52Z'')"
proof -
  have h: "no_alloc_failure empty_world" "(7::nat) < 12" "CHR ''5'' \<noteq> CHR '' ''"
    "CHR ''5'' \<noteq> NUL" "token ''20:51:52''" "token ''2015''"
    "length ''20:51:52'' + length ''2015'' \<le> 90"
    by (simp_all add: no_alloc_failure_def empty_world_def token_def NUL_def)
  have m: "months ! 7 = ''Aug''" by (simp add: months_def)
  have e: "fmt_02d (7 + 1) = ''08''"
    by (simp add: fmt_02d_def dec.simps digit_char_def)
  from padded_day_gets_zero [OF h]
  have "parsed_time empty_world
           (Time_prints (months ! 7 @ ''  '' @ [CHR ''5''] @ '' '' @ ''20:51:52'' @ '' ''
              @ ''2015'' @ '' GMT''))
         = (0, Some (''2015'' @ ''-'' @ fmt_02d (7 + 1) @ ''-0'' @ [CHR ''5''] @ ''T''
              @ ''20:51:52'' @ ''Z''))"
    by (rule conjunct1)
  then have "parsed_time empty_world (Time_prints ''Aug  5 20:51:52 2015 GMT'')
     = (0, Some ''2015-08-05T20:51:52Z'')"
    unfolding m e by simp
  with h show ?thesis by blast
qed

text \<open>
  Claim C10. A printed time of exactly four tokens ``Mon DD HH:MM:SS YYYY'', without a
  timezone, is accepted and decodes to ``YYYY-MM-DDTHH:MM:SSZ'', also with a
  space-padded day of one character. With a fifth token the value is accepted exactly
  when that token is ``GMT'' and gives the same string; any other fifth token is
  rejected with ``invalid time format''. All hold in every state in which no
  allocation fails.
\<close>

theorem missing_timezone_is_accepted:
  assumes na: "no_alloc_failure w" and i: "i < 12"
    and day: "token day" "day \<noteq> []"
    and d: "d \<noteq> CHR '' ''" "d \<noteq> NUL"
    and tm: "token time" and yr: "token year" and tz: "token tz"
    and len: "length day + length time + length year + length tz \<le> 90"
  shows "parsed_time w (Time_prints (months ! i @ '' '' @ day @ '' '' @ time @ '' '' @ year))
           = (0, Some (year @ ''-'' @ fmt_02d (i + 1) @ ''-'' @ day @ ''T'' @ time @ ''Z''))
       \<and> parsed_time w (Time_prints (months ! i @ ''  '' @ [d] @ '' '' @ time @ '' '' @ year))
           = (0, Some (year @ ''-'' @ fmt_02d (i + 1) @ ''-0'' @ [d] @ ''T'' @ time @ ''Z''))
       \<and> (tz = ''GMT'' \<longrightarrow>
            parsed_time w
              (Time_prints (months ! i @ '' '' @ day @ '' '' @ time @ '' '' @ year @ '' '' @ tz))
            = (0, Some (year @ ''-'' @ fmt_02d (i + 1) @ ''-'' @ day @ ''T'' @ time @ ''Z'')))
       \<and> (tz \<noteq> ''GMT'' \<longrightarrow>
            tls_parse_time w
              (Time_prints (months ! i @ '' '' @ day @ '' '' @ time @ '' '' @ year @ '' '' @ tz))
            = (-1, None,
               tls_set_error (w\<lparr>alloc_plan := tl (alloc_plan w)\<rparr>) ''invalid time format''))"
proof (intro conjI impI)
  have n: "NUL \<notin> set day" "NUL \<notin> set time" "NUL \<notin> set year"
    using day(1) tm yr by (simp_all add: token_def)
  have mt: "token (months ! i)" by (rule months_nth(2) [OF i])
  show "parsed_time w (Time_prints (months ! i @ '' '' @ day @ '' '' @ time @ '' '' @ year))
           = (0, Some (year @ ''-'' @ fmt_02d (i + 1) @ ''-'' @ day @ ''T'' @ time @ ''Z''))"
  proof -
    let ?rest = "CHR '' '' # time @ CHR '' '' # year"
    have r: "NUL \<notin> set ?rest" using tm yr by (simp add: token_def NUL_def)
    have c: "cstr (pad_day (read_buf (months ! i @ CHR '' '' # day @ ?rest)))
             = months ! i @ CHR '' '' # day @ CHR '' '' # time @ CHR '' '' # year"
      using cstr_plain_day [OF i day r] len by simp
    have f: "time_fields (pad_day (read_buf (months ! i @ CHR '' '' # day @ ?rest)))
             = (Some (months ! i), Some day, Some time, Some year, None, None)"
      by (rule time_fields_4 [OF c mt day(1) tm yr])
    have "parsed_time w (Time_prints (months ! i @ CHR '' '' # day @ ?rest))
          = (0, Some (year @ ''-'' @ fmt_02d (i + 1) @ ''-'' @ day @ ''T'' @ time @ ''Z''))"
      by (rule tls_parse_time_fields [OF na f i _ n]) simp
    then show ?thesis by simp
  qed
  show "parsed_time w (Time_prints (months ! i @ ''  '' @ [d] @ '' '' @ time @ '' '' @ year))
           = (0, Some (year @ ''-'' @ fmt_02d (i + 1) @ ''-0'' @ [d] @ ''T'' @ time @ ''Z''))"
  proof -
    let ?rest = "CHR '' '' # time @ CHR '' '' # year"
    have r: "NUL \<notin> set ?rest" using tm yr by (simp add: token_def NUL_def)
    have c: "cstr (pad_day (read_buf (months ! i @ CHR '' '' # CHR '' '' # d # ?rest)))
             = months ! i @ CHR '' '' # [CHR ''0'', d] @ CHR '' '' # time @ CHR '' '' # year"
      using cstr_padded_day [OF i d(2) r] len by simp
    have f: "time_fields (pad_day (read_buf (months ! i @ CHR '' '' # CHR '' '' # d # ?rest)))
             = (Some (months ! i), Some [CHR ''0'', d], Some time, Some year, None, None)"
      by (rule time_fields_4 [OF c mt token_zero_day [OF d] tm yr])
    have n0: "NUL \<notin> set [CHR ''0'', d]" using d by (simp add: NUL_def)
    have "parsed_time w (Time_prints (months ! i @ CHR '' '' # CHR '' '' # d # ?rest))
          = (0, Some (year @ ''-'' @ fmt_02d (i + 1) @ ''-'' @ [CHR ''0'', d] @ ''T'' @ time
               @ ''Z''))"
      by (rule tls_parse_time_fields [OF na f i _ n0 n(2,3)]) simp
    then show ?thesis by simp
  qed
  let ?rest = "CHR '' '' # time @ CHR '' '' # year @ CHR '' '' # tz"
  have r: "NUL \<notin> set ?rest" using tm yr tz by (simp add: token_def NUL_def)
  have c: "cstr (pad_day (read_buf (months ! i @ CHR '' '' # day @ ?rest)))
           = months ! i @ CHR '' '' # day @ CHR '' '' # time @ CHR '' '' # year @ CHR '' '' # tz"
    using cstr_plain_day [OF i day r] len by simp
  have f: "time_fields (pad_day (read_buf (months ! i @ CHR '' '' # day @ ?rest)))
           = (Some (months ! i), Some day, Some time, Some year, Some tz, None)"
    by (rule time_fields_5 [OF c mt day(1) tm yr tz])
  show "parsed_time w
          (Time_prints (months ! i @ '' '' @ day @ '' '' @ time @ '' '' @ year @ '' '' @ tz))
        = (0, Some (year @ ''-'' @ fmt_02d (i + 1) @ ''-'' @ day @ ''T'' @ time @ ''Z''))"
    if g: "tz = ''GMT''"
  proof -
    have "parsed_time w (Time_prints (months ! i @ CHR '' '' # day @ ?rest))
          = (0, Some (year @ ''-'' @ fmt_02d (i + 1) @ ''-'' @ day @ ''T'' @ time @ ''Z''))"
      by (rule tls_parse_time_fields [OF na f i _ n]) (simp add: g)
    then show ?thesis by simp
  qed
  show "tls_parse_time w
          (Time_prints (months ! i @ '' '' @ day @ '' '' @ time @ '' '' @ year @ '' '' @ tz))
        = (-1, None,
           tls_set_error (w\<lparr>alloc_plan := tl (alloc_plan w)\<rparr>) ''invalid time format'')"
    if g: "tz \<noteq> ''GMT''"
    using tls_parse_time_bad_tz [OF na f g] by simp
qed

theorem missing_timezone_is_accepted_witness:
  "no_alloc_failure empty_world \<and> (7::nat) < 12 \<and> token ''18'' \<and> ''18'' \<noteq> [] \<and>
   CHR ''5'' \<noteq> CHR '' '' \<and> CHR ''5'' \<noteq> NUL \<and>
   token ''20:51:52'' \<and> token ''2015'' \<and> token ''UTC'' \<and>
   length ''18'' + length ''20:51:52'' + length ''2015'' + length ''UTC'' \<le> 90 \<and>
   parsed_time empty_world (Time_prints ''Aug 18 20:51:52 2015'')
     = (0, Some ''2015-08-18T20:51:52Z'') \<and>
   fst (tls_parse_time empty_world (Time_prints ''Aug 18 20:51:52 2015 UTC'')) = -1"
proof -
  have h: "no_alloc_failure empty_world" "(7::nat) < 12" "token ''18''" "''18'' \<noteq> []"
    "CHR ''5'' \<noteq> CHR '' ''" "CHR ''5'' \<noteq> NUL" "token ''20:51:52''" "token ''2015''"
    "token ''UTC''"
    "length ''18'' + length ''20:51:52'' + length ''2015'' + length ''UTC'' \<le> 90"
    by (simp_all add: no_alloc_failure_def empty_world_def token_def NUL_def)
  have m: "months ! 7 = ''Aug''" by (simp add: months_def)
  have e: "fmt_02d (7 + 1) = ''08''"
    by (simp add: fmt_02d_def dec.simps digit_char_def)
  note t = missing_timezone_is_accepted [OF h]
  from t have "parsed_time empty_world
      (Time_prints (months ! 7 @ '' '' @ ''18'' @ '' '' @ ''20:51:52'' @ '' '' @ ''2015''))
      = (0, Some (''2015'' @ ''-'' @ fmt_02d (7 + 1) @ ''-'' @ ''18'' @ ''T'' @ ''20:51:52''
           @ ''Z''))"
    by (rule conjunct1)
  then have a: "parsed_time empty_world (Time_prints ''Aug 18 20:51:52 2015'')
     = (0, Some ''2015-08-18T20:51:52Z'')"
    unfolding m e by simp
  from t have "''UTC'' \<noteq> ''GMT'' \<longrightarrow>
      tls_parse_time empty_world
        (Time_prints (months ! 7 @ '' '' @ ''18'' @ '' '' @ ''20:51:52'' @ '' '' @ ''2015''
           @ '' '' @ ''UTC''))
      = (-1, None,
         tls_set_error (empty_world\<lparr>alloc_plan := tl (alloc_plan empty_world)\<rparr>)
           ''invalid time format'')"
    by blast
  then have b: "fst (tls_parse_time empty_world (Time_prints ''Aug 18 20:51:52 2015 UTC'')) = -1"
    unfolding m by simp
  from h a b show ?thesis by blast
qed

subsection \<open>The serial number\<close>

lemma length_dec: "n < 10 ^ k \<Longrightarrow> 0 < k \<Longrightarrow> length (dec n) \<le> k"
proof (induction n arbitrary: k rule: dec.induct)
  case (1 n)
  show ?case
  proof (cases "n < 10")
    case True
    then have "dec n = [digit_char n]" by (subst dec.simps) simp
    with 1(3) show ?thesis by simp
  next
    case False
    then have d: "dec n = dec (n div 10) @ [digit_char (n mod 10)]" by (subst dec.simps) simp
    obtain j where k: "k = Suc j" using 1(3) by (cases k) auto
    have "j \<noteq> 0" using 1(2) False k by (cases j) auto
    then have j: "0 < j" by simp
    have "n div 10 < 10 ^ j" using 1(2) k by (simp add: less_mult_imp_div_less)
    from 1(1) [OF False this j] show ?thesis by (simp add: d k)
  qed
qed

lemma cstr_cstr: "cstr (cstr b @ NUL # rest) = cstr b"
proof -
  have "NUL \<notin> set (cstr b)"
    unfolding cstr_def by (auto dest: set_takeWhileD)
  then show ?thesis by (rule cstr_no_NUL)
qed

lemma strdup_result:
  assumes "strdup w s = (Some d, w')"
  shows "string_at w' (Some d) = Some (cstr s)"
  using bytes_at_alloc_new [OF assms [unfolded strdup_def]]
  by (simp add: string_at_def cstr_cstr)

lemma bytes_at_errmsg [simp]: "bytes_at (tls_set_error w m) p = bytes_at w p"
  by (simp add: bytes_at_def tls_set_error_def split: option.splits)

lemma string_at_free:
  "a \<noteq> d \<Longrightarrow> string_at (free w (Some a)) (Some d) = string_at w (Some d)"
  by (simp add: string_at_def bytes_at_free)

lemma bn_dec_no_NUL: "NUL \<notin> set (bn_dec v)"
  using all_digits_no_NUL [OF all_digits_dec]
  by (simp add: bn_dec_def NUL_def)

text \<open>The path through \<^verbatim>\<open>snprintf\<close>.\<close>

lemma parse_bigint_small:
  assumes s: "0 \<le> ASN1_INTEGER_get long_max a"
    and r: "tls_parse_bigint long_max w a = (0, p, w')"
  shows "string_at w' p = Some (cstr (snprintf_lu (ASN1_INTEGER_get long_max a)))"
proof -
  obtain q v where sd: "strdup w (snprintf_lu (ASN1_INTEGER_get long_max a)) = (q, v)"
    by (cases "strdup w (snprintf_lu (ASN1_INTEGER_get long_max a))")
  from r s sd obtain d where "q = Some d" "p = Some d" "w' = v"
    by (cases q) (auto simp: tls_parse_bigint_def Let_def)
  with strdup_result [of w _ d v] sd show ?thesis by simp
qed

text \<open>The path through the \<^verbatim>\<open>BIGNUM\<close>.\<close>

lemma parse_bigint_big:
  assumes s: "ASN1_INTEGER_get long_max a < 0"
    and r: "tls_parse_bigint long_max w a = (0, p, w')"
  shows "string_at w' p = Some (bn_dec (ASN1_INTEGER_value a))"
proof -
  let ?v = "ASN1_INTEGER_value a"
  obtain b w1 where a1: "alloc w [] = (b, w1)" by (cases "alloc w []")
  from r s a1 obtain big where b: "b = Some big"
    by (cases b) (auto simp: tls_parse_bigint_def Let_def ASN1_INTEGER_to_BN_def)
  obtain t w2 where a2: "alloc w1 (bn_dec ?v @ [NUL]) = (t, w2)"
    by (cases "alloc w1 (bn_dec ?v @ [NUL])")
  from r s a1 b a2 obtain tmp where t: "t = Some tmp"
    by (cases t) (auto simp: tls_parse_bigint_def Let_def ASN1_INTEGER_to_BN_def BN_bn2dec_def)
  obtain q w3 where a3: "strdup w2 (bn_dec ?v @ [NUL]) = (q, w3)"
    by (cases "strdup w2 (bn_dec ?v @ [NUL])")
  from r s a1 b a2 t a3 obtain d where q: "q = Some d" and p: "p = Some d"
    and w': "w' = free (free w3 (Some tmp)) (Some big)"
    by (cases q) (auto simp: tls_parse_bigint_def Let_def ASN1_INTEGER_to_BN_def BN_bn2dec_def)
  from alloc_Some [OF a1 [unfolded b]] have b1: "blocks w1 = (big, []) # blocks w" by simp
  from alloc_Some [OF a2 [unfolded t]] have b2: "blocks w2 = (tmp, bn_dec ?v @ [NUL]) # blocks w1"
    by simp
  from alloc_Some [OF a3 [unfolded q strdup_def]] have "d \<notin> fst ` set (blocks w2)" by simp
  with b1 b2 have ne: "tmp \<noteq> d" "big \<noteq> d" by auto
  have "string_at w' (Some d) = string_at w3 (Some d)"
    by (simp add: w' string_at_free ne)
  also have "\<dots> = Some (cstr (bn_dec ?v @ [NUL]))"
    by (rule strdup_result [OF a3 [unfolded q]])
  also have "cstr (bn_dec ?v @ [NUL]) = bn_dec ?v"
    by (rule cstr_no_NUL [OF bn_dec_no_NUL])
  finally show ?thesis by (simp add: p)
qed

lemma snprintf_lu_value:
  assumes "0 \<le> v" "v \<le> long_max" "long_max < 10 ^ 63"
  shows "cstr (snprintf_lu v) = bn_dec v"
proof -
  have "nat v < 10 ^ 63" using assms by (simp add: nat_less_iff)
  then have "length (dec (nat v)) \<le> 63" by (rule length_dec) simp
  then have "snprintf_lu v = dec (nat v) @ [NUL]" by (simp add: snprintf_lu_def)
  moreover have "NUL \<notin> set (dec (nat v))" by (rule all_digits_no_NUL [OF all_digits_dec])
  ultimately show ?thesis using assms(1) by (simp add: cstr_no_NUL bn_dec_def)
qed

lemma parse_bigint_value:
  assumes lm: "0 \<le> long_max" "long_max < 10 ^ 63"
    and r: "tls_parse_bigint long_max w a = (0, p, w')"
  shows "string_at w' p = Some (bn_dec (ASN1_INTEGER_value a))"
proof (cases "ASN1_INTEGER_get long_max a < 0")
  case True
  then show ?thesis using r by (rule parse_bigint_big)
next
  case False
  then have g: "0 \<le> ASN1_INTEGER_get long_max a" by simp
  then have v: "ASN1_INTEGER_get long_max a = ASN1_INTEGER_value a"
    "0 \<le> ASN1_INTEGER_value a" "ASN1_INTEGER_value a \<le> long_max"
    by (auto simp: ASN1_INTEGER_get_def Let_def split: if_splits)
  from parse_bigint_small [OF g r] show ?thesis
    using snprintf_lu_value [OF v(2,3) lm(2)] by (simp add: v(1))
qed

lemma alloc_no_failure:
  assumes "no_alloc_failure w"
  obtains a w' where "alloc w s = (Some a, w')" and "no_alloc_failure w'"
proof -
  let ?w' = "w\<lparr>alloc_plan := tl (alloc_plan w),
               blocks := (fresh_addr (blocks w), s) # blocks w\<rparr>"
  have "alloc w s = (Some (fresh_addr (blocks w)), ?w')"
    by (rule alloc_ok [OF no_alloc_failure_next [OF assms]])
  moreover have "no_alloc_failure ?w'"
    using no_alloc_failure_tl [OF assms] by (simp add: no_alloc_failure_def)
  ultimately show thesis by (rule that)
qed

lemma parse_bigint_succeeds:
  assumes na: "no_alloc_failure w"
  shows "fst (tls_parse_bigint long_max w a) = 0"
proof (cases "ASN1_INTEGER_get long_max a < 0")
  case False
  obtain d w1 where "alloc w (cstr (snprintf_lu (ASN1_INTEGER_get long_max a)) @ [NUL])
      = (Some d, w1)"
    using na by (rule alloc_no_failure)
  with False show ?thesis
    by (simp add: tls_parse_bigint_def Let_def strdup_def)
next
  case True
  let ?s = "bn_dec (ASN1_INTEGER_value a) @ [NUL]"
  obtain big w1 where a1: "alloc w [] = (Some big, w1)" and n1: "no_alloc_failure w1"
    using na by (rule alloc_no_failure)
  obtain tmp w2 where a2: "alloc w1 ?s = (Some tmp, w2)" and n2: "no_alloc_failure w2"
    using n1 by (rule alloc_no_failure)
  obtain d w3 where a3: "alloc w2 (cstr ?s @ [NUL]) = (Some d, w3)"
    using n2 by (rule alloc_no_failure)
  show ?thesis
    using True
    by (simp add: tls_parse_bigint_def Let_def ASN1_INTEGER_to_BN_def BN_bn2dec_def a1 a2 a3
        strdup_def)
qed

text \<open>
  Claim C2, as the code has it. \<^verbatim>\<open>tls_parse_bigint\<close> formats the value directly when
  it fits a \<^verbatim>\<open>long\<close> and is not negative, and goes through the \<^verbatim>\<open>BIGNUM\<close>
  otherwise. Whenever it returns 0, the string is the decimal representation of the
  value of the integer: for a value that is not negative only the decimal digits of the
  big-endian magnitude, for a negative value a minus sign and then those digits. It
  returns 0 in every state in which no allocation fails, and the bytes 01 00 00 00 00
  decode to ``4294967296''. \<^verbatim>\<open>LONG_MAX\<close> is any value from 0 up to \<open>10^63\<close>.
\<close>

theorem serial_is_decimal_of_value:
  assumes lm: "0 \<le> long_max" "long_max < 10 ^ 63"
  shows "(0 \<le> ASN1_INTEGER_get long_max a \<longleftrightarrow>
            0 \<le> ASN1_INTEGER_value a \<and> ASN1_INTEGER_value a \<le> long_max)
       \<and> (fst (parsed_serial long_max w a) = 0 \<longrightarrow>
            snd (parsed_serial long_max w a) = Some (bn_dec (ASN1_INTEGER_value a)))
       \<and> (no_alloc_failure w \<longrightarrow> fst (parsed_serial long_max w a) = 0)
       \<and> (0 \<le> ASN1_INTEGER_value a \<longrightarrow>
            bn_dec (ASN1_INTEGER_value a) = dec (be_value (int_data a)) \<and>
            all_digits (bn_dec (ASN1_INTEGER_value a)))
       \<and> (ASN1_INTEGER_value a < 0 \<longrightarrow>
            bn_dec (ASN1_INTEGER_value a) = ''-'' @ dec (be_value (int_data a)))
       \<and> (no_alloc_failure w \<longrightarrow>
            parsed_serial long_max w
              \<lparr>int_negative = False,
               int_data = [CHR 0x01, CHR 0x00, CHR 0x00, CHR 0x00, CHR 0x00]\<rparr>
            = (0, Some ''4294967296''))"
proof -
  have path: "0 \<le> ASN1_INTEGER_get long_max a \<longleftrightarrow>
            0 \<le> ASN1_INTEGER_value a \<and> ASN1_INTEGER_value a \<le> long_max"
    using lm(1) by (auto simp: ASN1_INTEGER_get_def Let_def)
  have val: "snd (parsed_serial long_max w b) = Some (bn_dec (ASN1_INTEGER_value b))"
    if "fst (parsed_serial long_max w b) = 0" for b
  proof -
    obtain r p w' where t: "tls_parse_bigint long_max w b = (r, p, w')"
      by (cases "tls_parse_bigint long_max w b")
    with that have "r = 0" by (simp add: parsed_serial_def)
    with t parse_bigint_value [OF lm, of w b p w'] show ?thesis
      by (simp add: parsed_serial_def)
  qed
  have ok: "fst (parsed_serial long_max w b) = 0" if "no_alloc_failure w" for b
    using parse_bigint_succeeds [OF that, of long_max b]
    by (cases "tls_parse_bigint long_max w b") (simp add: parsed_serial_def)
  have pos: "bn_dec (ASN1_INTEGER_value a) = dec (be_value (int_data a)) \<and>
            all_digits (bn_dec (ASN1_INTEGER_value a))"
    if "0 \<le> ASN1_INTEGER_value a"
    using that all_digits_dec [of "be_value (int_data a)"]
    by (auto simp: bn_dec_def ASN1_INTEGER_value_def split: if_splits)
  have neg: "bn_dec (ASN1_INTEGER_value a) = ''-'' @ dec (be_value (int_data a))"
    if "ASN1_INTEGER_value a < 0"
    using that by (auto simp: bn_dec_def ASN1_INTEGER_value_def split: if_splits)
  let ?e = "\<lparr>int_negative = False,
             int_data = [CHR 0x01, CHR 0x00, CHR 0x00, CHR 0x00, CHR 0x00]\<rparr>"
  have ev: "ASN1_INTEGER_value ?e = 4294967296"
    by (simp add: ASN1_INTEGER_value_def be_value_def)
  have ed: "bn_dec 4294967296 = ''4294967296''"
    by (simp add: bn_dec_def dec.simps digit_char_def)
  have ex: "parsed_serial long_max w ?e = (0, Some ''4294967296'')" if "no_alloc_failure w"
    using ok [OF that, of ?e] val [of ?e] by (simp add: ev ed prod_eq_iff)
  from path val ok pos neg ex show ?thesis by blast
qed

theorem serial_is_decimal_of_value_witness:
  "(0::int) \<le> 2 ^ 31 - 1 \<and> (2::int) ^ 31 - 1 < 10 ^ 63 \<and> no_alloc_failure empty_world \<and>
   parsed_serial (2 ^ 31 - 1) empty_world
     \<lparr>int_negative = False, int_data = [CHR 0x01, CHR 0x00, CHR 0x00, CHR 0x00, CHR 0x00]\<rparr>
   = (0, Some ''4294967296'')"
proof -
  have h: "(0::int) \<le> 2 ^ 31 - 1" "(2::int) ^ 31 - 1 < 10 ^ 63" by simp_all
  have n: "no_alloc_failure empty_world"
    by (simp add: no_alloc_failure_def empty_world_def)
  from serial_is_decimal_of_value [OF h, of _ empty_world] n h show ?thesis by blast
qed

text \<open>
  The claim as stated fails for a negative serial number: the integer -1 takes the path
  through the \<^verbatim>\<open>BIGNUM\<close> and decodes to ``-1'', which has a sign.
\<close>

theorem serial_negative_has_sign:
  "parsed_serial (2 ^ 63 - 1) empty_world \<lparr>int_negative = True, int_data = [CHR 0x01]\<rparr>
     = (0, Some ''-1'')
   \<and> \<not> all_digits ''-1''"
  by (simp add: parsed_serial_def tls_parse_bigint_def ASN1_INTEGER_get_def
      ASN1_INTEGER_value_def be_value_def ASN1_INTEGER_to_BN_def BN_bn2dec_def bn_dec_def
      strdup_def alloc_def next_alloc_ok_def fresh_addr_def free_def empty_world_def
      string_at_def bytes_at_def cstr_def NUL_def dec.simps digit_char_def all_digits_def
      Let_def)

subsection \<open>The fingerprint\<close>

lemma tolower_letters:
  "map tolower ''ABCDEFGHIJKLMNOPQRSTUVWXYZ'' = ''abcdefghijklmnopqrstuvwxyz''"
  "map tolower ''abcdefghijklmnopqrstuvwxyz'' = ''abcdefghijklmnopqrstuvwxyz''"
  "map tolower ''0123456789'' = ''0123456789''"
  by (simp_all add: tolower_def char_of_def bit_0)

lemma strcasecmp_eq_lower:
  "strcasecmp_eq algo ''sha1'' \<longleftrightarrow> map tolower (cstr algo) = ''sha1''"
  "strcasecmp_eq algo ''sha256'' \<longleftrightarrow> map tolower (cstr algo) = ''sha256''"
  by (simp_all add: strcasecmp_eq_def cstr_def NUL_def tolower_def)

lemma fingerprint_digest:
  assumes "ssl_conn ctx = Some conn" and "peer_certificate conn = Some peer"
    and "(if strcasecmp_eq algo ''sha1'' then Some EVP_sha1
          else if strcasecmp_eq algo ''sha256'' then Some EVP_sha256 else None) = Some md"
    and "x_digest peer md = Some d"
  shows "tls_get_peer_cert_fingerprint w ctx algo buf buflen outlen
         = (0,
            take (min (EVP_MD_size md) buflen) (take (EVP_MD_size md) (d @ replicate (EVP_MD_size md) NUL))
              @ drop (min (EVP_MD_size md) buflen) buf,
            map_option (\<lambda>_. min (EVP_MD_size md) buflen) outlen, w)"
proof -
  have m: "(if buflen < EVP_MD_size md then buflen else EVP_MD_size md)
           = min (EVP_MD_size md) buflen" by simp
  have t: "take (min (EVP_MD_size md) buflen)
             (take (EVP_MD_size md) (d @ replicate (EVP_MD_size md) NUL)
                @ replicate (EVP_MAX_MD_SIZE - EVP_MD_size md) NUL)
           = take (min (EVP_MD_size md) buflen)
               (take (EVP_MD_size md) (d @ replicate (EVP_MD_size md) NUL))"
    by simp
  show ?thesis
    using assms(3)
    by (simp only: tls_get_peer_cert_fingerprint_def assms(1,2,4) X509_digest_def Let_def
        option.case prod.case m t if_False rel_simps simp_thms)
qed

lemma fingerprint_unsupported:
  assumes "ssl_conn ctx = Some conn" and "peer_certificate conn = Some peer"
    and "\<not> strcasecmp_eq algo ''sha1''" and "\<not> strcasecmp_eq algo ''sha256''"
  shows "tls_get_peer_cert_fingerprint w ctx algo buf buflen outlen
         = (-1, buf, map_option (\<lambda>_. 0) outlen,
            tls_set_error w ''invalid fingerprint algorithm'')"
  using assms by (simp add: tls_get_peer_cert_fingerprint_def)

text \<open>
  Claim C9. For a session with a peer certificate, \<^verbatim>\<open>tls_get_peer_cert_fingerprint\<close>
  compares the name of the algorithm with ``sha1'' and ``sha256'' without regard to
  case. A name that lower-cases to ``sha256'' gives, when the library computes the
  digest, return code 0, the 32 bytes of the digest in the buffer (as many of them as
  the buffer holds) and their number in \<open>outlen\<close>; a name that lower-cases to ``sha1''
  gives 20 bytes likewise. Every other name fails with ``invalid fingerprint
  algorithm'', leaving the buffer as it was and 0 in \<open>outlen\<close>. In particular
  ``SHA256'' gives a digest of 32 bytes and ``md5'' fails.
\<close>

theorem fingerprint_algorithm_names:
  assumes "ssl_conn ctx = Some conn" and "peer_certificate conn = Some peer"
  shows "(map tolower (cstr algo) = ''sha256'' \<and> x_digest peer EVP_sha256 = Some d \<longrightarrow>
            tls_get_peer_cert_fingerprint w ctx algo buf buflen outlen
            = (0, take (min 32 buflen) (take 32 (d @ replicate 32 NUL)) @ drop (min 32 buflen) buf,
               map_option (\<lambda>_. min 32 buflen) outlen, w))
       \<and> (map tolower (cstr algo) = ''sha1'' \<and> x_digest peer EVP_sha1 = Some d \<longrightarrow>
            tls_get_peer_cert_fingerprint w ctx algo buf buflen outlen
            = (0, take (min 20 buflen) (take 20 (d @ replicate 20 NUL)) @ drop (min 20 buflen) buf,
               map_option (\<lambda>_. min 20 buflen) outlen, w))
       \<and> (map tolower (cstr algo) \<noteq> ''sha1'' \<and> map tolower (cstr algo) \<noteq> ''sha256'' \<longrightarrow>
            tls_get_peer_cert_fingerprint w ctx algo buf buflen outlen
            = (-1, buf, map_option (\<lambda>_. 0) outlen,
               tls_set_error w ''invalid fingerprint algorithm''))
       \<and> (x_digest peer EVP_sha256 = Some d \<and> 32 \<le> buflen \<longrightarrow>
            tls_get_peer_cert_fingerprint w ctx ''SHA256'' buf buflen outlen
            = (0, take 32 (d @ replicate 32 NUL) @ drop 32 buf, map_option (\<lambda>_. 32) outlen, w)
            \<and> length (take 32 (d @ replicate 32 NUL)) = 32)
       \<and> tls_get_peer_cert_fingerprint w ctx ''md5'' buf buflen outlen
            = (-1, buf, map_option (\<lambda>_. 0) outlen,
               tls_set_error w ''invalid fingerprint algorithm'')"
proof -
  note fd = fingerprint_digest [OF assms, where w = w and buf = buf and buflen = buflen
      and outlen = outlen]
  note fu = fingerprint_unsupported [OF assms, where w = w and buf = buf and buflen = buflen
      and outlen = outlen]
  have s256: "tls_get_peer_cert_fingerprint w ctx a buf buflen outlen
            = (0, take (min 32 buflen) (take 32 (d @ replicate 32 NUL)) @ drop (min 32 buflen) buf,
               map_option (\<lambda>_. min 32 buflen) outlen, w)"
    if "map tolower (cstr a) = ''sha256''" "x_digest peer EVP_sha256 = Some d" for a
    using fd [of a EVP_sha256 d] that by (simp add: strcasecmp_eq_lower EVP_MD_size_def)
  have s1: "tls_get_peer_cert_fingerprint w ctx a buf buflen outlen
            = (0, take (min 20 buflen) (take 20 (d @ replicate 20 NUL)) @ drop (min 20 buflen) buf,
               map_option (\<lambda>_. min 20 buflen) outlen, w)"
    if "map tolower (cstr a) = ''sha1''" "x_digest peer EVP_sha1 = Some d" for a
    using fd [of a EVP_sha1 d] that by (simp add: strcasecmp_eq_lower EVP_MD_size_def)
  have un: "tls_get_peer_cert_fingerprint w ctx a buf buflen outlen
            = (-1, buf, map_option (\<lambda>_. 0) outlen,
               tls_set_error w ''invalid fingerprint algorithm'')"
    if "map tolower (cstr a) \<noteq> ''sha1''" "map tolower (cstr a) \<noteq> ''sha256''" for a
    using fu [of a] that by (simp add: strcasecmp_eq_lower)
  have up: "map tolower (cstr ''SHA256'') = ''sha256''"
    by (simp add: cstr_def NUL_def tolower_def char_of_def bit_0)
  have md5: "map tolower (cstr ''md5'') = ''md5''"
    by (simp add: cstr_def NUL_def tolower_def)
  have big: "tls_get_peer_cert_fingerprint w ctx ''SHA256'' buf buflen outlen
            = (0, take 32 (d @ replicate 32 NUL) @ drop 32 buf, map_option (\<lambda>_. 32) outlen, w)
            \<and> length (take 32 (d @ replicate 32 NUL)) = 32"
    if "x_digest peer EVP_sha256 = Some d" "32 \<le> buflen"
  proof -
    have l: "length (take 32 (d @ replicate 32 NUL)) = 32" by (simp del: take_append)
    have m: "min 32 buflen = 32" using that(2) by simp
    have t: "take 32 (take 32 (d @ replicate 32 NUL)) = take 32 (d @ replicate 32 NUL)"
      by (simp only: take_take min.idem)
    from s256 [OF up that(1)] l show ?thesis unfolding m t by (simp only: simp_thms)
  qed
  have m: "tls_get_peer_cert_fingerprint w ctx ''md5'' buf buflen outlen
            = (-1, buf, map_option (\<lambda>_. 0) outlen,
               tls_set_error w ''invalid fingerprint algorithm'')"
    by (rule un) (simp_all add: md5)
  show ?thesis
  proof (intro conjI impI)
    assume "map tolower (cstr algo) = ''sha256'' \<and> x_digest peer EVP_sha256 = Some d"
    then show "tls_get_peer_cert_fingerprint w ctx algo buf buflen outlen
            = (0, take (min 32 buflen) (take 32 (d @ replicate 32 NUL)) @ drop (min 32 buflen) buf,
               map_option (\<lambda>_. min 32 buflen) outlen, w)"
      by (elim conjE) (rule s256)
  next
    assume "map tolower (cstr algo) = ''sha1'' \<and> x_digest peer EVP_sha1 = Some d"
    then show "tls_get_peer_cert_fingerprint w ctx algo buf buflen outlen
            = (0, take (min 20 buflen) (take 20 (d @ replicate 20 NUL)) @ drop (min 20 buflen) buf,
               map_option (\<lambda>_. min 20 buflen) outlen, w)"
      by (elim conjE) (rule s1)
  next
    assume "map tolower (cstr algo) \<noteq> ''sha1'' \<and> map tolower (cstr algo) \<noteq> ''sha256''"
    then show "tls_get_peer_cert_fingerprint w ctx algo buf buflen outlen
            = (-1, buf, map_option (\<lambda>_. 0) outlen,
               tls_set_error w ''invalid fingerprint algorithm'')"
      by (elim conjE) (rule un)
  next
    assume a: "x_digest peer EVP_sha256 = Some d \<and> 32 \<le> buflen"
    then show "tls_get_peer_cert_fingerprint w ctx ''SHA256'' buf buflen outlen
            = (0, take 32 (d @ replicate 32 NUL) @ drop 32 buf, map_option (\<lambda>_. 32) outlen, w)"
      by (elim conjE) (rule big [THEN conjunct1])
    from a show "length (take 32 (d @ replicate 32 NUL)) = 32"
      by (elim conjE) (rule big [THEN conjunct2])
  next
    show "tls_get_peer_cert_fingerprint w ctx ''md5'' buf buflen outlen
            = (-1, buf, map_option (\<lambda>_. 0) outlen,
               tls_set_error w ''invalid fingerprint algorithm'')"
      by (rule m)
  qed
qed

theorem fingerprint_algorithm_names_witness:
  "ssl_conn \<lparr>ssl_conn = Some \<lparr>peer_certificate = Some
      \<lparr>x_version = 2, x_subject_name = None, x_issuer_name = None,
       x_subject_alt_name = None, x_notBefore = Time_unprintable,
       x_notAfter = Time_unprintable,
       x_serialNumber = \<lparr>int_negative = False, int_data = []\<rparr>,
       x_digest = (\<lambda>_. Some (replicate 32 (CHR ''d'')))\<rparr>\<rparr>\<rparr>
     = Some \<lparr>peer_certificate = Some
      \<lparr>x_version = 2, x_subject_name = None, x_issuer_name = None,
       x_subject_alt_name = None, x_notBefore = Time_unprintable,
       x_notAfter = Time_unprintable,
       x_serialNumber = \<lparr>int_negative = False, int_data = []\<rparr>,
       x_digest = (\<lambda>_. Some (replicate 32 (CHR ''d'')))\<rparr>\<rparr>
   \<and> fst (tls_get_peer_cert_fingerprint empty_world
         \<lparr>ssl_conn = Some \<lparr>peer_certificate = Some
      \<lparr>x_version = 2, x_subject_name = None, x_issuer_name = None,
       x_subject_alt_name = None, x_notBefore = Time_unprintable,
       x_notAfter = Time_unprintable,
       x_serialNumber = \<lparr>int_negative = False, int_data = []\<rparr>,
       x_digest = (\<lambda>_. Some (replicate 32 (CHR ''d'')))\<rparr>\<rparr>\<rparr>
         ''SHA256'' (replicate 40 NUL) 40 (Some 0)) = 0
   \<and> fst (snd (snd (tls_get_peer_cert_fingerprint empty_world
         \<lparr>ssl_conn = Some \<lparr>peer_certificate = Some
      \<lparr>x_version = 2, x_subject_name = None, x_issuer_name = None,
       x_subject_alt_name = None, x_notBefore = Time_unprintable,
       x_notAfter = Time_unprintable,
       x_serialNumber = \<lparr>int_negative = False, int_data = []\<rparr>,
       x_digest = (\<lambda>_. Some (replicate 32 (CHR ''d'')))\<rparr>\<rparr>\<rparr>
         ''SHA256'' (replicate 40 NUL) 40 (Some 0)))) = Some 32"
proof -
  let ?peer = "\<lparr>x_version = 2, x_subject_name = None, x_issuer_name = None,
       x_subject_alt_name = None, x_notBefore = Time_unprintable,
       x_notAfter = Time_unprintable,
       x_serialNumber = \<lparr>int_negative = False, int_data = []\<rparr>,
       x_digest = (\<lambda>_. Some (replicate 32 (CHR ''d'')))\<rparr>"
  let ?conn = "\<lparr>peer_certificate = Some ?peer\<rparr>"
  let ?ctx = "\<lparr>ssl_conn = Some ?conn\<rparr>"
  have h1: "ssl_conn ?ctx = Some ?conn" by simp
  have h2: "peer_certificate ?conn = Some ?peer" by simp
  have h3: "x_digest ?peer EVP_sha256 = Some (replicate 32 (CHR ''d'')) \<and> (32::nat) \<le> 40"
    by simp
  note t = fingerprint_algorithm_names [OF h1 h2, where d = "replicate 32 (CHR ''d'')"
      and w = empty_world and buf = "replicate 40 NUL" and buflen = 40 and outlen = "Some 0",
      THEN conjunct2, THEN conjunct2, THEN conjunct2, THEN conjunct1, THEN mp, OF h3,
      THEN conjunct1]
  have a: "fst (tls_get_peer_cert_fingerprint empty_world ?ctx ''SHA256'' (replicate 40 NUL)
             40 (Some 0)) = 0"
    unfolding t by (simp only: fst_conv)
  have b: "fst (snd (snd (tls_get_peer_cert_fingerprint empty_world ?ctx ''SHA256''
             (replicate 40 NUL) 40 (Some 0)))) = Some 32"
    unfolding t by (simp only: fst_conv snd_conv option.map)
  from h1 a b show ?thesis by (intro conjI)
qed

subsection \<open>The list of alternative names\<close>

lemma slot_view_alloc:
  assumes "alloc w s = (p, w1)" and "slot_view w sl = Some e"
  shows "slot_view w1 sl = Some e"
proof -
  from assms(2) obtain b where b: "bytes_at w (alt_name sl) = Some b"
    by (auto simp: slot_view_def)
  from bytes_at_alloc_old [OF assms(1) b] b assms(2) show ?thesis
    by (simp add: slot_view_def)
qed

lemma views_alloc:
  assumes "alloc w s = (p, w1)" and "map (slot_view w) xs = map Some acc"
  shows "map (slot_view w1) xs = map Some acc"
proof -
  have "map (slot_view w1) xs = map (slot_view w) xs"
  proof (rule map_cong [OF refl])
    fix sl assume "sl \<in> set xs"
    then have "slot_view w sl \<in> set (map Some acc)"
      using assms(2) [symmetric] by simp
    then obtain e where "slot_view w sl = Some e" by auto
    with slot_view_alloc [OF assms(1) this] show "slot_view w1 sl = slot_view w sl" by simp
  qed
  with assms(2) show ?thesis by simp
qed

text \<open>
  Appending to the array: the slot at the count is written and the count grows by one.
\<close>

lemma alt_names_append:
  assumes n: "subject_alt_name_count c < length (alt_slots c)"
    and a: "alloc w s = (Some p, w1)"
    and v: "alt_names_of w c = map Some acc"
    and c1: "alt_slots c1 = (alt_slots c)[subject_alt_name_count c := \<lparr>alt_name = Some p, alt_name_type = t\<rparr>]"
    and k: "subject_alt_name_count c1 = subject_alt_name_count c + 1"
  shows "alt_names_of w1 c1 = map Some (acc @ [(t, s)])"
proof -
  let ?k = "subject_alt_name_count c"
  have tk: "take (Suc ?k) (alt_slots c1)
            = take ?k (alt_slots c) @ [\<lparr>alt_name = Some p, alt_name_type = t\<rparr>]"
    using n by (simp add: c1 take_Suc_conv_app_nth)
  have old: "map (slot_view w1) (take ?k (alt_slots c)) = map Some acc"
    using views_alloc [OF a] v by (simp add: alt_names_of_def)
  have new: "slot_view w1 \<lparr>alt_name = Some p, alt_name_type = t\<rparr> = Some (t, s)"
    using bytes_at_alloc_new [OF a] by (simp add: slot_view_def)
  show ?thesis
    by (simp add: alt_names_of_def k tk old new)
qed

lemma slot_written:
  "(s::tls_cert_alt_name)\<lparr>alt_name := a, alt_name_type := t\<rparr>
     = \<lparr>alt_name = a, alt_name_type = t\<rparr>"
  "(s::tls_cert_alt_name)\<lparr>alt_name_type := t, alt_name := a\<rparr>
     = \<lparr>alt_name = a, alt_name_type = t\<rparr>"
  by (cases s; simp)+

lemma ia5_step_view:
  assumes r: "tls_load_alt_ia5string w s c t = (rv1, c1, w1)" and rv: "0 \<le> rv1"
    and n: "subject_alt_name_count c < length (alt_slots c)"
    and v: "alt_names_of w c = map Some acc"
  shows "alt_names_of w1 c1
           = map Some (acc @ (if asn1_type s = V_ASN1_IA5STRING then [(t, asn1_data s @ [NUL])]
                              else []))
         \<and> length (alt_slots c1) = length (alt_slots c)
         \<and> subject_alt_name_count c1
           = subject_alt_name_count c + (if asn1_type s = V_ASN1_IA5STRING then 1 else 0)"
proof (cases "asn1_type s = V_ASN1_IA5STRING")
  case False
  with r have "c1 = c" "w1 = w"
    by (simp_all add: tls_load_alt_ia5string_def ASN1_STRING_type_def)
  with False v show ?thesis by simp
next
  case ia5: True
  have good: "\<not> bad_ia5_value (asn1_data s)"
  proof
    assume "bad_ia5_value (asn1_data s)"
    from ia5_bad [OF ia5 this, of w c t] r rv show False by auto
  qed
  have ok: "next_alloc_ok w"
  proof (rule ccontr)
    assume "\<not> next_alloc_ok w"
    from ia5_good_nomem [OF ia5 good this, of c t] r rv show False by simp
  qed
  let ?p = "fresh_addr (blocks w)"
  from ia5_good_ok [OF ia5 good ok, of c t] r
  have c1: "c1 = (set_slot_type (set_slot_name c (subject_alt_name_count c) (Some ?p))
                    (subject_alt_name_count c) t)
                 \<lparr>subject_alt_name_count := subject_alt_name_count c + 1\<rparr>"
    and w1: "w1 = w\<lparr>alloc_plan := tl (alloc_plan w),
                     blocks := (?p, asn1_data s @ [NUL]) # blocks w\<rparr>"
    by simp_all
  have a: "alloc w (asn1_data s @ [NUL]) = (Some ?p, w1)"
    unfolding w1 by (rule alloc_ok [OF ok])
  have sl: "alt_slots c1 = (alt_slots c)[subject_alt_name_count c
              := \<lparr>alt_name = Some ?p, alt_name_type = t\<rparr>]"
    using n by (simp add: c1 set_slot_simps slot_written)
  have k: "subject_alt_name_count c1 = subject_alt_name_count c + 1"
    by (simp add: c1)
  from alt_names_append [OF n a v sl k] show ?thesis
    using ia5 by (simp add: sl k)
qed

lemma ipaddr_step_view:
  assumes r: "tls_load_alt_ipaddr w b c = (rv1, c1, w1)" and rv: "0 \<le> rv1"
    and n: "subject_alt_name_count c < length (alt_slots c)"
    and v: "alt_names_of w c = map Some acc"
  shows "alt_names_of w1 c1
           = map Some (acc @ [(if length (asn1_data b) = 4 then TLS_CERT_NAME_IPv4
                               else TLS_CERT_NAME_IPv6, asn1_data b)])
         \<and> length (alt_slots c1) = length (alt_slots c)
         \<and> subject_alt_name_count c1 = subject_alt_name_count c + 1"
proof -
  let ?t = "if length (asn1_data b) = 4 then TLS_CERT_NAME_IPv4 else TLS_CERT_NAME_IPv6"
  have good: "length (asn1_data b) = 4 \<or> length (asn1_data b) = 16"
  proof (rule ccontr)
    assume "\<not> ?thesis"
    then have "length (asn1_data b) \<noteq> 4" "length (asn1_data b) \<noteq> 16" by auto
    from ipaddr_bad_length [OF this, of w c] r rv show False by simp
  qed
  have ok: "next_alloc_ok w"
  proof (rule ccontr)
    assume "\<not> next_alloc_ok w"
    from ipaddr_good_nomem [OF good this, of c] r rv show False by simp
  qed
  let ?p = "fresh_addr (blocks w)"
  from ipaddr_good_ok [OF good ok, of c] r
  have c1: "c1 = (set_slot_name (set_slot_type c (subject_alt_name_count c) ?t)
                    (subject_alt_name_count c) (Some ?p))
                 \<lparr>subject_alt_name_count := subject_alt_name_count c + 1\<rparr>"
    and w1: "w1 = w\<lparr>alloc_plan := tl (alloc_plan w),
                     blocks := (?p, asn1_data b) # blocks w\<rparr>"
    by simp_all
  have a: "alloc w (asn1_data b) = (Some ?p, w1)"
    unfolding w1 by (rule alloc_ok [OF ok])
  have sl: "alt_slots c1 = (alt_slots c)[subject_alt_name_count c
              := \<lparr>alt_name = Some ?p, alt_name_type = ?t\<rparr>]"
    using n by (simp add: c1 set_slot_simps slot_written)
  have k: "subject_alt_name_count c1 = subject_alt_name_count c + 1"
    by (simp add: c1)
  from alt_names_append [OF n a v sl k] show ?thesis
    by (simp add: sl k)
qed

lemma altname_step_view:
  assumes r: "altname_step w c rv g = (rv1, c1, w1)" and rv: "0 \<le> rv1"
    and n: "subject_alt_name_count c < length (alt_slots c)"
    and v: "alt_names_of w c = map Some acc"
  shows "alt_names_of w1 c1 = map Some (acc @ List.map_filter recorded [g])
         \<and> length (alt_slots c1) = length (alt_slots c)
         \<and> subject_alt_name_count c1
           = subject_alt_name_count c + length (List.map_filter recorded [g])"
proof (cases g)
  case (GEN_DNS s)
  with r have "tls_load_alt_ia5string w s c TLS_CERT_NAME_DNS = (rv1, c1, w1)"
    by (simp add: altname_step_def)
  from ia5_step_view [OF this rv n v] show ?thesis
    by (simp add: GEN_DNS recorded_def List.map_filter_simps)
next
  case (GEN_EMAIL s)
  with r have "tls_load_alt_ia5string w s c TLS_CERT_NAME_EMAIL = (rv1, c1, w1)"
    by (simp add: altname_step_def)
  from ia5_step_view [OF this rv n v] show ?thesis
    by (simp add: GEN_EMAIL recorded_def List.map_filter_simps)
next
  case (GEN_URI s)
  with r have "tls_load_alt_ia5string w s c TLS_CERT_NAME_URI = (rv1, c1, w1)"
    by (simp add: altname_step_def)
  from ia5_step_view [OF this rv n v] show ?thesis
    by (simp add: GEN_URI recorded_def List.map_filter_simps)
next
  case (GEN_IPADD b)
  with r have "tls_load_alt_ipaddr w b c = (rv1, c1, w1)"
    by (simp add: altname_step_def)
  from ipaddr_step_view [OF this rv n v] show ?thesis
    by (simp add: GEN_IPADD recorded_def List.map_filter_simps)
qed (use r v in \<open>simp_all add: altname_step_def recorded_def List.map_filter_simps\<close>)

lemma altnames_loop_view:
  assumes "altnames_loop w c rv gs = (0, c', w')"
    and "subject_alt_name_count c + length gs \<le> length (alt_slots c)"
    and "alt_names_of w c = map Some acc"
  shows "alt_names_of w' c' = map Some (acc @ List.map_filter recorded gs)
         \<and> subject_alt_name_count c'
           = subject_alt_name_count c + length (List.map_filter recorded gs)"
  using assms
proof (induction gs arbitrary: w c rv acc)
  case Nil
  then show ?case by (simp add: List.map_filter_simps)
next
  case (Cons g gs)
  obtain rv1 c1 w1 where st: "altname_step w c rv g = (rv1, c1, w1)"
    by (cases "altname_step w c rv g")
  with Cons.prems(1) have rv1: "0 \<le> rv1" and lp: "altnames_loop w1 c1 rv1 gs = (0, c', w')"
    by (auto split: if_splits)
  have n: "subject_alt_name_count c < length (alt_slots c)" using Cons.prems(2) by simp
  note sv = altname_step_view [OF st rv1 n Cons.prems(3)]
  have le: "subject_alt_name_count c1 + length gs \<le> length (alt_slots c1)"
  proof -
    have "length (List.map_filter recorded [g]) \<le> 1"
      by (simp add: List.map_filter_simps split: option.splits)
    with sv Cons.prems(2) show ?thesis by simp
  qed
  from Cons.IH [OF lp le sv [THEN conjunct1]] sv show ?case
    by (simp add: List.map_filter_simps split: option.splits)
qed

lemma altname_step_valid:
  assumes na: "no_alloc_failure w" and g: "valid_entry g"
  shows "\<exists>c1 w1. altname_step w c rv g = (0, c1, w1) \<and> no_alloc_failure w1"
proof -
  have ok: "next_alloc_ok w" by (rule no_alloc_failure_next [OF na])
  have nf: "no_alloc_failure (w\<lparr>alloc_plan := tl (alloc_plan w), blocks := bl\<rparr>)" for bl
    using no_alloc_failure_tl [OF na] by (simp add: no_alloc_failure_def)
  show ?thesis
  proof (cases g)
    case (GEN_DNS s)
    with g have "asn1_type s = V_ASN1_IA5STRING" "\<not> bad_ia5_value (asn1_data s)"
      by (simp_all add: valid_entry_def)
    from ia5_good_ok [OF this ok] nf show ?thesis by (simp add: GEN_DNS altname_step_def)
  next
    case (GEN_EMAIL s)
    with g have "asn1_type s = V_ASN1_IA5STRING" "\<not> bad_ia5_value (asn1_data s)"
      by (simp_all add: valid_entry_def)
    from ia5_good_ok [OF this ok] nf show ?thesis by (simp add: GEN_EMAIL altname_step_def)
  next
    case (GEN_URI s)
    with g have "asn1_type s = V_ASN1_IA5STRING" "\<not> bad_ia5_value (asn1_data s)"
      by (simp_all add: valid_entry_def)
    from ia5_good_ok [OF this ok] nf show ?thesis by (simp add: GEN_URI altname_step_def)
  next
    case (GEN_IPADD b)
    with g have "length (asn1_data b) = 4 \<or> length (asn1_data b) = 16"
      by (simp add: valid_entry_def)
    from ipaddr_good_ok [OF this ok] nf show ?thesis by (simp add: GEN_IPADD altname_step_def)
  qed (use g in \<open>simp_all add: valid_entry_def\<close>)
qed

lemma altnames_loop_valid:
  assumes "no_alloc_failure w" and "\<forall>g\<in>set gs. valid_entry g"
  shows "fst (altnames_loop w c rv gs) = 0"
  using assms
proof (induction gs arbitrary: w c rv)
  case Nil
  then show ?case by simp
next
  case (Cons g gs)
  from Cons.prems have "valid_entry g" by simp
  from altname_step_valid [OF Cons.prems(1) this, of c rv]
  obtain c1 w1 where st: "altname_step w c rv g = (0, c1, w1)" and n1: "no_alloc_failure w1"
    by blast
  from Cons.prems(2) have "\<forall>g\<in>set gs. valid_entry g" by simp
  from Cons.IH [OF n1 this, of c1 0] st show ?case by simp
qed

lemma get_altnames_valid:
  assumes na: "no_alloc_failure w" and v: "\<forall>g\<in>set (san_entries x). valid_entry g"
  shows "fst (tls_cert_get_altnames w c x) = 0"
proof (cases "x_subject_alt_name x")
  case None
  then show ?thesis by (simp add: tls_cert_get_altnames_def)
next
  case (Some gs)
  with v have vg: "\<forall>g\<in>set gs. valid_entry g" by (simp add: san_entries_def)
  show ?thesis
  proof (cases "gs = []")
    case True
    with Some show ?thesis by (simp add: tls_cert_get_altnames_def)
  next
    case False
    obtain arr w1 where a: "alloc w [] = (Some arr, w1)" and n1: "no_alloc_failure w1"
      using na by (rule alloc_no_failure)
    from altnames_loop_valid [OF n1 vg] False Some a show ?thesis
      by (simp add: tls_cert_get_altnames_def)
  qed
qed

lemma get_altnames_view:
  assumes z: "subject_alt_name_count c = 0"
    and r: "tls_cert_get_altnames w c x = (0, c', w')"
  shows "alt_names_of w' c' = map Some (List.map_filter recorded (san_entries x))
         \<and> subject_alt_name_count c' = length (List.map_filter recorded (san_entries x))"
proof (cases "x_subject_alt_name x")
  case None
  with r have "c' = c" "w' = w" by (simp_all add: tls_cert_get_altnames_def)
  with None z show ?thesis
    by (simp add: san_entries_def alt_names_of_def List.map_filter_simps)
next
  case (Some gs)
  show ?thesis
  proof (cases "gs = []")
    case True
    with Some r have "c' = c" "w' = w" by (simp_all add: tls_cert_get_altnames_def)
    with Some True z show ?thesis
      by (simp add: san_entries_def alt_names_of_def List.map_filter_simps)
  next
    case False
    obtain p w1 where a: "alloc w [] = (p, w1)" by (cases "alloc w []")
    from r Some False a obtain arr where p: "p = Some arr"
      by (cases p) (auto simp: tls_cert_get_altnames_def)
    let ?c0 = "c\<lparr>subject_alt_names := Some arr, alt_slots := replicate (length gs) zero_slot\<rparr>"
    from r Some False a p have lp: "altnames_loop w1 ?c0 (-1) gs = (0, c', w')"
      by (simp add: tls_cert_get_altnames_def)
    have le: "subject_alt_name_count ?c0 + length gs \<le> length (alt_slots ?c0)"
      using z by simp
    have v0: "alt_names_of w1 ?c0 = map Some []"
      using z by (simp add: alt_names_of_def)
    from altnames_loop_view [OF lp le v0] z Some show ?thesis
      by (simp add: san_entries_def)
  qed
qed

lemma valid_entry_recorded: "valid_entry g \<Longrightarrow> recorded g \<noteq> None"
  by (cases g) (simp_all add: valid_entry_def recorded_def)

lemma map_filter_all:
  "\<forall>x\<in>set xs. f x \<noteq> None \<Longrightarrow> length (List.map_filter f xs) = length xs"
  by (induction xs) (auto simp: List.map_filter_simps)

text \<open>
  Claim C4, as the code has it. Let the structure enter \<^verbatim>\<open>tls_cert_get_altnames\<close>
  with a count of 0. Whenever the call returns 0, the sequence of alternative names
  consists, in the order of the extension, of exactly the entries that are decoded:
  those of type DNS, e-mail and URI with the IA5String encoding and those of type IP
  address; the entries of other kinds are not in it. The count equals the number of
  names in the sequence. So a certificate whose N entries are all of the decoded kinds
  with accepted values gives exactly N names in the original order, and for such a
  certificate the call returns 0 in every state in which no allocation fails.
\<close>

theorem alt_names_are_the_decoded_entries:
  assumes "subject_alt_name_count c = 0"
  shows "(tls_cert_get_altnames w c x = (0, c', w') \<longrightarrow>
            alt_names_of w' c' = map Some (List.map_filter recorded (san_entries x)) \<and>
            subject_alt_name_count c' = length (alt_names_of w' c'))
       \<and> ((\<forall>g\<in>set (san_entries x). valid_entry g) \<longrightarrow>
            List.map_filter recorded (san_entries x) = map (the \<circ> recorded) (san_entries x) \<and>
            length (List.map_filter recorded (san_entries x)) = length (san_entries x))
       \<and> (no_alloc_failure w \<and> (\<forall>g\<in>set (san_entries x). valid_entry g) \<longrightarrow>
            fst (tls_cert_get_altnames w c x) = 0)"
proof (intro conjI impI)
  assume r: "tls_cert_get_altnames w c x = (0, c', w')"
  note v = get_altnames_view [OF assms r]
  from v show "alt_names_of w' c' = map Some (List.map_filter recorded (san_entries x))"
    by (rule conjunct1)
  from v show "subject_alt_name_count c' = length (alt_names_of w' c')"
    by simp
next
  assume v: "\<forall>g\<in>set (san_entries x). valid_entry g"
  have nn: "\<forall>g\<in>set (san_entries x). recorded g \<noteq> None"
  proof
    fix g assume "g \<in> set (san_entries x)"
    with v have "valid_entry g" by (rule bspec)
    then show "recorded g \<noteq> None" by (rule valid_entry_recorded)
  qed
  then have "filter (\<lambda>g. recorded g \<noteq> None) (san_entries x) = san_entries x"
    by (simp add: filter_id_conv)
  then show "List.map_filter recorded (san_entries x) = map (the \<circ> recorded) (san_entries x)"
    by (simp add: List.map_filter_def)
  from nn show "length (List.map_filter recorded (san_entries x)) = length (san_entries x)"
    by (rule map_filter_all)
next
  assume "no_alloc_failure w \<and> (\<forall>g\<in>set (san_entries x). valid_entry g)"
  then show "fst (tls_cert_get_altnames w c x) = 0"
    by (elim conjE) (rule get_altnames_valid)
qed

theorem alt_names_are_the_decoded_entries_witness:
  "subject_alt_name_count zero_cert = 0 \<and>
   no_alloc_failure empty_world \<and>
   alt_names_of
     (snd (snd (tls_cert_get_altnames empty_world zero_cert
        \<lparr>x_version = 2, x_subject_name = None, x_issuer_name = None,
         x_subject_alt_name = Some
           [GEN_DNS \<lparr>asn1_type = V_ASN1_IA5STRING, asn1_data = ''a.b''\<rparr>,
            GEN_IPADD \<lparr>asn1_type = V_ASN1_OCTET_STRING,
                       asn1_data = [CHR 0x7F, CHR 0x00, CHR 0x00, CHR 0x01]\<rparr>],
         x_notBefore = Time_unprintable, x_notAfter = Time_unprintable,
         x_serialNumber = \<lparr>int_negative = False, int_data = []\<rparr>,
         x_digest = (\<lambda>_. None)\<rparr>)))
     (fst (snd (tls_cert_get_altnames empty_world zero_cert
        \<lparr>x_version = 2, x_subject_name = None, x_issuer_name = None,
         x_subject_alt_name = Some
           [GEN_DNS \<lparr>asn1_type = V_ASN1_IA5STRING, asn1_data = ''a.b''\<rparr>,
            GEN_IPADD \<lparr>asn1_type = V_ASN1_OCTET_STRING,
                       asn1_data = [CHR 0x7F, CHR 0x00, CHR 0x00, CHR 0x01]\<rparr>],
         x_notBefore = Time_unprintable, x_notAfter = Time_unprintable,
         x_serialNumber = \<lparr>int_negative = False, int_data = []\<rparr>,
         x_digest = (\<lambda>_. None)\<rparr>)))
   = [Some (TLS_CERT_NAME_DNS, ''a.b'' @ [NUL]),
      Some (TLS_CERT_NAME_IPv4, [CHR 0x7F, CHR 0x00, CHR 0x00, CHR 0x01])]"
proof -
  define x where "x =
        \<lparr>x_version = 2, x_subject_name = None, x_issuer_name = None,
         x_subject_alt_name = Some
           [GEN_DNS \<lparr>asn1_type = V_ASN1_IA5STRING, asn1_data = ''a.b''\<rparr>,
            GEN_IPADD \<lparr>asn1_type = V_ASN1_OCTET_STRING,
                       asn1_data = [CHR 0x7F, CHR 0x00, CHR 0x00, CHR 0x01]\<rparr>],
         x_notBefore = Time_unprintable, x_notAfter = Time_unprintable,
         x_serialNumber = \<lparr>int_negative = False, int_data = []\<rparr>,
         x_digest = (\<lambda>_. None)\<rparr>"
  define R where "R = tls_cert_get_altnames empty_world zero_cert x"
  have z: "subject_alt_name_count zero_cert = 0" by (simp add: zero_cert_def)
  have n: "no_alloc_failure empty_world"
    by (simp add: no_alloc_failure_def empty_world_def)
  have se: "san_entries x =
           [GEN_DNS \<lparr>asn1_type = V_ASN1_IA5STRING, asn1_data = ''a.b''\<rparr>,
            GEN_IPADD \<lparr>asn1_type = V_ASN1_OCTET_STRING,
                       asn1_data = [CHR 0x7F, CHR 0x00, CHR 0x00, CHR 0x01]\<rparr>]"
    by (simp add: san_entries_def x_def)
  have v: "\<forall>g\<in>set (san_entries x). valid_entry g"
    by (simp add: se valid_entry_def bad_ia5_value_def NUL_def)
  note t = alt_names_are_the_decoded_entries [OF z, where w = empty_world and x = x
      and c' = "fst (snd R)" and w' = "snd (snd R)"]
  from t n v have "fst R = 0" unfolding R_def by (elim conjE) simp
  then have "tls_cert_get_altnames empty_world zero_cert x = (0, fst (snd R), snd (snd R))"
    unfolding R_def by (simp add: prod_eq_iff)
  with t have "alt_names_of (snd (snd R)) (fst (snd R))
               = map Some (List.map_filter recorded (san_entries x))"
    by (elim conjE) simp
  also have "\<dots> = [Some (TLS_CERT_NAME_DNS, ''a.b'' @ [NUL]),
      Some (TLS_CERT_NAME_IPv4, [CHR 0x7F, CHR 0x00, CHR 0x00, CHR 0x01])]"
    by (simp add: se List.map_filter_simps recorded_def)
  finally show ?thesis using z n unfolding R_def x_def by (intro conjI)
qed

text \<open>
  The claim as stated fails when an entry of another type follows a decoded one: of
  the two entries (a DNS name, a directory name) one name is recorded, with return
  code 0.
\<close>

theorem skipped_entry_not_counted:
  "fst (tls_cert_get_altnames empty_world zero_cert
        \<lparr>x_version = 2, x_subject_name = None, x_issuer_name = None,
         x_subject_alt_name = Some
           [GEN_DNS \<lparr>asn1_type = V_ASN1_IA5STRING, asn1_data = ''a.b''\<rparr>, GEN_DIRNAME],
         x_notBefore = Time_unprintable, x_notAfter = Time_unprintable,
         x_serialNumber = \<lparr>int_negative = False, int_data = []\<rparr>,
         x_digest = (\<lambda>_. None)\<rparr>) = 0
   \<and> subject_alt_name_count (fst (snd (tls_cert_get_altnames empty_world zero_cert
        \<lparr>x_version = 2, x_subject_name = None, x_issuer_name = None,
         x_subject_alt_name = Some
           [GEN_DNS \<lparr>asn1_type = V_ASN1_IA5STRING, asn1_data = ''a.b''\<rparr>, GEN_DIRNAME],
         x_notBefore = Time_unprintable, x_notAfter = Time_unprintable,
         x_serialNumber = \<lparr>int_negative = False, int_data = []\<rparr>,
         x_digest = (\<lambda>_. None)\<rparr>))) = 1
   \<and> length [GEN_DNS \<lparr>asn1_type = V_ASN1_IA5STRING, asn1_data = ''a.b''\<rparr>, GEN_DIRNAME] = 2"
  by (simp add: tls_cert_get_altnames_def altname_step_def tls_load_alt_ia5string_def
      ASN1_STRING_type_def ASN1_STRING_length_def ASN1_STRING_data_def strdup_def alloc_def
      next_alloc_ok_def fresh_addr_def empty_world_def zero_cert_def zero_slot_def
      set_slot_name_def set_slot_type_def cstr_def NUL_def Let_def)

subsection \<open>Distinguished names\<close>

lemma name_string_absent:
  "name n = None \<Longrightarrow> tls_cert_get_name_string w name n = (0, None, w)"
  by (simp add: tls_cert_get_name_string_def X509_NAME_get_text_len_def)

lemma name_text:
  "name n = Some v \<Longrightarrow>
   take (length v) (X509_NAME_get_text name n (nat (int (length v) + 1))) = v"
  by (simp add: X509_NAME_get_text_def)








subsection \<open>Blocks allocated and released\<close>

lemma extends_refl: "extends w {} w"
  by (simp add: extends_def)

lemma extends_blocks:
  "blocks a = blocks a' \<Longrightarrow> blocks b = blocks b' \<Longrightarrow> extends a P b = extends a' P b'"
  by (simp add: extends_def)

lemma extends_errmsg [simp]:
  "extends w P (tls_set_error w' m) = extends w P w'"
  "extends (tls_set_error w m) P w' = extends w P w'"
  by (rule extends_blocks; simp add: tls_set_error_def)+

lemma extends_trans:
  assumes "extends w P w1" and "extends w1 Q w2"
  shows "extends w (P \<union> Q) w2"
proof -
  from assms(1) obtain n1 where n1: "blocks w1 = n1 @ blocks w" "fst ` set n1 = P"
    and d1: "P \<inter> fst ` set (blocks w) = {}"
    by (auto simp: extends_def)
  from assms(2) obtain n2 where n2: "blocks w2 = n2 @ blocks w1" "fst ` set n2 = Q"
    and d2: "Q \<inter> fst ` set (blocks w1) = {}"
    by (auto simp: extends_def)
  have "blocks w2 = (n2 @ n1) @ blocks w" by (simp add: n1 n2)
  moreover have "fst ` set (n2 @ n1) = P \<union> Q" using n1(2) n2(2) by (auto simp: image_Un)
  moreover have "(P \<union> Q) \<inter> fst ` set (blocks w) = {}"
    using d1 d2 by (auto simp: n1(1) image_Un)
  ultimately show ?thesis unfolding extends_def by blast
qed

lemma extends_alloc:
  assumes "alloc w s = (p, w')"
  shows "extends w (set_option p) w'"
proof (cases p)
  case None
  with assms show ?thesis by (auto dest!: alloc_None simp: extends_def)
next
  case (Some a)
  with assms have "a \<notin> fst ` set (blocks w)" "blocks w' = [(a, s)] @ blocks w"
    by (auto dest!: alloc_Some)
  then show ?thesis unfolding extends_def Some by (intro conjI exI [of _ "[(a, s)]"]) auto
qed

text \<open>A block allocated for the duration of a computation and released after it.\<close>

lemma extends_free_temp:
  assumes a: "alloc w s = (Some a, w1)" and e: "extends w1 P w2"
  shows "extends w P (free w2 (Some a))"
proof -
  from alloc_Some [OF a] have fr: "a \<notin> fst ` set (blocks w)"
    and b1: "blocks w1 = (a, s) # blocks w" by auto
  from e obtain news where n: "blocks w2 = news @ blocks w1" "fst ` set news = P"
    and d: "P \<inter> fst ` set (blocks w1) = {}"
    by (auto simp: extends_def)
  from d b1 have aP: "a \<notin> P" and dw: "P \<inter> fst ` set (blocks w) = {}" by auto
  have f1: "filter (\<lambda>b. fst b \<noteq> a) news = news"
    using aP n(2) by (force simp: filter_id_conv)
  have f2: "filter (\<lambda>b. fst b \<noteq> a) (blocks w) = blocks w"
    using fr by (force simp: filter_id_conv)
  have "blocks (free w2 (Some a)) = news @ blocks w"
    by (simp add: free_def n(1) b1 f1 f2)
  with n(2) dw show ?thesis unfolding extends_def by blast
qed

text \<open>Releasing all the new blocks gives the old heap back.\<close>

lemma extends_release:
  assumes "extends w P w'"
  shows "filter (\<lambda>b. fst b \<notin> P) (blocks w') = blocks w"
proof -
  from assms obtain news where n: "blocks w' = news @ blocks w" "fst ` set news = P"
    and d: "P \<inter> fst ` set (blocks w) = {}"
    by (auto simp: extends_def)
  have "filter (\<lambda>b. fst b \<notin> P) news = []"
    using n(2) by (auto simp: filter_empty_conv)
  moreover have "filter (\<lambda>b. fst b \<notin> P) (blocks w) = blocks w"
    using d by (force simp: filter_id_conv)
  ultimately show ?thesis by (simp add: n(1))
qed

lemma blocks_free: "blocks (free w p) = filter (\<lambda>b. fst b \<notin> set_option p) (blocks w)"
  by (cases p) (simp_all add: free_def)

lemma errmsg_free [simp]: "errmsg (free w p) = errmsg w"
  by (cases p) (simp_all add: free_def)

lemma name_string_ext:
  assumes "tls_cert_get_name_string w name n = (r, p, w')"
  shows "extends w (set_option p) w'" and "r \<noteq> 0 \<Longrightarrow> p = None"
proof -
  have "extends w (set_option p) w' \<and> (r \<noteq> 0 \<longrightarrow> p = None)"
  proof (cases "name n")
    case None
    from name_string_absent [where name = name and n = n, OF None, of w] assms
    show ?thesis by (simp add: extends_refl)
  next
    case (Some v)
    let ?text = "X509_NAME_get_text name n (nat (int (length v) + 1))"
    obtain q w1 where a: "alloc w ?text = (q, w1)" by (cases "alloc w ?text")
    show ?thesis
    proof (cases q)
      case None
      with assms Some a have "r = -1" "p = None" "w' = tls_set_error w1 ''no mem''"
        by (simp_all add: tls_cert_get_name_string_def X509_NAME_get_text_len_def)
      with extends_alloc [OF a] None show ?thesis by simp
    next
      case res: (Some res)
      show ?thesis
      proof (cases "NUL \<in> set v")
        case True
        with assms Some a res have p: "p = None"
          and w': "w' = free (tls_set_error w1 ''corrupt cert - NUL bytes is value'') (Some res)"
          by (simp_all add: tls_cert_get_name_string_def X509_NAME_get_text_len_def name_text)
        have "extends w1 {} (tls_set_error w1 ''corrupt cert - NUL bytes is value'')"
          by (simp add: extends_refl)
        from extends_free_temp [OF a [unfolded res] this] show ?thesis by (simp add: p w')
      next
        case False
        with assms Some a res have "r = 0" "p = Some res" "w' = w1"
          by (simp_all add: tls_cert_get_name_string_def X509_NAME_get_text_len_def name_text)
        with extends_alloc [OF a] res show ?thesis by simp
      qed
    qed
  qed
  then show "extends w (set_option p) w'" and "r \<noteq> 0 \<Longrightarrow> p = None" by simp_all
qed

lemma parse_time_ext:
  assumes "tls_parse_time w t = (r, p, w')"
  shows "extends w (set_option p) w' \<and> (r \<noteq> 0 \<longrightarrow> p = None)"
proof -
  obtain q w1 where a: "alloc w [] = (q, w1)" by (cases "alloc w []")
  show ?thesis
  proof (cases q)
    case None
    with assms a have "r = -1" "p = None" "w' = tls_set_error w1 ''no mem to parse time''"
      by (simp_all add: tls_parse_time_def)
    with extends_alloc [OF a] None show ?thesis by simp
  next
    case bio: (Some bio)
    let ?w2 = "free w1 (Some bio)"
    have e2: "extends w {} ?w2"
      by (rule extends_free_temp [OF a [unfolded bio] extends_refl])
    show ?thesis
    proof (cases "ASN1_TIME_print t")
      case None
      with assms a bio have "r = -1" "p = None"
        "w' = tls_set_error ?w2 ''no mem to parse time''"
        by (simp_all add: tls_parse_time_def)
      with e2 show ?thesis by simp
    next
      case (Some tx)
      obtain mon day tm year tz tmp where
        tf: "time_fields (pad_day (read_buf tx)) = (mon, day, tm, year, tz, tmp)"
        by (rule prod_cases6)
      let ?i = "month_search months (the mon) 0"
      let ?out = "the year @ ''-'' @ fmt_02d (?i + 1) @ ''-'' @ the day @ ''T'' @ the tm
                    @ ''Z'' @ [NUL]"
      consider (err) m where "r = -1" "p = None" "w' = tls_set_error ?w2 m"
        | (out) "(case alloc ?w2 ?out of
                    (None, w3) \<Rightarrow> (-1, None, tls_set_error w3 ''no mem to parse time'')
                  | (Some p, w3) \<Rightarrow> (0, Some p, w3)) = (r, p, w')"
        using assms a bio Some tf
        by (auto simp: tls_parse_time_def Let_def split: if_splits)
      then show ?thesis
      proof cases
        case err
        with e2 show ?thesis by simp
      next
        case out
        obtain d w3 where a3: "alloc ?w2 ?out = (d, w3)" by (cases "alloc ?w2 ?out")
        from extends_trans [OF e2 extends_alloc [OF a3]]
        have e3: "extends w (set_option d) w3" by simp
        from out a3 e3 show ?thesis by (cases d) auto
      qed
    qed
  qed
qed

lemma parse_bigint_ext:
  assumes "tls_parse_bigint long_max w a = (r, p, w')"
  shows "extends w (set_option p) w' \<and> (r \<noteq> 0 \<longrightarrow> p = None)"
proof -
  let ?fin = "\<lambda>res. case res of
                (Some dst, w4) \<Rightarrow> (0, Some dst, w4)
              | (None, w4) \<Rightarrow> (-1, None, tls_set_error w4 ''cannot parse serial'')"
  have fin: "extends w (set_option p) w' \<and> (r \<noteq> 0 \<longrightarrow> p = None)"
    if "?fin (d, v) = (r, p, w')" "extends w (set_option d) v" for d v
    using that by (cases d) auto
  show ?thesis
  proof (cases "ASN1_INTEGER_get long_max a < 0")
    case False
    obtain d v where s: "strdup w (snprintf_lu (ASN1_INTEGER_get long_max a)) = (d, v)"
      by (cases "strdup w (snprintf_lu (ASN1_INTEGER_get long_max a))")
    from assms False s have "?fin (d, v) = (r, p, w')"
      by (simp add: tls_parse_bigint_def Let_def)
    moreover have "extends w (set_option d) v"
      using s unfolding strdup_def by (rule extends_alloc)
    ultimately show ?thesis by (rule fin)
  next
    case True
    let ?s = "bn_dec (ASN1_INTEGER_value a) @ [NUL]"
    obtain b w1 where a1: "alloc w [] = (b, w1)" by (cases "alloc w []")
    show ?thesis
    proof (cases b)
      case None
      with assms True a1 have "?fin (None, w1) = (r, p, w')"
        by (simp add: tls_parse_bigint_def Let_def ASN1_INTEGER_to_BN_def)
      moreover have "extends w (set_option None) w1"
        using extends_alloc [OF a1] None by simp
      ultimately show ?thesis by (rule fin)
    next
      case big: (Some big)
      obtain t w2 where a2: "alloc w1 ?s = (t, w2)" by (cases "alloc w1 ?s")
      show ?thesis
      proof (cases t)
        case None
        with assms True a1 big a2 have "?fin (None, free w2 (Some big)) = (r, p, w')"
          by (simp add: tls_parse_bigint_def Let_def ASN1_INTEGER_to_BN_def BN_bn2dec_def)
        moreover have "extends w (set_option None) (free w2 (Some big))"
          using extends_free_temp [OF a1 [unfolded big]] extends_alloc [OF a2] None by simp
        ultimately show ?thesis by (rule fin)
      next
        case tmp: (Some tmp)
        obtain d w3 where s: "strdup w2 ?s = (d, w3)" by (cases "strdup w2 ?s")
        from assms True a1 big a2 tmp s
        have "?fin (d, free (free w3 (Some tmp)) (Some big)) = (r, p, w')"
          by (simp add: tls_parse_bigint_def Let_def ASN1_INTEGER_to_BN_def BN_bn2dec_def)
        moreover have "extends w (set_option d) (free (free w3 (Some tmp)) (Some big))"
        proof -
          have "extends w2 (set_option d) w3"
            using s unfolding strdup_def by (rule extends_alloc)
          from extends_free_temp [OF a2 [unfolded tmp] this]
          have "extends w1 (set_option d) (free w3 (Some tmp))" .
          from extends_free_temp [OF a1 [unfolded big] this] show ?thesis .
        qed
        ultimately show ?thesis by (rule fin)
      qed
    qed
  qed
qed

text \<open>
  A step on the array changes the slots and the count only; the names it owns grow by
  the blocks it allocates.
\<close>

lemma alt_ptrs_same:
  assumes "subject_alt_name_count c1 = subject_alt_name_count c"
    and "take (subject_alt_name_count c) (alt_slots c1)
         = take (subject_alt_name_count c) (alt_slots c)"
  shows "alt_ptrs c1 = alt_ptrs c"
  using assms by (simp add: alt_ptrs_def)

lemma alt_ptrs_append:
  assumes "subject_alt_name_count c < length (alt_slots c)"
    and "subject_alt_name_count c1 = subject_alt_name_count c + 1"
    and "alt_slots c1 = (alt_slots c)[subject_alt_name_count c := \<lparr>alt_name = Some p, alt_name_type = t\<rparr>]"
  shows "alt_ptrs c1 = alt_ptrs c \<union> {p}"
  using assms by (auto simp: alt_ptrs_def take_Suc_conv_app_nth)

lemma ia5_step_ext:
  assumes r: "tls_load_alt_ia5string w s c t = (r1, c1, w1)"
    and n: "subject_alt_name_count c < length (alt_slots c)"
  shows "\<exists>N sl k. extends w N w1 \<and> alt_ptrs c1 = alt_ptrs c \<union> N \<and>
           c1 = c\<lparr>alt_slots := sl, subject_alt_name_count := k\<rparr> \<and>
           length sl = length (alt_slots c) \<and> k \<le> subject_alt_name_count c + 1"
proof -
  let ?k = "subject_alt_name_count c"
  consider (skip) "asn1_type s \<noteq> V_ASN1_IA5STRING"
    | (bad) "asn1_type s = V_ASN1_IA5STRING" "bad_ia5_value (asn1_data s)"
    | (nomem) "asn1_type s = V_ASN1_IA5STRING" "\<not> bad_ia5_value (asn1_data s)"
        "\<not> next_alloc_ok w"
    | (ok) "asn1_type s = V_ASN1_IA5STRING" "\<not> bad_ia5_value (asn1_data s)" "next_alloc_ok w"
    by blast
  then show ?thesis
  proof cases
    case skip
    with r have "c1 = c" "w1 = w"
      by (simp_all add: tls_load_alt_ia5string_def ASN1_STRING_type_def)
    then show ?thesis
      by (intro exI [of _ "{}"] exI [of _ "alt_slots c"] exI [of _ ?k])
        (simp add: extends_refl)
  next
    case bad
    from ia5_bad [OF bad, of w c t] r obtain m where "c1 = c" "w1 = tls_set_error w m"
      by auto
    then show ?thesis
      by (intro exI [of _ "{}"] exI [of _ "alt_slots c"] exI [of _ ?k])
        (simp add: extends_refl)
  next
    case nomem
    from ia5_good_nomem [OF nomem, of c t] r
    have c1: "c1 = set_slot_name c ?k None"
      and w1: "w1 = tls_set_error (w\<lparr>alloc_plan := tl (alloc_plan w)\<rparr>) ''no mem''"
      by simp_all
    have e: "extends w {} w1"
      unfolding w1 extends_errmsg by (simp add: extends_def)
    have p: "alt_ptrs c1 = alt_ptrs c"
      using n by (intro alt_ptrs_same) (simp_all add: c1 set_slot_simps)
    have f: "c1 = c\<lparr>alt_slots := alt_slots c1, subject_alt_name_count := ?k\<rparr>"
      using n by (simp add: c1 set_slot_name_def)
    from e p f n show ?thesis
      by (intro exI [of _ "{}"] exI [of _ "alt_slots c1"] exI [of _ ?k])
        (simp add: c1 set_slot_simps)
  next
    case ok
    let ?p = "fresh_addr (blocks w)"
    from ia5_good_ok [OF ok, of c t] r
    have c1: "c1 = (set_slot_type (set_slot_name c ?k (Some ?p)) ?k t)
                     \<lparr>subject_alt_name_count := ?k + 1\<rparr>"
      and w1: "w1 = w\<lparr>alloc_plan := tl (alloc_plan w),
                       blocks := (?p, asn1_data s @ [NUL]) # blocks w\<rparr>"
      by simp_all
    have a: "alloc w (asn1_data s @ [NUL]) = (Some ?p, w1)"
      unfolding w1 by (rule alloc_ok [OF ok(3)])
    have e: "extends w {?p} w1" using extends_alloc [OF a] by simp
    have sl: "alt_slots c1 = (alt_slots c)[?k := \<lparr>alt_name = Some ?p, alt_name_type = t\<rparr>]"
      using n by (simp add: c1 set_slot_simps slot_written)
    have k: "subject_alt_name_count c1 = ?k + 1" by (simp add: c1)
    have p: "alt_ptrs c1 = alt_ptrs c \<union> {?p}" by (rule alt_ptrs_append [OF n k sl])
    have f: "c1 = c\<lparr>alt_slots := alt_slots c1, subject_alt_name_count := ?k + 1\<rparr>"
      using n by (simp add: c1 set_slot_name_def set_slot_type_def)
    from e p f show ?thesis
      by (intro exI [of _ "{?p}"] exI [of _ "alt_slots c1"] exI [of _ "?k + 1"])
        (simp add: sl)
  qed
qed

lemma ipaddr_step_ext:
  assumes r: "tls_load_alt_ipaddr w b c = (r1, c1, w1)"
    and n: "subject_alt_name_count c < length (alt_slots c)"
  shows "\<exists>N sl k. extends w N w1 \<and> alt_ptrs c1 = alt_ptrs c \<union> N \<and>
           c1 = c\<lparr>alt_slots := sl, subject_alt_name_count := k\<rparr> \<and>
           length sl = length (alt_slots c) \<and> k \<le> subject_alt_name_count c + 1"
proof -
  let ?k = "subject_alt_name_count c"
  let ?t = "if length (asn1_data b) = 4 then TLS_CERT_NAME_IPv4 else TLS_CERT_NAME_IPv6"
  consider (bad) "length (asn1_data b) \<noteq> 4" "length (asn1_data b) \<noteq> 16"
    | (nomem) "length (asn1_data b) = 4 \<or> length (asn1_data b) = 16" "\<not> next_alloc_ok w"
    | (ok) "length (asn1_data b) = 4 \<or> length (asn1_data b) = 16" "next_alloc_ok w"
    by blast
  then show ?thesis
  proof cases
    case bad
    from ipaddr_bad_length [OF bad, of w c] r
    have "c1 = c" "w1 = tls_set_error w ''invalid length for ipaddress''" by simp_all
    then show ?thesis
      by (intro exI [of _ "{}"] exI [of _ "alt_slots c"] exI [of _ ?k])
        (simp add: extends_refl)
  next
    case nomem
    from ipaddr_good_nomem [OF nomem, of c] r
    have c1: "c1 = set_slot_name (set_slot_type c ?k ?t) ?k None"
      and w1: "w1 = tls_set_error (w\<lparr>alloc_plan := tl (alloc_plan w)\<rparr>) ''no mem''"
      by simp_all
    have e: "extends w {} w1"
      unfolding w1 extends_errmsg by (simp add: extends_def)
    have p: "alt_ptrs c1 = alt_ptrs c"
      using n by (intro alt_ptrs_same) (simp_all add: c1 set_slot_simps)
    have f: "c1 = c\<lparr>alt_slots := alt_slots c1, subject_alt_name_count := ?k\<rparr>"
      using n by (simp add: c1 set_slot_name_def set_slot_type_def)
    from e p f n show ?thesis
      by (intro exI [of _ "{}"] exI [of _ "alt_slots c1"] exI [of _ ?k])
        (simp add: c1 set_slot_simps)
  next
    case ok
    let ?p = "fresh_addr (blocks w)"
    from ipaddr_good_ok [OF ok, of c] r
    have c1: "c1 = (set_slot_name (set_slot_type c ?k ?t) ?k (Some ?p))
                     \<lparr>subject_alt_name_count := ?k + 1\<rparr>"
      and w1: "w1 = w\<lparr>alloc_plan := tl (alloc_plan w),
                       blocks := (?p, asn1_data b) # blocks w\<rparr>"
      by simp_all
    have a: "alloc w (asn1_data b) = (Some ?p, w1)"
      unfolding w1 by (rule alloc_ok [OF ok(2)])
    have e: "extends w {?p} w1" using extends_alloc [OF a] by simp
    have sl: "alt_slots c1 = (alt_slots c)[?k := \<lparr>alt_name = Some ?p, alt_name_type = ?t\<rparr>]"
      using n by (simp add: c1 set_slot_simps slot_written)
    have k: "subject_alt_name_count c1 = ?k + 1" by (simp add: c1)
    have p: "alt_ptrs c1 = alt_ptrs c \<union> {?p}" by (rule alt_ptrs_append [OF n k sl])
    have f: "c1 = c\<lparr>alt_slots := alt_slots c1, subject_alt_name_count := ?k + 1\<rparr>"
      using n by (simp add: c1 set_slot_name_def set_slot_type_def)
    from e p f show ?thesis
      by (intro exI [of _ "{?p}"] exI [of _ "alt_slots c1"] exI [of _ "?k + 1"])
        (simp add: sl)
  qed
qed

lemma altname_step_ext:
  assumes r: "altname_step w c rv g = (r1, c1, w1)"
    and n: "subject_alt_name_count c < length (alt_slots c)"
  shows "\<exists>N sl k. extends w N w1 \<and> alt_ptrs c1 = alt_ptrs c \<union> N \<and>
           c1 = c\<lparr>alt_slots := sl, subject_alt_name_count := k\<rparr> \<and>
           length sl = length (alt_slots c) \<and> k \<le> subject_alt_name_count c + 1"
proof -
  have other: ?thesis if "c1 = c" "w1 = w"
    using that
    by (intro exI [of _ "{}"] exI [of _ "alt_slots c"] exI [of _ "subject_alt_name_count c"])
      (simp add: extends_refl)
  show ?thesis
  proof (cases g)
    case (GEN_DNS s)
    with r have "tls_load_alt_ia5string w s c TLS_CERT_NAME_DNS = (r1, c1, w1)"
      by (simp add: altname_step_def)
    then show ?thesis using n by (rule ia5_step_ext)
  next
    case (GEN_EMAIL s)
    with r have "tls_load_alt_ia5string w s c TLS_CERT_NAME_EMAIL = (r1, c1, w1)"
      by (simp add: altname_step_def)
    then show ?thesis using n by (rule ia5_step_ext)
  next
    case (GEN_URI s)
    with r have "tls_load_alt_ia5string w s c TLS_CERT_NAME_URI = (r1, c1, w1)"
      by (simp add: altname_step_def)
    then show ?thesis using n by (rule ia5_step_ext)
  next
    case (GEN_IPADD b)
    with r have "tls_load_alt_ipaddr w b c = (r1, c1, w1)"
      by (simp add: altname_step_def)
    then show ?thesis using n by (rule ipaddr_step_ext)
  qed (rule other; use r in \<open>simp add: altname_step_def\<close>)+
qed

lemma altnames_loop_ext:
  assumes "altnames_loop w c rv gs = (r, c', w')"
    and "subject_alt_name_count c + length gs \<le> length (alt_slots c)"
  shows "\<exists>N sl k. extends w N w' \<and> alt_ptrs c' = alt_ptrs c \<union> N \<and>
           c' = c\<lparr>alt_slots := sl, subject_alt_name_count := k\<rparr>"
  using assms
proof (induction gs arbitrary: w c rv)
  case Nil
  then have "c' = c" "w' = w" by simp_all
  then show ?case
    by (intro exI [of _ "{}"] exI [of _ "alt_slots c"] exI [of _ "subject_alt_name_count c"])
      (simp add: extends_refl)
next
  case (Cons g gs)
  obtain r1 c1 w1 where st: "altname_step w c rv g = (r1, c1, w1)"
    by (cases "altname_step w c rv g")
  have n: "subject_alt_name_count c < length (alt_slots c)" using Cons.prems(2) by simp
  from altname_step_ext [OF st n] obtain N sl k where
    e: "extends w N w1" and p: "alt_ptrs c1 = alt_ptrs c \<union> N"
    and f: "c1 = c\<lparr>alt_slots := sl, subject_alt_name_count := k\<rparr>"
    and l: "length sl = length (alt_slots c)" and k: "k \<le> subject_alt_name_count c + 1"
    by blast
  show ?case
  proof (cases "r1 < 0")
    case True
    with Cons.prems(1) st have "c' = c1" "w' = w1" by simp_all
    with e p f show ?thesis by blast
  next
    case False
    with Cons.prems(1) st have lp: "altnames_loop w1 c1 r1 gs = (r, c', w')" by simp
    have le: "subject_alt_name_count c1 + length gs \<le> length (alt_slots c1)"
      using Cons.prems(2) k l by (simp add: f)
    from Cons.IH [OF lp le] obtain N2 sl2 k2 where
      e2: "extends w1 N2 w'" and p2: "alt_ptrs c' = alt_ptrs c1 \<union> N2"
      and f2: "c' = c1\<lparr>alt_slots := sl2, subject_alt_name_count := k2\<rparr>"
      by blast
    have "extends w (N \<union> N2) w'" by (rule extends_trans [OF e e2])
    moreover have "alt_ptrs c' = alt_ptrs c \<union> (N \<union> N2)" using p p2 by auto
    moreover have "c' = c\<lparr>alt_slots := sl2, subject_alt_name_count := k2\<rparr>"
      by (simp add: f2 f)
    ultimately show ?thesis by blast
  qed
qed

lemma get_altnames_ext:
  assumes r: "tls_cert_get_altnames w c x = (r1, c', w')"
    and z: "subject_alt_name_count c = 0" "subject_alt_names c = None"
  shows "\<exists>sl k q. extends w (alt_ptrs c' \<union> set_option q) w' \<and>
           c' = c\<lparr>subject_alt_names := q, alt_slots := sl, subject_alt_name_count := k\<rparr>"
proof -
  have z0: "alt_ptrs c = {}" using z(1) by (simp add: alt_ptrs_def)
  have same: ?thesis if "c' = c" "w' = w"
    using that z z0
    by (intro exI [of _ "alt_slots c"] exI [of _ "0::nat"] exI [of _ "None :: addr option"])
      (simp add: extends_refl)
  show ?thesis
  proof (cases "x_subject_alt_name x")
    case None
    with r show ?thesis by (intro same) (simp_all add: tls_cert_get_altnames_def)
  next
    case (Some gs)
    show ?thesis
    proof (cases "gs = []")
      case True
      with r Some show ?thesis by (intro same) (simp_all add: tls_cert_get_altnames_def)
    next
      case False
      obtain p w1 where a: "alloc w [] = (p, w1)" by (cases "alloc w []")
      show ?thesis
      proof (cases p)
        case None
        with r Some False a have c': "c' = c\<lparr>subject_alt_names := None\<rparr>"
          and w': "w' = tls_set_error w1 ''no mem''"
          by (simp_all add: tls_cert_get_altnames_def)
        have "alt_ptrs c' = {}" using z(1) by (simp add: c' alt_ptrs_def)
        with extends_alloc [OF a] None z show ?thesis
          by (intro exI [of _ "alt_slots c"] exI [of _ "0::nat"]
              exI [of _ "None :: addr option"]) (simp add: c' w')
      next
        case arr: (Some arr)
        let ?c0 = "c\<lparr>subject_alt_names := Some arr,
                     alt_slots := replicate (length gs) zero_slot\<rparr>"
        from r Some False a arr have lp: "altnames_loop w1 ?c0 (-1) gs = (r1, c', w')"
          by (simp add: tls_cert_get_altnames_def)
        have le: "subject_alt_name_count ?c0 + length gs \<le> length (alt_slots ?c0)"
          using z(1) by simp
        from altnames_loop_ext [OF lp le] obtain N sl k where
          e: "extends w1 N w'" and p: "alt_ptrs c' = alt_ptrs ?c0 \<union> N"
          and f: "c' = ?c0\<lparr>alt_slots := sl, subject_alt_name_count := k\<rparr>"
          by blast
        have p0: "alt_ptrs ?c0 = {}" using z(1) by (simp add: alt_ptrs_def)
        have "extends w ({arr} \<union> N) w'"
          using extends_trans [OF extends_alloc [OF a] e] arr by simp
        then have "extends w (alt_ptrs c' \<union> set_option (Some arr)) w'"
          using p p0 by (simp add: Un_commute)
        moreover have "c' = c\<lparr>subject_alt_names := Some arr, alt_slots := sl,
                               subject_alt_name_count := k\<rparr>"
          by (simp add: f)
        ultimately show ?thesis by blast
      qed
    qed
  qed
qed

lemma get_field_inv:
  assumes inv: "ent_inv k w0 st"
    and upd: "\<And>p e. ent_fields_from k e \<Longrightarrow>
               entity_ptrs (upd p e) = entity_ptrs e \<union> set_option p \<and>
               ent_fields_from (Suc k) (upd p e)"
  shows "ent_inv (Suc k) w0 (get_field name n upd st)"
proof -
  obtain r e w where st: "st = (r, e, w)" by (cases st)
  from inv have e: "extends w0 (entity_ptrs e) w" and f: "ent_fields_from k e"
    by (simp_all add: ent_inv_def st)
  show ?thesis
  proof (cases "r = 0")
    case False
    have "ent_fields_from (Suc k) e" using f by (simp add: ent_fields_from_def)
    with False e show ?thesis by (simp add: st get_field_def ent_inv_def)
  next
    case True
    obtain r1 p w1 where g: "tls_cert_get_name_string w name n = (r1, p, w1)"
      by (cases "tls_cert_get_name_string w name n")
    from extends_trans [OF e name_string_ext(1) [OF g]] upd [OF f, of p]
    have "extends w0 (entity_ptrs (upd p e)) w1 \<and> ent_fields_from (Suc k) (upd p e)"
      by simp
    with True g show ?thesis by (simp add: st get_field_def ent_inv_def)
  qed
qed

lemma entity_ext:
  assumes "tls_get_entity w name zero_entity = (r, e, w')"
  shows "extends w (entity_ptrs e) w'"
proof -
  let ?s0 = "(0::int, zero_entity, w)"
  let ?s1 = "get_field name NID_commonName (\<lambda>p e. e\<lparr>common_name := p\<rparr>) ?s0"
  let ?s2 = "get_field name NID_countryName (\<lambda>p e. e\<lparr>country_name := p\<rparr>) ?s1"
  let ?s3 = "get_field name NID_stateOrProvinceName (\<lambda>p e. e\<lparr>state_or_province_name := p\<rparr>) ?s2"
  let ?s4 = "get_field name NID_localityName (\<lambda>p e. e\<lparr>locality_name := p\<rparr>) ?s3"
  let ?s5 = "get_field name NID_streetAddress (\<lambda>p e. e\<lparr>street_address := p\<rparr>) ?s4"
  let ?s6 = "get_field name NID_organizationName (\<lambda>p e. e\<lparr>organization_name := p\<rparr>) ?s5"
  let ?s7 = "get_field name NID_organizationalUnitName (\<lambda>p e. e\<lparr>organizational_unit_name := p\<rparr>) ?s6"
  have i0: "ent_inv 0 w ?s0"
    by (simp add: ent_inv_def ent_fields_from_def zero_entity_def entity_ptrs_def extends_refl)
  have i1: "ent_inv (Suc 0) w ?s1"
    by (rule get_field_inv [OF i0]) (auto simp: ent_fields_from_def entity_ptrs_def)
  have i2: "ent_inv (Suc (Suc 0)) w ?s2"
    by (rule get_field_inv [OF i1]) (auto simp: ent_fields_from_def entity_ptrs_def)
  have i3: "ent_inv (Suc (Suc (Suc 0))) w ?s3"
    by (rule get_field_inv [OF i2]) (auto simp: ent_fields_from_def entity_ptrs_def)
  have i4: "ent_inv (Suc (Suc (Suc (Suc 0)))) w ?s4"
    by (rule get_field_inv [OF i3]) (auto simp: ent_fields_from_def entity_ptrs_def)
  have i5: "ent_inv (Suc (Suc (Suc (Suc (Suc 0))))) w ?s5"
    by (rule get_field_inv [OF i4]) (auto simp: ent_fields_from_def entity_ptrs_def)
  have i6: "ent_inv (Suc (Suc (Suc (Suc (Suc (Suc 0)))))) w ?s6"
    by (rule get_field_inv [OF i5]) (auto simp: ent_fields_from_def entity_ptrs_def)
  have i7: "ent_inv (Suc (Suc (Suc (Suc (Suc (Suc (Suc 0))))))) w ?s7"
    by (rule get_field_inv [OF i6]) (auto simp: ent_fields_from_def entity_ptrs_def)
  have "tls_get_entity w name zero_entity = ?s7" by (simp add: tls_get_entity_def)
  with i7 assms show ?thesis by (simp add: ent_inv_def)
qed

text \<open>What \<^verbatim>\<open>tls_cert_free\<close> removes from the heap.\<close>

lemma blocks_free_slots:
  "blocks (foldl (\<lambda>v s. free v (alt_name s)) w xs)
   = filter (\<lambda>b. fst b \<notin> (\<Union>s\<in>set xs. set_option (alt_name s))) (blocks w)"
proof (induction xs arbitrary: w)
  case Nil
  then show ?case by simp
next
  case (Cons s xs)
  show ?case
    by (simp add: Cons.IH blocks_free)
qed

lemma blocks_free_entity:
  "blocks (tls_cert_free_entity w e) = filter (\<lambda>b. fst b \<notin> entity_ptrs e) (blocks w)"
  by (simp add: tls_cert_free_entity_def blocks_free entity_ptrs_def)

lemma blocks_cert_free:
  "blocks (tls_cert_free w (Some (a, c)))
   = filter (\<lambda>b. fst b \<notin> insert a (cert_owned c)) (blocks w)"
  by (simp add: tls_cert_free_def Let_def blocks_free blocks_free_entity blocks_free_slots
      cert_owned_def alt_ptrs_def)
     (rule filter_cong [OF refl], auto)

lemma errmsg_free_slots [simp]:
  "errmsg (foldl (\<lambda>v s. free v (alt_name s)) w xs) = errmsg w"
  by (induction xs arbitrary: w) simp_all

lemma errmsg_cert_free [simp]: "errmsg (tls_cert_free w cert) = errmsg w"
  by (cases cert) (auto simp: tls_cert_free_def tls_cert_free_entity_def Let_def)

subsection \<open>The chained steps of the extraction\<close>



lemma chain_inv:
  assumes inv: "cert_inv k w1 st"
    and step: "\<And>v c r c' v'. cert_fields_from k c \<Longrightarrow> stepf v c = (r, c', v') \<Longrightarrow>
                 \<exists>P. extends v P v' \<and> cert_owned c' = cert_owned c \<union> P \<and>
                     cert_fields_from (Suc k) c'"
  shows "cert_inv (Suc k) w1 (chain stepf st)"
proof -
  obtain r c w where st: "st = (r, c, w)" by (cases st)
  from inv have e: "extends w1 (cert_owned c) w" and f: "cert_fields_from k c"
    by (simp_all add: cert_inv_def st)
  show ?thesis
  proof (cases "r = 0")
    case False
    have "cert_fields_from (Suc k) c" using f by (simp add: cert_fields_from_def)
    with False e show ?thesis by (simp add: st chain_def cert_inv_def)
  next
    case True
    obtain r' c' v' where s: "stepf w c = (r', c', v')" by (cases "stepf w c")
    from step [OF f s] obtain P where P: "extends w P v'"
      "cert_owned c' = cert_owned c \<union> P" "cert_fields_from (Suc k) c'"
      by blast
    from extends_trans [OF e P(1)] P(2,3) True s show ?thesis
      by (simp add: st chain_def cert_inv_def)
  qed
qed

lemma entity_ptrs_zero [simp]: "entity_ptrs zero_entity = {}"
  by (simp add: entity_ptrs_def zero_entity_def)

lemma decode_fields_inv:
  assumes "c0 = zero_cert\<lparr>version := ver\<rparr>"
    and "decode_fields long_max peer subj iss w1 c0 = (r, c, w2)"
  shows "extends w1 (cert_owned c) w2"
proof -
  let ?f1 = "\<lambda>v c. case tls_get_entity v subj (subject c) of
                    (r, e, v1) \<Rightarrow> (r, c\<lparr>subject := e\<rparr>, v1)"
  let ?f2 = "\<lambda>v c. case tls_get_entity v iss (issuer c) of
                    (r, e, v1) \<Rightarrow> (r, c\<lparr>issuer := e\<rparr>, v1)"
  let ?f3 = "\<lambda>v c. tls_cert_get_altnames v c peer"
  let ?f4 = "\<lambda>v c. case tls_parse_time v (x_notBefore peer) of
                    (r, p, v1) \<Rightarrow> (r, c\<lparr>not_before := p\<rparr>, v1)"
  let ?f5 = "\<lambda>v c. case tls_parse_time v (x_notAfter peer) of
                    (r, p, v1) \<Rightarrow> (r, c\<lparr>not_after := p\<rparr>, v1)"
  let ?f6 = "\<lambda>v c. case tls_parse_bigint long_max v (x_serialNumber peer) of
                    (r, p, v1) \<Rightarrow> (r, c\<lparr>serial := p\<rparr>, v1)"
  let ?s0 = "(0::int, c0, w1)"
  let ?s1 = "chain ?f1 ?s0"
  let ?s2 = "chain ?f2 ?s1"
  let ?s3 = "chain ?f3 ?s2"
  let ?s4 = "chain ?f4 ?s3"
  let ?s5 = "chain ?f5 ?s4"
  let ?s6 = "chain ?f6 ?s5"
  have i0: "cert_inv 0 w1 ?s0"
    by (simp add: cert_inv_def cert_fields_from_def cert_owned_def alt_ptrs_def assms(1)
        zero_cert_def extends_refl)
  have i1: "cert_inv (Suc 0) w1 ?s1"
  proof (rule chain_inv [OF i0])
    fix v c r c' v'
    assume f: "cert_fields_from 0 c" and s: "?f1 v c = (r, c', v')"
    obtain r1 e v1 where g: "tls_get_entity v subj zero_entity = (r1, e, v1)"
      by (cases "tls_get_entity v subj zero_entity")
    from f have z: "subject c = zero_entity" by (simp add: cert_fields_from_def)
    from s g z have c': "c' = c\<lparr>subject := e\<rparr>" and v': "v' = v1" by simp_all
    have "cert_owned c' = cert_owned c \<union> entity_ptrs e"
      by (auto simp: c' cert_owned_def alt_ptrs_def z)
    moreover have "cert_fields_from (Suc 0) c'"
      using f by (simp add: c' cert_fields_from_def)
    ultimately show "\<exists>P. extends v P v' \<and> cert_owned c' = cert_owned c \<union> P \<and>
                     cert_fields_from (Suc 0) c'"
      using entity_ext [OF g] v' by blast
  qed
  have i2: "cert_inv (Suc (Suc 0)) w1 ?s2"
  proof (rule chain_inv [OF i1])
    fix v c r c' v'
    assume f: "cert_fields_from (Suc 0) c" and s: "?f2 v c = (r, c', v')"
    obtain r1 e v1 where g: "tls_get_entity v iss zero_entity = (r1, e, v1)"
      by (cases "tls_get_entity v iss zero_entity")
    from f have z: "issuer c = zero_entity" by (simp add: cert_fields_from_def)
    from s g z have c': "c' = c\<lparr>issuer := e\<rparr>" and v': "v' = v1" by simp_all
    have "cert_owned c' = cert_owned c \<union> entity_ptrs e"
      by (auto simp: c' cert_owned_def alt_ptrs_def z)
    moreover have "cert_fields_from (Suc (Suc 0)) c'"
      using f by (simp add: c' cert_fields_from_def)
    ultimately show "\<exists>P. extends v P v' \<and> cert_owned c' = cert_owned c \<union> P \<and>
                     cert_fields_from (Suc (Suc 0)) c'"
      using entity_ext [OF g] v' by blast
  qed
  have i3: "cert_inv (Suc (Suc (Suc 0))) w1 ?s3"
  proof (rule chain_inv [OF i2])
    fix v c r c' v'
    assume f: "cert_fields_from (Suc (Suc 0)) c" and s: "?f3 v c = (r, c', v')"
    from f have z: "subject_alt_name_count c = 0" "subject_alt_names c = None"
      by (simp_all add: cert_fields_from_def)
    from get_altnames_ext [OF s z] obtain sl k q where
      e: "extends v (alt_ptrs c' \<union> set_option q) v'"
      and c': "c' = c\<lparr>subject_alt_names := q, alt_slots := sl, subject_alt_name_count := k\<rparr>"
      by blast
    have a0: "alt_ptrs c = {}" using z(1) by (simp add: alt_ptrs_def)
    have "cert_owned c' = cert_owned c \<union> (alt_ptrs c' \<union> set_option q)"
      unfolding cert_owned_def a0 z(2) by (subst (1 2 3 4 5 6) c') auto
    moreover have "cert_fields_from (Suc (Suc (Suc 0))) c'"
      using f by (simp add: c' cert_fields_from_def)
    ultimately show "\<exists>P. extends v P v' \<and> cert_owned c' = cert_owned c \<union> P \<and>
                     cert_fields_from (Suc (Suc (Suc 0))) c'"
      using e by blast
  qed
  have i4: "cert_inv (Suc (Suc (Suc (Suc 0)))) w1 ?s4"
  proof (rule chain_inv [OF i3])
    fix v c r c' v'
    assume f: "cert_fields_from (Suc (Suc (Suc 0))) c" and s: "?f4 v c = (r, c', v')"
    obtain r1 p v1 where g: "tls_parse_time v (x_notBefore peer) = (r1, p, v1)"
      by (cases "tls_parse_time v (x_notBefore peer)")
    from f have z: "not_before c = None" by (simp add: cert_fields_from_def)
    from s g have c': "c' = c\<lparr>not_before := p\<rparr>" and v': "v' = v1" by simp_all
    have "cert_owned c' = cert_owned c \<union> set_option p"
      by (auto simp: c' cert_owned_def alt_ptrs_def z)
    moreover have "cert_fields_from (Suc (Suc (Suc (Suc 0)))) c'"
      using f by (simp add: c' cert_fields_from_def)
    ultimately show "\<exists>P. extends v P v' \<and> cert_owned c' = cert_owned c \<union> P \<and>
                     cert_fields_from (Suc (Suc (Suc (Suc 0)))) c'"
      using parse_time_ext [OF g] v' by blast
  qed
  have i5: "cert_inv (Suc (Suc (Suc (Suc (Suc 0))))) w1 ?s5"
  proof (rule chain_inv [OF i4])
    fix v c r c' v'
    assume f: "cert_fields_from (Suc (Suc (Suc (Suc 0)))) c" and s: "?f5 v c = (r, c', v')"
    obtain r1 p v1 where g: "tls_parse_time v (x_notAfter peer) = (r1, p, v1)"
      by (cases "tls_parse_time v (x_notAfter peer)")
    from f have z: "not_after c = None" by (simp add: cert_fields_from_def)
    from s g have c': "c' = c\<lparr>not_after := p\<rparr>" and v': "v' = v1" by simp_all
    have "cert_owned c' = cert_owned c \<union> set_option p"
      by (auto simp: c' cert_owned_def alt_ptrs_def z)
    moreover have "cert_fields_from (Suc (Suc (Suc (Suc (Suc 0))))) c'"
      using f by (simp add: c' cert_fields_from_def)
    ultimately show "\<exists>P. extends v P v' \<and> cert_owned c' = cert_owned c \<union> P \<and>
                     cert_fields_from (Suc (Suc (Suc (Suc (Suc 0))))) c'"
      using parse_time_ext [OF g] v' by blast
  qed
  have i6: "cert_inv (Suc (Suc (Suc (Suc (Suc (Suc 0)))))) w1 ?s6"
  proof (rule chain_inv [OF i5])
    fix v c r c' v'
    assume f: "cert_fields_from (Suc (Suc (Suc (Suc (Suc 0))))) c" and s: "?f6 v c = (r, c', v')"
    obtain r1 p v1 where g: "tls_parse_bigint long_max v (x_serialNumber peer) = (r1, p, v1)"
      by (cases "tls_parse_bigint long_max v (x_serialNumber peer)")
    from f have z: "serial c = None" by (simp add: cert_fields_from_def)
    from s g have c': "c' = c\<lparr>serial := p\<rparr>" and v': "v' = v1" by simp_all
    have "cert_owned c' = cert_owned c \<union> set_option p"
      by (auto simp: c' cert_owned_def alt_ptrs_def z)
    moreover have "cert_fields_from (Suc (Suc (Suc (Suc (Suc (Suc 0)))))) c'"
      using f by (simp add: c' cert_fields_from_def)
    ultimately show "\<exists>P. extends v P v' \<and> cert_owned c' = cert_owned c \<union> P \<and>
                     cert_fields_from (Suc (Suc (Suc (Suc (Suc (Suc 0)))))) c'"
      using parse_bigint_ext [OF g] v' by blast
  qed
  have "decode_fields long_max peer subj iss w1 c0 = ?s6" by (simp add: decode_fields_def)
  with assms(2) have "?s6 = (r, c, w2)" by simp
  with i6 show ?thesis by (simp add: cert_inv_def)
qed

subsection \<open>The extraction\<close>

lemma peer_cert_decoded:
  assumes "ssl_conn ctx = Some conn" and "peer_certificate conn = Some peer"
    and "0 \<le> x_version peer"
    and "x_subject_name peer = Some subj" and "x_issuer_name peer = Some iss"
    and "alloc w [] = (Some a, w1)"
    and "decode_fields long_max peer subj iss w1 (zero_cert\<lparr>version := x_version peer\<rparr>)
         = (r, c, w2)"
  shows "tls_get_peer_cert long_max w ctx
         = (if r = 0 then (0, Some (a, c), w2)
            else (r, None, tls_cert_free w2 (Some (a, c))))"
  using assms by (simp add: tls_get_peer_cert_def)

text \<open>
  The calls that return before the chain: the return code is -1, nothing is returned
  and the heap is untouched.
\<close>

lemma peer_cert_early:
  assumes "ssl_conn ctx = None \<or>
           (\<exists>conn. ssl_conn ctx = Some conn \<and>
              (peer_certificate conn = None \<or>
               (\<exists>peer. peer_certificate conn = Some peer \<and>
                  (x_version peer < 0 \<or> x_subject_name peer = None \<or>
                   x_issuer_name peer = None \<or> \<not> next_alloc_ok w))))"
  shows "\<exists>w'. tls_get_peer_cert long_max w ctx = (-1, None, w') \<and> blocks w' = blocks w"
  using assms
  by (auto simp: tls_get_peer_cert_def tls_set_error_def alloc_fail tls_cert_free_def
      split: option.splits)

lemma peer_cert_frame:
  assumes "tls_get_peer_cert long_max w ctx = (ret, cert_p, w')"
  shows "(ret \<noteq> 0 \<longrightarrow> cert_p = None \<and> blocks w' = blocks w) \<and>
         (ret = 0 \<longrightarrow> (\<exists>a c. cert_p = Some (a, c) \<and> extends w (insert a (cert_owned c)) w'))"
proof (cases "ssl_conn ctx = None \<or>
           (\<exists>conn. ssl_conn ctx = Some conn \<and>
              (peer_certificate conn = None \<or>
               (\<exists>peer. peer_certificate conn = Some peer \<and>
                  (x_version peer < 0 \<or> x_subject_name peer = None \<or>
                   x_issuer_name peer = None \<or> \<not> next_alloc_ok w))))")
  case True
  from peer_cert_early [OF True, of long_max] assms show ?thesis by auto
next
  case False
  then obtain conn peer subj iss where h: "ssl_conn ctx = Some conn"
    "peer_certificate conn = Some peer" "0 \<le> x_version peer"
    "x_subject_name peer = Some subj" "x_issuer_name peer = Some iss"
    and ok: "next_alloc_ok w"
    by (auto simp: not_less)
  let ?a = "fresh_addr (blocks w)"
  let ?w1 = "w\<lparr>alloc_plan := tl (alloc_plan w), blocks := (?a, []) # blocks w\<rparr>"
  have a: "alloc w [] = (Some ?a, ?w1)" by (rule alloc_ok [OF ok])
  obtain r c w2 where
    d: "decode_fields long_max peer subj iss ?w1 (zero_cert\<lparr>version := x_version peer\<rparr>)
        = (r, c, w2)"
    by (cases "decode_fields long_max peer subj iss ?w1 (zero_cert\<lparr>version := x_version peer\<rparr>)")
  have e1: "extends ?w1 (cert_owned c) w2" by (rule decode_fields_inv [OF refl d])
  have "extends w ({?a} \<union> cert_owned c) w2"
    using extends_trans [OF extends_alloc [OF a] e1] by simp
  then have e: "extends w (insert ?a (cert_owned c)) w2" by simp
  note res = peer_cert_decoded [OF h a d]
  show ?thesis
  proof (cases "r = 0")
    case True
    with res assms e show ?thesis by auto
  next
    case False
    with res assms have "ret = r" "cert_p = None"
      "w' = tls_cert_free w2 (Some (?a, c))" by simp_all
    with False extends_release [OF e] show ?thesis by (simp add: blocks_cert_free)
  qed
qed

lemma fst_step [simp]: "fst (case x of (r, p, v) \<Rightarrow> (r, g p, v)) = fst x"
  by (simp split: prod.splits)



lemma parse_time_unprintable: "fst (tls_parse_time v Time_unprintable) \<noteq> 0"
  by (simp add: tls_parse_time_def ASN1_TIME_print_def split: prod.splits option.splits)

text \<open>The chain step by step: each step runs in the state left by the steps before it.\<close>

lemma chain_run:
  "chain stepf (r, c, w) = (if r = 0 then stepf w c else (r, c, w))"
  by (simp add: chain_def)

lemma decode_fields_run:
  assumes s1: "tls_get_entity w1 subj zero_entity = (r1, e1, v1)"
    and s2: "tls_get_entity v1 iss zero_entity = (r2, e2, v2)"
    and s3: "tls_cert_get_altnames v2
               (zero_cert\<lparr>version := ver, subject := e1, issuer := e2\<rparr>) peer = (r3, c3, v3)"
    and s4: "tls_parse_time v3 (x_notBefore peer) = (r4, p4, v4)"
    and s5: "tls_parse_time v4 (x_notAfter peer) = (r5, p5, v5)"
    and s6: "tls_parse_bigint long_max v5 (x_serialNumber peer) = (r6, p6, v6)"
  shows "decode_fields long_max peer subj iss w1 (zero_cert\<lparr>version := ver\<rparr>) =
         (if r1 \<noteq> 0 then (r1, zero_cert\<lparr>version := ver, subject := e1\<rparr>, v1)
          else if r2 \<noteq> 0 then (r2, zero_cert\<lparr>version := ver, subject := e1, issuer := e2\<rparr>, v2)
          else if r3 \<noteq> 0 then (r3, c3, v3)
          else if r4 \<noteq> 0 then (r4, c3\<lparr>not_before := p4\<rparr>, v4)
          else if r5 \<noteq> 0 then (r5, c3\<lparr>not_before := p4, not_after := p5\<rparr>, v5)
          else (r6, c3\<lparr>not_before := p4, not_after := p5, serial := p6\<rparr>, v6))"
proof -
  let ?c0 = "zero_cert\<lparr>version := ver\<rparr>"
  have z: "subject ?c0 = zero_entity" "issuer (?c0\<lparr>subject := e1\<rparr>) = zero_entity"
    by (simp_all add: zero_cert_def)
  show ?thesis
    unfolding decode_fields_def
    by (simp add: chain_run z s1 s2 s3 s4 s5 s6)
qed

text \<open>
  The return code of the extraction is the return code of the first step that does not
  return 0, each step taken in the state that the steps before it left.
\<close>

lemma peer_cert_run:
  assumes h: "ssl_conn ctx = Some conn" "peer_certificate conn = Some peer"
      "0 \<le> x_version peer"
      "x_subject_name peer = Some subj" "x_issuer_name peer = Some iss"
    and a: "alloc w [] = (Some a, w1)"
    and s1: "tls_get_entity w1 subj zero_entity = (r1, e1, v1)"
    and s2: "tls_get_entity v1 iss zero_entity = (r2, e2, v2)"
    and s3: "tls_cert_get_altnames v2
               (zero_cert\<lparr>version := x_version peer, subject := e1, issuer := e2\<rparr>) peer
             = (r3, c3, v3)"
    and s4: "tls_parse_time v3 (x_notBefore peer) = (r4, p4, v4)"
    and s5: "tls_parse_time v4 (x_notAfter peer) = (r5, p5, v5)"
    and s6: "tls_parse_bigint long_max v5 (x_serialNumber peer) = (r6, p6, v6)"
  shows "fst (tls_get_peer_cert long_max w ctx) =
           (if r1 \<noteq> 0 then r1 else if r2 \<noteq> 0 then r2 else if r3 \<noteq> 0 then r3
            else if r4 \<noteq> 0 then r4 else if r5 \<noteq> 0 then r5 else r6)"
    and "r1 = 0 \<and> r2 = 0 \<and> r3 = 0 \<and> r4 = 0 \<and> r5 = 0 \<and> r6 = 0 \<Longrightarrow>
         tls_get_peer_cert long_max w ctx
         = (0, Some (a, c3\<lparr>not_before := p4, not_after := p5, serial := p6\<rparr>), v6)"
proof -
  note d = decode_fields_run [OF s1 s2 s3 s4 s5 s6]
  obtain r c w2 where
    e: "decode_fields long_max peer subj iss w1 (zero_cert\<lparr>version := x_version peer\<rparr>)
        = (r, c, w2)"
    by (cases "decode_fields long_max peer subj iss w1 (zero_cert\<lparr>version := x_version peer\<rparr>)")
  note res = peer_cert_decoded [OF h a e]
  from d e have r: "r = (if r1 \<noteq> 0 then r1 else if r2 \<noteq> 0 then r2 else if r3 \<noteq> 0 then r3
            else if r4 \<noteq> 0 then r4 else if r5 \<noteq> 0 then r5 else r6)"
    by (simp split: if_splits)
  from res have "fst (tls_get_peer_cert long_max w ctx) = r" by simp
  with r show "fst (tls_get_peer_cert long_max w ctx) =
           (if r1 \<noteq> 0 then r1 else if r2 \<noteq> 0 then r2 else if r3 \<noteq> 0 then r3
            else if r4 \<noteq> 0 then r4 else if r5 \<noteq> 0 then r5 else r6)"
    by simp
  assume z: "r1 = 0 \<and> r2 = 0 \<and> r3 = 0 \<and> r4 = 0 \<and> r5 = 0 \<and> r6 = 0"
  with d e have "r = 0" "c = c3\<lparr>not_before := p4, not_after := p5, serial := p6\<rparr>" "w2 = v6"
    by simp_all
  with res show "tls_get_peer_cert long_max w ctx
         = (0, Some (a, c3\<lparr>not_before := p4, not_after := p5, serial := p6\<rparr>), v6)"
    by simp
qed

text \<open>A call that returns 0 ran every step, and every step returned 0.\<close>

lemma peer_cert_trace:
  assumes r: "tls_get_peer_cert long_max w ctx = (0, cert_p, w')"
  shows "\<exists>conn peer subj iss a w1 e1 v1 e2 v2 c3 v3 p4 v4 p5 v5 p6.
           ssl_conn ctx = Some conn \<and> peer_certificate conn = Some peer \<and>
           0 \<le> x_version peer \<and>
           x_subject_name peer = Some subj \<and> x_issuer_name peer = Some iss \<and>
           alloc w [] = (Some a, w1) \<and>
           tls_get_entity w1 subj zero_entity = (0, e1, v1) \<and>
           tls_get_entity v1 iss zero_entity = (0, e2, v2) \<and>
           tls_cert_get_altnames v2
             (zero_cert\<lparr>version := x_version peer, subject := e1, issuer := e2\<rparr>) peer
             = (0, c3, v3) \<and>
           tls_parse_time v3 (x_notBefore peer) = (0, p4, v4) \<and>
           tls_parse_time v4 (x_notAfter peer) = (0, p5, v5) \<and>
           tls_parse_bigint long_max v5 (x_serialNumber peer) = (0, p6, w') \<and>
           cert_p = Some (a, c3\<lparr>not_before := p4, not_after := p5, serial := p6\<rparr>)"
proof (cases "ssl_conn ctx = None \<or>
           (\<exists>conn. ssl_conn ctx = Some conn \<and>
              (peer_certificate conn = None \<or>
               (\<exists>peer. peer_certificate conn = Some peer \<and>
                  (x_version peer < 0 \<or> x_subject_name peer = None \<or>
                   x_issuer_name peer = None \<or> \<not> next_alloc_ok w))))")
  case True
  from peer_cert_early [OF True, of long_max] r show ?thesis by auto
next
  case False
  then obtain conn peer subj iss where h: "ssl_conn ctx = Some conn"
    "peer_certificate conn = Some peer" "0 \<le> x_version peer"
    "x_subject_name peer = Some subj" "x_issuer_name peer = Some iss"
    and ok: "next_alloc_ok w"
    by (auto simp: not_less)
  define a where "a = fresh_addr (blocks w)"
  define w1 where "w1 = w\<lparr>alloc_plan := tl (alloc_plan w), blocks := (a, []) # blocks w\<rparr>"
  have a: "alloc w [] = (Some a, w1)" unfolding a_def w1_def by (rule alloc_ok [OF ok])
  obtain r1 e1 v1 where s1: "tls_get_entity w1 subj zero_entity = (r1, e1, v1)"
    by (cases "tls_get_entity w1 subj zero_entity")
  obtain r2 e2 v2 where s2: "tls_get_entity v1 iss zero_entity = (r2, e2, v2)"
    by (cases "tls_get_entity v1 iss zero_entity")
  define c2 where "c2 = zero_cert\<lparr>version := x_version peer, subject := e1, issuer := e2\<rparr>"
  obtain r3 c3 v3 where s3: "tls_cert_get_altnames v2 c2 peer = (r3, c3, v3)"
    by (cases "tls_cert_get_altnames v2 c2 peer")
  obtain r4 p4 v4 where s4: "tls_parse_time v3 (x_notBefore peer) = (r4, p4, v4)"
    by (cases "tls_parse_time v3 (x_notBefore peer)")
  obtain r5 p5 v5 where s5: "tls_parse_time v4 (x_notAfter peer) = (r5, p5, v5)"
    by (cases "tls_parse_time v4 (x_notAfter peer)")
  obtain r6 p6 v6 where
    s6: "tls_parse_bigint long_max v5 (x_serialNumber peer) = (r6, p6, v6)"
    by (cases "tls_parse_bigint long_max v5 (x_serialNumber peer)")
  note run = peer_cert_run [OF h a s1 s2 s3 [unfolded c2_def] s4 s5 s6]
  from run(1) r have
    "(if r1 \<noteq> 0 then r1 else if r2 \<noteq> 0 then r2 else if r3 \<noteq> 0 then r3
      else if r4 \<noteq> 0 then r4 else if r5 \<noteq> 0 then r5 else r6) = 0"
    by simp
  then have z: "r1 = 0 \<and> r2 = 0 \<and> r3 = 0 \<and> r4 = 0 \<and> r5 = 0 \<and> r6 = 0"
    by (simp split: if_splits)
  from run(2) [OF z] r have
    o: "cert_p = Some (a, c3\<lparr>not_before := p4, not_after := p5, serial := p6\<rparr>)"
    and w': "w' = v6" by simp_all
  from z s1 have t1: "tls_get_entity w1 subj zero_entity = (0, e1, v1)" by simp
  from z s2 have t2: "tls_get_entity v1 iss zero_entity = (0, e2, v2)" by simp
  from z s3 have t3: "tls_cert_get_altnames v2
             (zero_cert\<lparr>version := x_version peer, subject := e1, issuer := e2\<rparr>) peer
             = (0, c3, v3)" by (simp add: c2_def)
  from z s4 have t4: "tls_parse_time v3 (x_notBefore peer) = (0, p4, v4)" by simp
  from z s5 have t5: "tls_parse_time v4 (x_notAfter peer) = (0, p5, v5)" by simp
  from z s6 w' have t6: "tls_parse_bigint long_max v5 (x_serialNumber peer) = (0, p6, w')"
    by simp
  show ?thesis
    apply (intro exI conjI)
                apply (rule h(1))
               apply (rule h(2))
              apply (rule h(3))
             apply (rule h(4))
            apply (rule h(5))
           apply (rule a)
          apply (rule t1)
         apply (rule t2)
        apply (rule t3)
       apply (rule t4)
      apply (rule t5)
     apply (rule t6)
    apply (rule o)
    done
qed

text \<open>
  The serial number fails when its first allocation fails; a time is decoded when its
  two allocations succeed, whatever the plan holds after them.
\<close>

lemma parse_bigint_alloc_fails:
  "\<not> next_alloc_ok v \<Longrightarrow>
   tls_parse_bigint long_max v a
   = (-1, None, tls_set_error (v\<lparr>alloc_plan := tl (alloc_plan v)\<rparr>) ''cannot parse serial'')"
  by (simp add: tls_parse_bigint_def Let_def ASN1_INTEGER_to_BN_def strdup_def alloc_fail)

lemma tls_parse_time_run:
  assumes ok1: "next_alloc_ok w"
    and ok2: "next_alloc_ok (w\<lparr>alloc_plan := tl (alloc_plan w)\<rparr>)"
    and f: "time_fields (pad_day (read_buf text))
              = (Some (months ! i), Some day, Some time, Some year, tz, None)"
    and i: "i < 12"
    and tz: "tz = None \<or> tz = Some ''GMT''"
  shows "tls_parse_time w (Time_prints text)
         = (0, Some (fresh_addr (blocks w)),
            w\<lparr>alloc_plan := tl (tl (alloc_plan w)),
              blocks := (fresh_addr (blocks w),
                         year @ ''-'' @ fmt_02d (i + 1) @ ''-'' @ day @ ''T'' @ time @ ''Z''
                         @ [NUL]) # blocks w\<rparr>)"
  using tz i
  by (auto simp: tls_parse_time_def alloc_ok [OF ok1]
      ASN1_TIME_print_def alloc_free_fresh f months_nth(3) alloc_ok [OF ok2])

lemma first_of_january_fields:
  assumes y: "token y" and l: "length y \<le> 80"
  shows "time_fields (pad_day (read_buf (''Jan  1 00:00:00 '' @ y @ '' GMT'')))
         = (Some (months ! 0), Some ''01'', Some ''00:00:00'', Some y, Some ''GMT'', None)"
proof -
  let ?rest = "CHR '' '' # ''00:00:00'' @ CHR '' '' # y @ '' GMT''"
  have jan: "months ! 0 = ''Jan''" by (simp add: months_def)
  have r: "NUL \<notin> set ?rest" using y by (simp add: token_def NUL_def)
  have c: "cstr (pad_day (read_buf (months ! 0 @ CHR '' '' # CHR '' '' # CHR ''1'' # ?rest)))
           = months ! 0 @ CHR '' '' # ''01'' @ CHR '' '' # ''00:00:00'' @ CHR '' '' # y
               @ CHR '' '' # ''GMT''"
    using cstr_padded_day [of 0 "CHR ''1''" ?rest] r l by (simp add: NUL_def)
  have "time_fields (pad_day (read_buf (months ! 0 @ CHR '' '' # CHR '' '' # CHR ''1'' # ?rest)))
        = (Some (months ! 0), Some ''01'', Some ''00:00:00'', Some y, Some ''GMT'', None)"
    by (rule time_fields_5 [OF c months_nth(2) _ _ y token_GMT])
       (simp_all add: token_def NUL_def)
  then show ?thesis by (simp add: jan)
qed

text \<open>
  Claim C3. Whenever \<^verbatim>\<open>tls_get_peer_cert\<close> returns an error, \<^verbatim>\<open>*cert_p\<close> is
  \<^verbatim>\<open>NULL\<close> and the heap holds exactly the blocks it held before the call: the
  structure, the strings of the two entities, the array and the names appended to it,
  the times, the serial number and every temporary block are released. When it returns
  0, the structure is returned, the new blocks are exactly the ones it points to, the
  session has a peer certificate with a version that is not negative, a subject and an
  issuer, the structure was allocated, and each of the six decoding steps (subject,
  issuer, alternative names, the two times, serial number) returned 0 in the state left
  by the steps before it;
  so a step that fails there, for whatever reason (an allocation failure included),
  makes the call fail. A session whose peer has no certificate gives -1 with the
  message ``peer does not have cert'' and no allocation at all. With the results of the
  six steps named, each in the state left by the ones before it, the return code of the
  call is the return code of the first step that does not return 0, and when all six
  return 0 the call returns the structure they filled, in the state of the last one.
\<close>

theorem failed_extraction_releases_everything:
  "(case tls_get_peer_cert long_max w ctx of
      (ret, cert_p, w') \<Rightarrow>
        (ret \<noteq> 0 \<longrightarrow> cert_p = None \<and> blocks w' = blocks w) \<and>
        (ret = 0 \<longrightarrow>
           (\<exists>a c. cert_p = Some (a, c) \<and> extends w (insert a (cert_owned c)) w') \<and>
           (\<exists>conn peer subj iss a w1 e1 v1 e2 v2 c3 v3 p4 v4 p5 v5 p6.
              ssl_conn ctx = Some conn \<and> peer_certificate conn = Some peer \<and>
              0 \<le> x_version peer \<and>
              x_subject_name peer = Some subj \<and> x_issuer_name peer = Some iss \<and>
              alloc w [] = (Some a, w1) \<and>
              tls_get_entity w1 subj zero_entity = (0, e1, v1) \<and>
              tls_get_entity v1 iss zero_entity = (0, e2, v2) \<and>
              tls_cert_get_altnames v2
                (zero_cert\<lparr>version := x_version peer, subject := e1, issuer := e2\<rparr>) peer
                = (0, c3, v3) \<and>
              tls_parse_time v3 (x_notBefore peer) = (0, p4, v4) \<and>
              tls_parse_time v4 (x_notAfter peer) = (0, p5, v5) \<and>
              tls_parse_bigint long_max v5 (x_serialNumber peer) = (0, p6, w') \<and>
              cert_p = Some (a, c3\<lparr>not_before := p4, not_after := p5, serial := p6\<rparr>))))
   \<and> (ssl_conn ctx = Some conn \<and> peer_certificate conn = None \<longrightarrow>
        tls_get_peer_cert long_max w ctx
        = (-1, None, tls_set_error w ''peer does not have cert''))
   \<and> (ssl_conn ctx = Some conn \<and> peer_certificate conn = Some peer \<and>
      0 \<le> x_version peer \<and>
      x_subject_name peer = Some subj \<and> x_issuer_name peer = Some iss \<and>
      alloc w [] = (Some a, w1) \<and>
      tls_get_entity w1 subj zero_entity = (r1, e1, v1) \<and>
      tls_get_entity v1 iss zero_entity = (r2, e2, v2) \<and>
      tls_cert_get_altnames v2
        (zero_cert\<lparr>version := x_version peer, subject := e1, issuer := e2\<rparr>) peer
        = (r3, c3, v3) \<and>
      tls_parse_time v3 (x_notBefore peer) = (r4, p4, v4) \<and>
      tls_parse_time v4 (x_notAfter peer) = (r5, p5, v5) \<and>
      tls_parse_bigint long_max v5 (x_serialNumber peer) = (r6, p6, v6) \<longrightarrow>
        fst (tls_get_peer_cert long_max w ctx)
        = (if r1 \<noteq> 0 then r1 else if r2 \<noteq> 0 then r2 else if r3 \<noteq> 0 then r3
           else if r4 \<noteq> 0 then r4 else if r5 \<noteq> 0 then r5 else r6) \<and>
        (r1 = 0 \<and> r2 = 0 \<and> r3 = 0 \<and> r4 = 0 \<and> r5 = 0 \<and> r6 = 0 \<longrightarrow>
           tls_get_peer_cert long_max w ctx
           = (0, Some (a, c3\<lparr>not_before := p4, not_after := p5, serial := p6\<rparr>), v6)))"
proof (intro conjI)
  obtain ret cert_p w' where r: "tls_get_peer_cert long_max w ctx = (ret, cert_p, w')"
    by (cases "tls_get_peer_cert long_max w ctx")
  note f = peer_cert_frame [OF r]
  have t: "\<exists>conn peer subj iss a w1 e1 v1 e2 v2 c3 v3 p4 v4 p5 v5 p6.
              ssl_conn ctx = Some conn \<and> peer_certificate conn = Some peer \<and>
              0 \<le> x_version peer \<and>
              x_subject_name peer = Some subj \<and> x_issuer_name peer = Some iss \<and>
              alloc w [] = (Some a, w1) \<and>
              tls_get_entity w1 subj zero_entity = (0, e1, v1) \<and>
              tls_get_entity v1 iss zero_entity = (0, e2, v2) \<and>
              tls_cert_get_altnames v2
                (zero_cert\<lparr>version := x_version peer, subject := e1, issuer := e2\<rparr>) peer
                = (0, c3, v3) \<and>
              tls_parse_time v3 (x_notBefore peer) = (0, p4, v4) \<and>
              tls_parse_time v4 (x_notAfter peer) = (0, p5, v5) \<and>
              tls_parse_bigint long_max v5 (x_serialNumber peer) = (0, p6, w') \<and>
              cert_p = Some (a, c3\<lparr>not_before := p4, not_after := p5, serial := p6\<rparr>)"
    if "ret = 0"
    using r that by (intro peer_cert_trace [of long_max w ctx cert_p w']) simp
  have "(ret \<noteq> 0 \<longrightarrow> cert_p = None \<and> blocks w' = blocks w) \<and>
        (ret = 0 \<longrightarrow>
           (\<exists>a c. cert_p = Some (a, c) \<and> extends w (insert a (cert_owned c)) w') \<and>
           (\<exists>conn peer subj iss a w1 e1 v1 e2 v2 c3 v3 p4 v4 p5 v5 p6.
              ssl_conn ctx = Some conn \<and> peer_certificate conn = Some peer \<and>
              0 \<le> x_version peer \<and>
              x_subject_name peer = Some subj \<and> x_issuer_name peer = Some iss \<and>
              alloc w [] = (Some a, w1) \<and>
              tls_get_entity w1 subj zero_entity = (0, e1, v1) \<and>
              tls_get_entity v1 iss zero_entity = (0, e2, v2) \<and>
              tls_cert_get_altnames v2
                (zero_cert\<lparr>version := x_version peer, subject := e1, issuer := e2\<rparr>) peer
                = (0, c3, v3) \<and>
              tls_parse_time v3 (x_notBefore peer) = (0, p4, v4) \<and>
              tls_parse_time v4 (x_notAfter peer) = (0, p5, v5) \<and>
              tls_parse_bigint long_max v5 (x_serialNumber peer) = (0, p6, w') \<and>
              cert_p = Some (a, c3\<lparr>not_before := p4, not_after := p5, serial := p6\<rparr>)))"
  proof (intro conjI impI)
    assume "ret \<noteq> 0"
    with f show "cert_p = None" and "blocks w' = blocks w" by simp_all
  next
    assume "ret = 0"
    with f show "\<exists>a c. cert_p = Some (a, c) \<and> extends w (insert a (cert_owned c)) w'"
      by simp
  next
    assume "ret = 0"
    then show "\<exists>conn peer subj iss a w1 e1 v1 e2 v2 c3 v3 p4 v4 p5 v5 p6.
              ssl_conn ctx = Some conn \<and> peer_certificate conn = Some peer \<and>
              0 \<le> x_version peer \<and>
              x_subject_name peer = Some subj \<and> x_issuer_name peer = Some iss \<and>
              alloc w [] = (Some a, w1) \<and>
              tls_get_entity w1 subj zero_entity = (0, e1, v1) \<and>
              tls_get_entity v1 iss zero_entity = (0, e2, v2) \<and>
              tls_cert_get_altnames v2
                (zero_cert\<lparr>version := x_version peer, subject := e1, issuer := e2\<rparr>) peer
                = (0, c3, v3) \<and>
              tls_parse_time v3 (x_notBefore peer) = (0, p4, v4) \<and>
              tls_parse_time v4 (x_notAfter peer) = (0, p5, v5) \<and>
              tls_parse_bigint long_max v5 (x_serialNumber peer) = (0, p6, w') \<and>
              cert_p = Some (a, c3\<lparr>not_before := p4, not_after := p5, serial := p6\<rparr>)"
      by (rule t)
  qed
  then show "case tls_get_peer_cert long_max w ctx of
      (ret, cert_p, w') \<Rightarrow>
        (ret \<noteq> 0 \<longrightarrow> cert_p = None \<and> blocks w' = blocks w) \<and>
        (ret = 0 \<longrightarrow>
           (\<exists>a c. cert_p = Some (a, c) \<and> extends w (insert a (cert_owned c)) w') \<and>
           (\<exists>conn peer subj iss a w1 e1 v1 e2 v2 c3 v3 p4 v4 p5 v5 p6.
              ssl_conn ctx = Some conn \<and> peer_certificate conn = Some peer \<and>
              0 \<le> x_version peer \<and>
              x_subject_name peer = Some subj \<and> x_issuer_name peer = Some iss \<and>
              alloc w [] = (Some a, w1) \<and>
              tls_get_entity w1 subj zero_entity = (0, e1, v1) \<and>
              tls_get_entity v1 iss zero_entity = (0, e2, v2) \<and>
              tls_cert_get_altnames v2
                (zero_cert\<lparr>version := x_version peer, subject := e1, issuer := e2\<rparr>) peer
                = (0, c3, v3) \<and>
              tls_parse_time v3 (x_notBefore peer) = (0, p4, v4) \<and>
              tls_parse_time v4 (x_notAfter peer) = (0, p5, v5) \<and>
              tls_parse_bigint long_max v5 (x_serialNumber peer) = (0, p6, w') \<and>
              cert_p = Some (a, c3\<lparr>not_before := p4, not_after := p5, serial := p6\<rparr>)))"
    unfolding r prod.case .
next
  show "ssl_conn ctx = Some conn \<and> peer_certificate conn = None \<longrightarrow>
        tls_get_peer_cert long_max w ctx
        = (-1, None, tls_set_error w ''peer does not have cert'')"
    by (simp add: tls_get_peer_cert_def)
next
  show "ssl_conn ctx = Some conn \<and> peer_certificate conn = Some peer \<and>
      0 \<le> x_version peer \<and>
      x_subject_name peer = Some subj \<and> x_issuer_name peer = Some iss \<and>
      alloc w [] = (Some a, w1) \<and>
      tls_get_entity w1 subj zero_entity = (r1, e1, v1) \<and>
      tls_get_entity v1 iss zero_entity = (r2, e2, v2) \<and>
      tls_cert_get_altnames v2
        (zero_cert\<lparr>version := x_version peer, subject := e1, issuer := e2\<rparr>) peer
        = (r3, c3, v3) \<and>
      tls_parse_time v3 (x_notBefore peer) = (r4, p4, v4) \<and>
      tls_parse_time v4 (x_notAfter peer) = (r5, p5, v5) \<and>
      tls_parse_bigint long_max v5 (x_serialNumber peer) = (r6, p6, v6) \<longrightarrow>
        fst (tls_get_peer_cert long_max w ctx)
        = (if r1 \<noteq> 0 then r1 else if r2 \<noteq> 0 then r2 else if r3 \<noteq> 0 then r3
           else if r4 \<noteq> 0 then r4 else if r5 \<noteq> 0 then r5 else r6) \<and>
        (r1 = 0 \<and> r2 = 0 \<and> r3 = 0 \<and> r4 = 0 \<and> r5 = 0 \<and> r6 = 0 \<longrightarrow>
           tls_get_peer_cert long_max w ctx
           = (0, Some (a, c3\<lparr>not_before := p4, not_after := p5, serial := p6\<rparr>), v6))"
  proof (intro impI, elim conjE)
    assume h: "ssl_conn ctx = Some conn" "peer_certificate conn = Some peer"
      "0 \<le> x_version peer"
      "x_subject_name peer = Some subj" "x_issuer_name peer = Some iss"
      and a: "alloc w [] = (Some a, w1)"
      and s1: "tls_get_entity w1 subj zero_entity = (r1, e1, v1)"
      and s2: "tls_get_entity v1 iss zero_entity = (r2, e2, v2)"
      and s3: "tls_cert_get_altnames v2
               (zero_cert\<lparr>version := x_version peer, subject := e1, issuer := e2\<rparr>) peer
             = (r3, c3, v3)"
      and s4: "tls_parse_time v3 (x_notBefore peer) = (r4, p4, v4)"
      and s5: "tls_parse_time v4 (x_notAfter peer) = (r5, p5, v5)"
      and s6: "tls_parse_bigint long_max v5 (x_serialNumber peer) = (r6, p6, v6)"
    note run = peer_cert_run [OF h a s1 s2 s3 s4 s5 s6]
    from run(2) have "r1 = 0 \<and> r2 = 0 \<and> r3 = 0 \<and> r4 = 0 \<and> r5 = 0 \<and> r6 = 0 \<longrightarrow>
           tls_get_peer_cert long_max w ctx
           = (0, Some (a, c3\<lparr>not_before := p4, not_after := p5, serial := p6\<rparr>), v6)"
      by (rule impI)
    with run(1) show "fst (tls_get_peer_cert long_max w ctx)
        = (if r1 \<noteq> 0 then r1 else if r2 \<noteq> 0 then r2 else if r3 \<noteq> 0 then r3
           else if r4 \<noteq> 0 then r4 else if r5 \<noteq> 0 then r5 else r6) \<and>
        (r1 = 0 \<and> r2 = 0 \<and> r3 = 0 \<and> r4 = 0 \<and> r5 = 0 \<and> r6 = 0 \<longrightarrow>
           tls_get_peer_cert long_max w ctx
           = (0, Some (a, c3\<lparr>not_before := p4, not_after := p5, serial := p6\<rparr>), v6))"
      by (rule conjI)
  qed
qed

theorem failed_extraction_releases_everything_witness:
  "fst (tls_get_peer_cert (2 ^ 63 - 1)
      \<lparr>blocks = [],
       alloc_plan = [True, True, True, True, True, True, True, True, True, False],
       errmsg = None\<rparr>
      \<lparr>ssl_conn = Some \<lparr>peer_certificate = Some
        \<lparr>x_version = 2,
         x_subject_name = Some (Map.empty(NID_commonName \<mapsto> ''example'')),
         x_issuer_name = Some (Map.empty(NID_organizationName \<mapsto> ''issuer'')),
         x_subject_alt_name = Some
           [GEN_DNS \<lparr>asn1_type = V_ASN1_IA5STRING, asn1_data = ''a.b''\<rparr>],
         x_notBefore = Time_prints ''Jan  1 00:00:00 2024 GMT'',
         x_notAfter = Time_prints ''Jan  1 00:00:00 2025 GMT'',
         x_serialNumber = \<lparr>int_negative = False, int_data = [CHR 0x01]\<rparr>,
         x_digest = (\<lambda>_. None)\<rparr>\<rparr>\<rparr>) = -1
   \<and> fst (snd (tls_get_peer_cert (2 ^ 63 - 1)
      \<lparr>blocks = [],
       alloc_plan = [True, True, True, True, True, True, True, True, True, False],
       errmsg = None\<rparr>
      \<lparr>ssl_conn = Some \<lparr>peer_certificate = Some
        \<lparr>x_version = 2,
         x_subject_name = Some (Map.empty(NID_commonName \<mapsto> ''example'')),
         x_issuer_name = Some (Map.empty(NID_organizationName \<mapsto> ''issuer'')),
         x_subject_alt_name = Some
           [GEN_DNS \<lparr>asn1_type = V_ASN1_IA5STRING, asn1_data = ''a.b''\<rparr>],
         x_notBefore = Time_prints ''Jan  1 00:00:00 2024 GMT'',
         x_notAfter = Time_prints ''Jan  1 00:00:00 2025 GMT'',
         x_serialNumber = \<lparr>int_negative = False, int_data = [CHR 0x01]\<rparr>,
         x_digest = (\<lambda>_. None)\<rparr>\<rparr>\<rparr>)) = None
   \<and> blocks (snd (snd (tls_get_peer_cert (2 ^ 63 - 1)
      \<lparr>blocks = [],
       alloc_plan = [True, True, True, True, True, True, True, True, True, False],
       errmsg = None\<rparr>
      \<lparr>ssl_conn = Some \<lparr>peer_certificate = Some
        \<lparr>x_version = 2,
         x_subject_name = Some (Map.empty(NID_commonName \<mapsto> ''example'')),
         x_issuer_name = Some (Map.empty(NID_organizationName \<mapsto> ''issuer'')),
         x_subject_alt_name = Some
           [GEN_DNS \<lparr>asn1_type = V_ASN1_IA5STRING, asn1_data = ''a.b''\<rparr>],
         x_notBefore = Time_prints ''Jan  1 00:00:00 2024 GMT'',
         x_notAfter = Time_prints ''Jan  1 00:00:00 2025 GMT'',
         x_serialNumber = \<lparr>int_negative = False, int_data = [CHR 0x01]\<rparr>,
         x_digest = (\<lambda>_. None)\<rparr>\<rparr>\<rparr>))) = []
   \<and> errmsg (snd (snd (tls_get_peer_cert (2 ^ 63 - 1)
      \<lparr>blocks = [],
       alloc_plan = [True, True, True, True, True, True, True, True, True, False],
       errmsg = None\<rparr>
      \<lparr>ssl_conn = Some \<lparr>peer_certificate = Some
        \<lparr>x_version = 2,
         x_subject_name = Some (Map.empty(NID_commonName \<mapsto> ''example'')),
         x_issuer_name = Some (Map.empty(NID_organizationName \<mapsto> ''issuer'')),
         x_subject_alt_name = Some
           [GEN_DNS \<lparr>asn1_type = V_ASN1_IA5STRING, asn1_data = ''a.b''\<rparr>],
         x_notBefore = Time_prints ''Jan  1 00:00:00 2024 GMT'',
         x_notAfter = Time_prints ''Jan  1 00:00:00 2025 GMT'',
         x_serialNumber = \<lparr>int_negative = False, int_data = [CHR 0x01]\<rparr>,
         x_digest = (\<lambda>_. None)\<rparr>\<rparr>\<rparr>))) = Some ''cannot parse serial''"
proof -
  define subj :: X509_NAME where "subj = Map.empty(NID_commonName \<mapsto> ''example'')"
  define iss :: X509_NAME where "iss = Map.empty(NID_organizationName \<mapsto> ''issuer'')"
  define peer where "peer =
        \<lparr>x_version = 2,
         x_subject_name = Some subj,
         x_issuer_name = Some iss,
         x_subject_alt_name = Some
           [GEN_DNS \<lparr>asn1_type = V_ASN1_IA5STRING, asn1_data = ''a.b''\<rparr>],
         x_notBefore = Time_prints ''Jan  1 00:00:00 2024 GMT'',
         x_notAfter = Time_prints ''Jan  1 00:00:00 2025 GMT'',
         x_serialNumber = \<lparr>int_negative = False, int_data = [CHR 0x01]\<rparr>,
         x_digest = (\<lambda>_. None)\<rparr>"
  define conn where "conn = \<lparr>peer_certificate = Some peer\<rparr>"
  define ctx where "ctx = \<lparr>ssl_conn = Some conn\<rparr>"
  define w :: world where "w =
      \<lparr>blocks = [],
       alloc_plan = [True, True, True, True, True, True, True, True, True, False],
       errmsg = None\<rparr>"
  define R where "R = tls_get_peer_cert (2 ^ 63 - 1) w ctx"
  define w1 :: world where "w1 =
      \<lparr>blocks = [(1, [])],
       alloc_plan = [True, True, True, True, True, True, True, True, False],
       errmsg = None\<rparr>"
  define e1 where "e1 = zero_entity\<lparr>common_name := Some 2\<rparr>"
  define v1 :: world where "v1 =
      \<lparr>blocks = [(2, ''example'' @ [NUL]), (1, [])],
       alloc_plan = [True, True, True, True, True, True, True, False],
       errmsg = None\<rparr>"
  define e2 where "e2 = zero_entity\<lparr>organization_name := Some 3\<rparr>"
  define v2 :: world where "v2 =
      \<lparr>blocks = [(3, ''issuer'' @ [NUL]), (2, ''example'' @ [NUL]), (1, [])],
       alloc_plan = [True, True, True, True, True, True, False],
       errmsg = None\<rparr>"
  define c3 where "c3 =
      zero_cert\<lparr>version := 2, subject := e1, issuer := e2, subject_alt_names := Some 4,
        alt_slots := [\<lparr>alt_name = Some 5, alt_name_type = TLS_CERT_NAME_DNS\<rparr>],
        subject_alt_name_count := 1\<rparr>"
  define v3 :: world where "v3 =
      \<lparr>blocks = [(5, ''a.b'' @ [NUL]), (4, []), (3, ''issuer'' @ [NUL]),
                 (2, ''example'' @ [NUL]), (1, [])],
       alloc_plan = [True, True, True, True, False],
       errmsg = None\<rparr>"
  define v4 :: world where "v4 =
      v3\<lparr>alloc_plan := [True, True, False],
         blocks := (6, ''2024-01-01T00:00:00Z'' @ [NUL]) # blocks v3\<rparr>"
  define v5 :: world where "v5 =
      v4\<lparr>alloc_plan := [False],
         blocks := (7, ''2025-01-01T00:00:00Z'' @ [NUL]) # blocks v4\<rparr>"
  define v6 where "v6 = tls_set_error (v5\<lparr>alloc_plan := []\<rparr>) ''cannot parse serial''"
  have h: "ssl_conn ctx = Some conn" "peer_certificate conn = Some peer"
    "0 \<le> x_version peer" "x_subject_name peer = Some subj" "x_issuer_name peer = Some iss"
    by (simp_all add: ctx_def conn_def peer_def)
  have a: "alloc w [] = (Some 1, w1)"
    by (simp add: w_def w1_def alloc_def next_alloc_ok_def fresh_addr_def)
  have s1: "tls_get_entity w1 subj zero_entity = (0, e1, v1)"
    by (simp add: w1_def subj_def e1_def v1_def
        tls_get_entity_def get_field_def tls_cert_get_name_string_def
        X509_NAME_get_text_len_def X509_NAME_get_text_def alloc_def next_alloc_ok_def
        fresh_addr_def NUL_def zero_entity_def Let_def)
  have s2: "tls_get_entity v1 iss zero_entity = (0, e2, v2)"
    by (simp add: v1_def iss_def e2_def v2_def
        tls_get_entity_def get_field_def tls_cert_get_name_string_def
        X509_NAME_get_text_len_def X509_NAME_get_text_def alloc_def next_alloc_ok_def
        fresh_addr_def NUL_def zero_entity_def Let_def)
  have s3: "tls_cert_get_altnames v2
              (zero_cert\<lparr>version := x_version peer, subject := e1, issuer := e2\<rparr>) peer
            = (0, c3, v3)"
    by (simp add: v2_def c3_def v3_def peer_def
        tls_cert_get_altnames_def altname_step_def tls_load_alt_ia5string_def
        ASN1_STRING_type_def ASN1_STRING_length_def ASN1_STRING_data_def strdup_def cstr_def
        set_slot_name_def set_slot_type_def zero_slot_def
        alloc_def next_alloc_ok_def fresh_addr_def NUL_def zero_cert_def Let_def)
  have jan: "fmt_02d (Suc 0) = ''01''"
    by (simp add: fmt_02d_def dec.simps digit_char_def)
  have f4: "time_fields (pad_day (read_buf ''Jan  1 00:00:00 2024 GMT''))
            = (Some (months ! 0), Some ''01'', Some ''00:00:00'', Some ''2024'',
               Some ''GMT'', None)"
    using first_of_january_fields [of "''2024''"] by (simp add: token_def NUL_def)
  have f5: "time_fields (pad_day (read_buf ''Jan  1 00:00:00 2025 GMT''))
            = (Some (months ! 0), Some ''01'', Some ''00:00:00'', Some ''2025'',
               Some ''GMT'', None)"
    using first_of_january_fields [of "''2025''"] by (simp add: token_def NUL_def)
  have s4: "tls_parse_time v3 (x_notBefore peer) = (0, Some 6, v4)"
    using tls_parse_time_run [where w = v3, OF _ _ f4]
    by (simp add: jan peer_def v3_def v4_def next_alloc_ok_def fresh_addr_def)
  have s5: "tls_parse_time v4 (x_notAfter peer) = (0, Some 7, v5)"
    using tls_parse_time_run [where w = v4, OF _ _ f5]
    by (simp add: jan peer_def v3_def v4_def v5_def next_alloc_ok_def fresh_addr_def)
  have s6: "tls_parse_bigint (2 ^ 63 - 1) v5 (x_serialNumber peer) = (-1, None, v6)"
    using parse_bigint_alloc_fails [of v5 "2 ^ 63 - 1" "x_serialNumber peer"]
    by (simp add: v5_def v6_def next_alloc_ok_def)
  note t = failed_extraction_releases_everything [where long_max = "2 ^ 63 - 1"
      and w = w and ctx = ctx and conn = conn and peer = peer and subj = subj
      and iss = iss and a = 1 and ?w1.0 = w1
      and ?r1.0 = 0 and ?e1.0 = e1 and ?v1.0 = v1
      and ?r2.0 = 0 and ?e2.0 = e2 and ?v2.0 = v2
      and ?r3.0 = 0 and ?c3.0 = c3 and ?v3.0 = v3
      and ?r4.0 = 0 and ?p4.0 = "Some 6" and ?v4.0 = v4
      and ?r5.0 = 0 and ?p5.0 = "Some 7" and ?v5.0 = v5
      and ?r6.0 = "-1" and ?p6.0 = None and ?v6.0 = v6]
  from t [THEN conjunct2, THEN conjunct2, THEN mp, THEN conjunct1] h a s1 s2 s3 s4 s5 s6
  have f: "fst R = -1" unfolding R_def by simp
  from t have "case R of (ret, cert_p, w') \<Rightarrow>
        (ret \<noteq> 0 \<longrightarrow> cert_p = None \<and> blocks w' = blocks w) \<and>
        (ret = 0 \<longrightarrow>
           (\<exists>a c. cert_p = Some (a, c) \<and> extends w (insert a (cert_owned c)) w') \<and>
           (\<exists>conn peer subj iss a w1 e1 v1 e2 v2 c3 v3 p4 v4 p5 v5 p6.
              ssl_conn ctx = Some conn \<and> peer_certificate conn = Some peer \<and>
              0 \<le> x_version peer \<and>
              x_subject_name peer = Some subj \<and> x_issuer_name peer = Some iss \<and>
              alloc w [] = (Some a, w1) \<and>
              tls_get_entity w1 subj zero_entity = (0, e1, v1) \<and>
              tls_get_entity v1 iss zero_entity = (0, e2, v2) \<and>
              tls_cert_get_altnames v2
                (zero_cert\<lparr>version := x_version peer, subject := e1, issuer := e2\<rparr>) peer
                = (0, c3, v3) \<and>
              tls_parse_time v3 (x_notBefore peer) = (0, p4, v4) \<and>
              tls_parse_time v4 (x_notAfter peer) = (0, p5, v5) \<and>
              tls_parse_bigint (2 ^ 63 - 1) v5 (x_serialNumber peer) = (0, p6, w') \<and>
              cert_p = Some (a, c3\<lparr>not_before := p4, not_after := p5, serial := p6\<rparr>)))"
    unfolding R_def by (rule conjunct1)
  with f have g: "fst (snd R) = None \<and> blocks (snd (snd R)) = []"
    by (cases R) (simp add: w_def)
  have "decode_fields (2 ^ 63 - 1) peer subj iss w1 (zero_cert\<lparr>version := x_version peer\<rparr>)
        = (-1, c3\<lparr>not_before := Some 6, not_after := Some 7, serial := None\<rparr>, v6)"
    using decode_fields_run [OF s1 s2 s3 s4 s5 s6] by simp
  from peer_cert_decoded [OF h a this]
  have "errmsg (snd (snd R)) = Some ''cannot parse serial''"
    unfolding R_def by (simp add: v6_def tls_set_error_def)
  with f g show ?thesis
    unfolding R_def ctx_def conn_def peer_def subj_def iss_def w_def by simp
qed

subsection \<open>NUL bytes in distinguished names\<close>







end
